(* ===== verification/Prelude.thy ===== *)
theory Prelude
  imports Complex_Main "HOL-Library.Word" "HOL-Library.AList"
begin

text \<open>
  Shared vocabulary of the development: the types the Go code takes from its
  libraries (identifiers, timestamps, coordinates), fallible commands over a
  state with the rules that prove invariants of them, and list lemmas for
  tables that are updated in place.
\<close>

section \<open>Base types\<close>

text \<open>
  A \<open>uuid.UUID\<close> is 16 bytes; PostgreSQL orders \<open>uuid\<close> values as unsigned
  big-endian numbers.  Timestamps (\<open>TIMESTAMPTZ\<close>, \<open>time.Time\<close>) are
  microseconds.  A \<open>float64\<close> that came out of a JSON body or a
  \<open>DOUBLE PRECISION\<close> column is finite, hence a rational; the code only
  compares and stores coordinates.
\<close>

type_synonym uuid = "128 word"
type_synonym timestamp = int
type_synonym float64 = rat

abbreviation uuid_Nil :: uuid where
  "uuid_Nil \<equiv> 0"

named_theorems keeps_intros \<open>rules that show a command keeps an invariant\<close>
named_theorems cmd_simps \<open>evaluation of fallible commands\<close>

section \<open>Fallible commands\<close>

text \<open>
  A Go function that returns a value and an \<open>error\<close> and acts on a state is a
  function from the state to a sum (\<open>Inl\<close> the error) and the new state.
  \<open>andThen\<close> is the idiom of the source: call, return early when
  \<open>err != nil\<close>, go on with the value otherwise.  \<open>onErr\<close> gives both
  branches.
\<close>

type_synonym ('w, 'e, 'a) cmd = "'w \<Rightarrow> ('e + 'a) \<times> 'w"

definition ok :: "'a \<Rightarrow> ('w, 'e, 'a) cmd" where
  "ok x w = (Inr x, w)"

definition fail :: "'e \<Rightarrow> ('w, 'e, 'a) cmd" where
  "fail e w = (Inl e, w)"

definition onErr ::
  "('w, 'e, 'a) cmd \<Rightarrow> ('e \<Rightarrow> ('w, 'f, 'b) cmd) \<Rightarrow> ('a \<Rightarrow> ('w, 'f, 'b) cmd) \<Rightarrow> ('w, 'f, 'b) cmd" where
  "onErr m h k w = (case m w of (Inl e, w') \<Rightarrow> h e w' | (Inr x, w') \<Rightarrow> k x w')"

definition andThen ::
  "('w, 'e, 'a) cmd \<Rightarrow> ('a \<Rightarrow> ('w, 'e, 'b) cmd) \<Rightarrow> ('w, 'e, 'b) cmd" where
  "andThen m k = onErr m fail k"

text \<open>A command with an effect and no error.\<close>

definition effect :: "('w \<Rightarrow> 'w) \<Rightarrow> ('w, 'e, unit) cmd" where
  "effect f w = (Inr (), f w)"

text \<open>A read of the state.\<close>

definition asks :: "('w \<Rightarrow> 'a) \<Rightarrow> ('w, 'e, 'a) cmd" where
  "asks f w = (Inr (f w), w)"

text \<open>A computed result, with no effect.\<close>

definition result :: "'e + 'a \<Rightarrow> ('w, 'e, 'a) cmd" where
  "result r w = (r, w)"

lemma result_run [cmd_simps]: "result r w = (r, w)"
  by (simp add: result_def)

lemma ok_run [cmd_simps]: "ok x w = (Inr x, w)"
  by (simp add: ok_def)

lemma fail_run [cmd_simps]: "fail e w = (Inl e, w)"
  by (simp add: fail_def)

lemma effect_run [cmd_simps]: "effect f w = (Inr (), f w)"
  by (simp add: effect_def)

lemma asks_run [cmd_simps]: "asks f w = (Inr (f w), w)"
  by (simp add: asks_def)

lemma onErr_Inl [cmd_simps]: "m w = (Inl e, w') \<Longrightarrow> onErr m h k w = h e w'"
  by (simp add: onErr_def)

lemma onErr_Inr [cmd_simps]: "m w = (Inr x, w') \<Longrightarrow> onErr m h k w = k x w'"
  by (simp add: onErr_def)

lemma andThen_Inl [cmd_simps]: "m w = (Inl e, w') \<Longrightarrow> andThen m k w = (Inl e, w')"
  by (simp add: andThen_def onErr_Inl fail_run)

lemma andThen_Inr [cmd_simps]: "m w = (Inr x, w') \<Longrightarrow> andThen m k w = k x w'"
  by (simp add: andThen_def onErr_Inr)

lemma andThen_ok [cmd_simps]: "andThen (ok x) k w = k x w"
  by (rule andThen_Inr) (simp add: ok_run)

lemma andThen_fail [cmd_simps]: "andThen (fail e) k w = (Inl e, w)"
  by (rule andThen_Inl) (simp add: fail_run)

lemma andThen_effect [cmd_simps]: "andThen (effect f) k w = k () (f w)"
  by (rule andThen_Inr) (simp add: effect_run)

lemma andThen_asks [cmd_simps]: "andThen (asks f) k w = k (f w) w"
  by (rule andThen_Inr) (simp add: asks_run)

text \<open>Inversion: how a sequence can have succeeded.\<close>

lemma andThen_InrE:
  assumes "andThen m k w = (Inr y, w')"
  obtains x v where "m w = (Inr x, v)" "k x v = (Inr y, w')"
  using assms by (auto simp: andThen_def onErr_def fail_def split: prod.splits sum.splits)

lemma andThen_InrD:
  "andThen m k w = (Inr y, w') \<Longrightarrow> \<exists>x v. m w = (Inr x, v) \<and> k x v = (Inr y, w')"
  by (auto elim: andThen_InrE)

lemma andThen_InlD:
  "andThen m k w = (Inl e, w') \<Longrightarrow>
     m w = (Inl e, w') \<or> (\<exists>x v. m w = (Inr x, v) \<and> k x v = (Inl e, w'))"
  by (auto simp: andThen_def onErr_def fail_def split: prod.splits sum.splits)

subsection \<open>Invariants of commands\<close>

definition keeps :: "('w \<Rightarrow> bool) \<Rightarrow> ('w, 'e, 'a) cmd \<Rightarrow> bool" where
  "keeps I m \<longleftrightarrow> (\<forall>w. I w \<longrightarrow> I (snd (m w)))"

lemma keepsI: "(\<And>w. I w \<Longrightarrow> I (snd (m w))) \<Longrightarrow> keeps I m"
  by (simp add: keeps_def)

lemma keepsD: "keeps I m \<Longrightarrow> I w \<Longrightarrow> I (snd (m w))"
  by (simp add: keeps_def)

lemma keeps_ok [keeps_intros]: "keeps I (ok x)"
  by (simp add: keeps_def ok_def)

lemma keeps_fail [keeps_intros]: "keeps I (fail e)"
  by (simp add: keeps_def fail_def)

lemma keeps_asks [keeps_intros]: "keeps I (asks f)"
  by (simp add: keeps_def asks_def)

lemma keeps_result [keeps_intros]: "keeps I (result r)"
  by (simp add: keeps_def result_def)

lemma keeps_effect: "(\<And>w. I w \<Longrightarrow> I (f w)) \<Longrightarrow> keeps I (effect f)"
  by (simp add: keeps_def effect_def)

lemma keeps_onErr [keeps_intros]:
  assumes "keeps I m" "\<And>e. keeps I (h e)" "\<And>x. keeps I (k x)"
  shows "keeps I (onErr m h k)"
proof (rule keepsI)
  fix w assume "I w"
  obtain r v where m: "m w = (r, v)" by force
  with \<open>I w\<close> assms(1) have "I v" by (auto dest: keepsD [of _ _ w])
  with m assms(2,3) show "I (snd (onErr m h k w))"
    by (cases r) (auto simp: onErr_def keeps_def)
qed

lemma keeps_andThen [keeps_intros]:
  "keeps I m \<Longrightarrow> (\<And>x. keeps I (k x)) \<Longrightarrow> keeps I (andThen m k)"
  unfolding andThen_def by (intro keeps_onErr keeps_fail)

lemma keeps_if [keeps_intros]:
  "(b \<Longrightarrow> keeps I m) \<Longrightarrow> (\<not> b \<Longrightarrow> keeps I n) \<Longrightarrow> keeps I (if b then m else n)"
  by simp

lemma keeps_case_option [keeps_intros]:
  "keeps I m \<Longrightarrow> (\<And>x. keeps I (k x)) \<Longrightarrow>
     keeps I (case z of None \<Rightarrow> m | Some x \<Rightarrow> k x)"
  by (cases z) auto

lemma keeps_case_sum [keeps_intros]:
  "(\<And>e. keeps I (h e)) \<Longrightarrow> (\<And>x. keeps I (k x)) \<Longrightarrow>
     keeps I (case z of Inl e \<Rightarrow> h e | Inr x \<Rightarrow> k x)"
  by (cases z) auto

subsection \<open>Pre- and postconditions\<close>

text \<open>
  \<open>triple P m Q E\<close>: started where \<open>P\<close> holds, \<open>m\<close> ends where
  \<open>Q\<close> holds of its value and state, or where \<open>E\<close> holds of its error
  and state.
\<close>

definition triple ::
  "('w \<Rightarrow> bool) \<Rightarrow> ('w, 'e, 'a) cmd \<Rightarrow> ('a \<Rightarrow> 'w \<Rightarrow> bool) \<Rightarrow> ('e \<Rightarrow> 'w \<Rightarrow> bool) \<Rightarrow> bool" where
  "triple P m Q E \<longleftrightarrow> (\<forall>w. P w \<longrightarrow> (case m w of (Inr x, w') \<Rightarrow> Q x w' | (Inl e, w') \<Rightarrow> E e w'))"

lemma tripleI:
  "(\<And>w x w'. P w \<Longrightarrow> m w = (Inr x, w') \<Longrightarrow> Q x w') \<Longrightarrow>
   (\<And>w e w'. P w \<Longrightarrow> m w = (Inl e, w') \<Longrightarrow> E e w') \<Longrightarrow> triple P m Q E"
  by (auto simp: triple_def split: prod.splits sum.splits)

lemma triple_InrD: "triple P m Q E \<Longrightarrow> P w \<Longrightarrow> m w = (Inr x, w') \<Longrightarrow> Q x w'"
  by (auto simp: triple_def split: prod.splits sum.splits)

lemma triple_InlD: "triple P m Q E \<Longrightarrow> P w \<Longrightarrow> m w = (Inl e, w') \<Longrightarrow> E e w'"
  by (auto simp: triple_def split: prod.splits sum.splits)

lemma triple_andThen:
  assumes "triple P m R E" "\<And>x. triple (R x) (k x) Q E"
  shows "triple P (andThen m k) Q E"
proof (rule tripleI)
  fix w x w' assume "P w" "andThen m k w = (Inr x, w')"
  then show "Q x w'" by (auto elim!: andThen_InrE dest: triple_InrD [OF assms(1)] triple_InrD [OF assms(2)])
next
  fix w e w' assume "P w" "andThen m k w = (Inl e, w')"
  then show "E e w'"
    by (auto dest!: andThen_InlD dest: triple_InlD [OF assms(1)] triple_InlD [OF assms(2)] triple_InrD [OF assms(1)])
qed

lemma triple_conseq:
  "triple P' m Q' E' \<Longrightarrow> (\<And>w. P w \<Longrightarrow> P' w) \<Longrightarrow> (\<And>x w. Q' x w \<Longrightarrow> Q x w) \<Longrightarrow>
   (\<And>e w. E' e w \<Longrightarrow> E e w) \<Longrightarrow> triple P m Q E"
  by (rule tripleI) (blast dest: triple_InrD triple_InlD)+

lemma triple_ok: "(\<And>w. P w \<Longrightarrow> Q x w) \<Longrightarrow> triple P (ok x) Q E"
  by (simp add: triple_def ok_def)

lemma triple_fail: "(\<And>w. P w \<Longrightarrow> E e w) \<Longrightarrow> triple P (fail e) Q E"
  by (simp add: triple_def fail_def)

lemma triple_if: "(b \<Longrightarrow> triple P m Q E) \<Longrightarrow> (\<not> b \<Longrightarrow> triple P n Q E) \<Longrightarrow> triple P (if b then m else n) Q E"
  by simp

lemma keeps_triple: "keeps I m \<longleftrightarrow> triple I m (\<lambda>_. I) (\<lambda>_. I)"
proof -
  have "I (snd (m w)) = (case m w of (Inr x, w') \<Rightarrow> I w' | (Inl e, w') \<Rightarrow> I w')" for w
    by (simp split: prod.splits sum.splits)
  then show ?thesis by (simp add: keeps_def triple_def)
qed

section \<open>Tables as lists of rows\<close>

text \<open>
  \<open>UPDATE t SET f WHERE p\<close>, \<open>DELETE FROM t WHERE p\<close> and the number of
  rows a statement affects.
\<close>

definition update_where :: "('r \<Rightarrow> bool) \<Rightarrow> ('r \<Rightarrow> 'r) \<Rightarrow> 'r list \<Rightarrow> 'r list" where
  "update_where p f rs = map (\<lambda>r. if p r then f r else r) rs"

definition delete_where :: "('r \<Rightarrow> bool) \<Rightarrow> 'r list \<Rightarrow> 'r list" where
  "delete_where p rs = filter (\<lambda>r. \<not> p r) rs"

definition rows_where :: "('r \<Rightarrow> bool) \<Rightarrow> 'r list \<Rightarrow> nat" where
  "rows_where p rs = length (filter p rs)"

lemma set_update_where:
  "set (update_where p f rs) = {r \<in> set rs. \<not> p r} \<union> f ` {r \<in> set rs. p r}"
  by (auto simp: update_where_def)

lemma set_delete_where [simp]: "set (delete_where p rs) = {r \<in> set rs. \<not> p r}"
  by (simp add: delete_where_def)

lemma rows_where_0 [simp]: "rows_where p rs = 0 \<longleftrightarrow> (\<forall>r \<in> set rs. \<not> p r)"
  by (simp add: rows_where_def filter_empty_conv)

lemma rows_where_pos [simp]: "0 < rows_where p rs \<longleftrightarrow> (\<exists>r \<in> set rs. p r)"
  by (simp add: rows_where_def filter_empty_conv)

lemma map_update_where:
  "(\<And>r. r \<in> set rs \<Longrightarrow> p r \<Longrightarrow> k (f r) = k r) \<Longrightarrow> map k (update_where p f rs) = map k rs"
  by (simp add: update_where_def)

lemma image_update_where:
  "(\<And>r. r \<in> set rs \<Longrightarrow> p r \<Longrightarrow> k (f r) = k r) \<Longrightarrow> k ` set (update_where p f rs) = k ` set rs"
  by (simp only: set_map [symmetric] map_update_where)

lemma map_filter_update_where:
  "(\<And>r. r \<in> set rs \<Longrightarrow> p r \<Longrightarrow> k (f r) = k r \<and> q (f r) = q r) \<Longrightarrow>
     map k (filter q (update_where p f rs)) = map k (filter q rs)"
  by (induction rs) (auto simp: update_where_def)

lemma in_update_where:
  "r' \<in> set (update_where p f rs) \<longleftrightarrow> (\<exists>r \<in> set rs. r' = (if p r then f r else r))"
  by (auto simp: update_where_def)

lemma ball_update_where:
  "(\<forall>r' \<in> set (update_where p f rs). Q r') \<longleftrightarrow> (\<forall>r \<in> set rs. Q (if p r then f r else r))"
  by (auto simp: update_where_def)

lemma bex_update_where:
  "(\<exists>r' \<in> set (update_where p f rs). Q r') \<longleftrightarrow> (\<exists>r \<in> set rs. Q (if p r then f r else r))"
  by (auto simp: update_where_def)

lemma update_where_update_where:
  "update_where p f (update_where q g rs) =
     map (\<lambda>r. let r' = (if q r then g r else r) in if p r' then f r' else r') rs"
  by (simp add: update_where_def Let_def)

lemma image_filter_map:
  "(\<And>x. k (g x) = k x) \<Longrightarrow> k ` set (filter P (map g xs)) = k ` {x \<in> set xs. P (g x)}"
  by (force simp: image_iff)

lemma update_where_none: "(\<And>r. r \<in> set rs \<Longrightarrow> \<not> p r) \<Longrightarrow> update_where p f rs = rs"
  by (induction rs) (auto simp: update_where_def)

lemma delete_where_none: "(\<And>r. r \<in> set rs \<Longrightarrow> \<not> p r) \<Longrightarrow> delete_where p rs = rs"
  by (simp add: delete_where_def filter_id_conv)

lemma distinct_map_delete_where: "distinct (map k rs) \<Longrightarrow> distinct (map k (delete_where p rs))"
  by (simp add: delete_where_def distinct_map_filter)

lemma filter_update_where_other:
  "(\<And>r. p r \<Longrightarrow> \<not> q r) \<Longrightarrow> (\<And>r. p r \<Longrightarrow> \<not> q (f r)) \<Longrightarrow>
     filter q (update_where p f rs) = filter q rs"
  by (induction rs) (auto simp: update_where_def)

lemma filter_delete_where_other:
  "(\<And>r. p r \<Longrightarrow> \<not> q r) \<Longrightarrow> filter q (delete_where p rs) = filter q rs"
  by (induction rs) (auto simp: delete_where_def)

text \<open>A row found by its key is the only row with that key.\<close>

lemma distinct_map_unique:
  "distinct (map k rs) \<Longrightarrow> r \<in> set rs \<Longrightarrow> r' \<in> set rs \<Longrightarrow> k r = k r' \<Longrightarrow> r = r'"
  by (auto simp: distinct_map inj_on_def)

lemma find_SomeD: "List.find p rs = Some r \<Longrightarrow> r \<in> set rs \<and> p r"
  by (auto simp: find_Some_iff in_set_conv_nth)

lemma find_unique:
  assumes "distinct (map k rs)" "r \<in> set rs" "p r" "\<And>r'. p r' \<Longrightarrow> k r' = k r"
  shows "List.find p rs = Some r"
proof (cases "List.find p rs")
  case None
  with assms(2,3) show ?thesis by (simp add: find_None_iff)
next
  case (Some r')
  then have "r' \<in> set rs" "p r'" by (auto dest: find_SomeD)
  with assms have "r' = r" by (auto intro: distinct_map_unique [of k rs])
  with Some show ?thesis by simp
qed

lemma find_append:
  "List.find p (xs @ ys) = (case List.find p xs of None \<Rightarrow> List.find p ys | Some x \<Rightarrow> Some x)"
  by (induction xs) auto

section \<open>Go maps as association lists\<close>

lemma in_alist_update:
  "distinct (map fst al) \<Longrightarrow>
     (k', v') \<in> set (AList.update k v al) \<longleftrightarrow> (if k' = k then v' = v else (k', v') \<in> set al)"
  by (induction al) (auto split: if_splits intro: rev_image_eqI)

lemma in_alist_delete: "(k', v') \<in> set (AList.delete k al) \<longleftrightarrow> k' \<noteq> k \<and> (k', v') \<in> set al"
  by (auto simp: AList.delete_eq)

end
