(* ===== verification/GoText.thy ===== *)
theory GoText
  imports Prelude "HOL-Library.Sublist"
begin

text \<open>
  Go strings as byte sequences, and the parts of the standard packages
  \<open>unicode/utf8\<close>, \<open>unicode\<close> and \<open>strings\<close> that the source calls:
  decoding and encoding of runes, \<open>[]rune(s)\<close> and \<open>string(rs)\<close>,
  \<open>utf8.RuneCountInString\<close>, \<open>utf8.ValidString\<close>,
  \<open>strings.TrimSpace\<close>, \<open>strings.ToUpper\<close>/\<open>ToLower\<close>,
  \<open>strings.HasPrefix\<close>/\<open>TrimPrefix\<close>.  An Isabelle \<open>char\<close> is a byte.
\<close>

section \<open>UTF-8\<close>

abbreviation byte :: "char \<Rightarrow> nat" where
  "byte c \<equiv> of_char c"

abbreviation RuneError :: nat where
  "RuneError \<equiv> 0xFFFD"

definition is_cont :: "char \<Rightarrow> bool" where
  "is_cont c \<longleftrightarrow> 0x80 \<le> byte c \<and> byte c \<le> 0xBF"

definition valid_rune :: "nat \<Rightarrow> bool" where
  "valid_rune r \<longleftrightarrow> r < 0xD800 \<or> 0xE000 \<le> r \<and> r \<le> 0x10FFFF"

text \<open>The second byte of a sequence is restricted after some first bytes.\<close>

definition accept2 :: "nat \<Rightarrow> nat \<Rightarrow> bool" where
  "accept2 b0 b1 \<longleftrightarrow>
     (if b0 = 0xE0 then 0xA0 else if b0 = 0xF0 then 0x90 else 0x80) \<le> b1 \<and>
     b1 \<le> (if b0 = 0xED then 0x9F else if b0 = 0xF4 then 0x8F else 0xBF)"

text \<open>\<open>utf8.DecodeRuneInString\<close>: the first rune and its width.\<close>

fun decode_rune :: "string \<Rightarrow> nat \<times> nat" where
  "decode_rune [] = (RuneError, 0)"
| "decode_rune (c0 # cs) =
     (let b0 = byte c0 in
      if b0 < 0x80 then (b0, 1)
      else case cs of
        [] \<Rightarrow> (RuneError, 1)
      | c1 # cs1 \<Rightarrow>
        (let b1 = byte c1 in
         if 0xC2 \<le> b0 \<and> b0 \<le> 0xDF \<and> is_cont c1
         then ((b0 - 0xC0) * 0x40 + (b1 - 0x80), 2)
         else case cs1 of
           [] \<Rightarrow> (RuneError, 1)
         | c2 # cs2 \<Rightarrow>
           (let b2 = byte c2 in
            if 0xE0 \<le> b0 \<and> b0 \<le> 0xEF \<and> accept2 b0 b1 \<and> is_cont c2
            then ((b0 - 0xE0) * 0x1000 + (b1 - 0x80) * 0x40 + (b2 - 0x80), 3)
            else case cs2 of
              [] \<Rightarrow> (RuneError, 1)
            | c3 # _ \<Rightarrow>
              (let b3 = byte c3 in
               if 0xF0 \<le> b0 \<and> b0 \<le> 0xF4 \<and> accept2 b0 b1 \<and> is_cont c2 \<and> is_cont c3
               then ((b0 - 0xF0) * 0x40000 + (b1 - 0x80) * 0x1000 + (b2 - 0x80) * 0x40 + (b3 - 0x80), 4)
               else (RuneError, 1)))))"

text \<open>\<open>utf8.AppendRune\<close>: an invalid rune is written as \<open>RuneError\<close>.\<close>

definition encode_rune :: "nat \<Rightarrow> string" where
  "encode_rune r0 =
     (let r = (if valid_rune r0 then r0 else RuneError) in
      if r < 0x80 then [char_of r]
      else if r < 0x800 then [char_of (0xC0 + r div 0x40), char_of (0x80 + r mod 0x40)]
      else if r < 0x10000 then
        [char_of (0xE0 + r div 0x1000), char_of (0x80 + r div 0x40 mod 0x40), char_of (0x80 + r mod 0x40)]
      else
        [char_of (0xF0 + r div 0x40000), char_of (0x80 + r div 0x1000 mod 0x40),
         char_of (0x80 + r div 0x40 mod 0x40), char_of (0x80 + r mod 0x40)])"

text \<open>The bad case of a decoding step: an invalid byte, skipped alone.\<close>

abbreviation bad_rune :: "nat \<times> nat \<Rightarrow> bool" where
  "bad_rune p \<equiv> p = (RuneError, 1)"

lemma decode_rune_width:
  "s \<noteq> [] \<Longrightarrow> 0 < snd (decode_rune s) \<and> snd (decode_rune s) \<le> length s"
  by (cases s) (auto simp: Let_def split: list.splits)

text \<open>\<open>[]rune(s)\<close>.\<close>

function runes :: "string \<Rightarrow> nat list" where
  "runes s = (if s = [] then [] else fst (decode_rune s) # runes (drop (snd (decode_rune s)) s))"
  by pat_completeness auto
termination
  by (relation "measure length") (auto dest: decode_rune_width)

declare runes.simps [simp del]

text \<open>\<open>utf8.ValidString\<close>.\<close>

function valid_utf8 :: "string \<Rightarrow> bool" where
  "valid_utf8 s =
     (if s = [] then True
      else \<not> bad_rune (decode_rune s) \<and> valid_utf8 (drop (snd (decode_rune s)) s))"
  by pat_completeness auto
termination
  by (relation "measure length") (auto dest: decode_rune_width)

declare valid_utf8.simps [simp del]

text \<open>The same two loops by the shape of the string, for evaluation.\<close>

lemma runes_code [code]:
  "runes [] = []"
  "runes (c # s) = fst (decode_rune (c # s)) # runes (drop (snd (decode_rune (c # s))) (c # s))"
  by (subst runes.simps, simp del: decode_rune.simps)+

lemma byte_ascii: "byte c < 0x80 \<longleftrightarrow> \<not> digit7 c"
  by (cases c) simp

lemma valid_utf8_code [code]:
  "valid_utf8 [] = True"
  "valid_utf8 (c # s) = (if digit7 c
     then \<not> bad_rune (decode_rune (c # s)) \<and> valid_utf8 (drop (snd (decode_rune (c # s))) (c # s)) else valid_utf8 s)"
proof -
  show "valid_utf8 [] = True" by (subst valid_utf8.simps) simp
  have "decode_rune (c # s) = (byte c, 1)" "byte c \<noteq> RuneError" if "\<not> digit7 c"
    using that byte_ascii [of c] by simp_all
  then show "valid_utf8 (c # s) = (if digit7 c
     then \<not> bad_rune (decode_rune (c # s)) \<and> valid_utf8 (drop (snd (decode_rune (c # s))) (c # s)) else valid_utf8 s)"
    by (subst valid_utf8.simps) (simp del: decode_rune.simps)
qed

text \<open>\<open>string(rs)\<close> for a slice of runes, and \<open>utf8.RuneCountInString\<close>.\<close>

definition string_of_runes :: "nat list \<Rightarrow> string" where
  "string_of_runes rs = concat (map encode_rune rs)"

definition RuneCountInString :: "string \<Rightarrow> nat" where
  "RuneCountInString s = length (runes s)"

subsection \<open>Decoding and encoding are inverse\<close>

lemma byte_less [simp]: "byte c < 256"
proof -
  have "byte c = byte c mod 256" by (metis of_char_mod_256)
  then show ?thesis by (metis mod_less_divisor zero_less_numeral)
qed

text \<open>One equation per width, with the arithmetic left to the caller.\<close>

lemma decode1: "byte c0 < 0x80 \<Longrightarrow> decode_rune (c0 # s) = (byte c0, 1)"
  by simp

lemma decode2:
  "0xC2 \<le> byte c0 \<Longrightarrow> byte c0 \<le> 0xDF \<Longrightarrow> is_cont c1 \<Longrightarrow>
   decode_rune (c0 # c1 # s) = ((byte c0 - 0xC0) * 0x40 + (byte c1 - 0x80), 2)"
  by (simp add: Let_def)

lemma decode3:
  "0xE0 \<le> byte c0 \<Longrightarrow> byte c0 \<le> 0xEF \<Longrightarrow> accept2 (byte c0) (byte c1) \<Longrightarrow> is_cont c2 \<Longrightarrow>
   decode_rune (c0 # c1 # c2 # s) =
     ((byte c0 - 0xE0) * 0x1000 + (byte c1 - 0x80) * 0x40 + (byte c2 - 0x80), 3)"
  by (simp add: Let_def)

lemma decode4:
  "0xF0 \<le> byte c0 \<Longrightarrow> byte c0 \<le> 0xF4 \<Longrightarrow> accept2 (byte c0) (byte c1) \<Longrightarrow> is_cont c2 \<Longrightarrow>
   is_cont c3 \<Longrightarrow> decode_rune (c0 # c1 # c2 # c3 # s) =
     ((byte c0 - 0xF0) * 0x40000 + (byte c1 - 0x80) * 0x1000 + (byte c2 - 0x80) * 0x40 + (byte c3 - 0x80), 4)"
  by (simp add: Let_def)

lemma decode_cases:
  assumes "s \<noteq> []" "\<not> bad_rune (decode_rune s)"
  obtains c0 t where "s = c0 # t" "byte c0 < 0x80"
  | c0 c1 t where "s = c0 # c1 # t" "0xC2 \<le> byte c0" "byte c0 \<le> 0xDF" "is_cont c1"
  | c0 c1 c2 t where "s = c0 # c1 # c2 # t" "0xE0 \<le> byte c0" "byte c0 \<le> 0xEF"
      "accept2 (byte c0) (byte c1)" "is_cont c2"
  | c0 c1 c2 c3 t where "s = c0 # c1 # c2 # c3 # t" "0xF0 \<le> byte c0" "byte c0 \<le> 0xF4"
      "accept2 (byte c0) (byte c1)" "is_cont c2" "is_cont c3"
  using assms by (cases s) (auto simp: Let_def split: list.splits if_splits)

lemma two_digits:
  assumes "(r::nat) = a * 0x40 + b" "b < 0x40"
  shows "r div 0x40 = a" "r mod 0x40 = b"
  using assms by auto

lemma three_digits:
  assumes "(r::nat) = a * 0x1000 + b * 0x40 + c" "b < 0x40" "c < 0x40"
  shows "r div 0x1000 = a" "r div 0x40 mod 0x40 = b" "r mod 0x40 = c"
proof -
  have r: "r = (a * 0x40 + b) * 0x40 + c" using assms(1) by simp
  note d = two_digits [OF r assms(3)]
  show "r mod 0x40 = c" by (rule d)
  show "r div 0x40 mod 0x40 = b" using d(1) assms(2) by simp
  have "r div 0x1000 = r div 0x40 div 0x40" by (simp add: div_mult2_eq [symmetric])
  then show "r div 0x1000 = a" using d(1) assms(2) by simp
qed

lemma four_digits:
  assumes "(r::nat) = a * 0x40000 + b * 0x1000 + c * 0x40 + d" "b < 0x40" "c < 0x40" "d < 0x40"
  shows "r div 0x40000 = a" "r div 0x1000 mod 0x40 = b" "r div 0x40 mod 0x40 = c" "r mod 0x40 = d"
proof -
  have r: "r = (a * 0x40 + b) * 0x1000 + c * 0x40 + d" using assms(1) by simp
  note x = three_digits [OF r assms(3,4)]
  show "r div 0x40 mod 0x40 = c" "r mod 0x40 = d" by (rule x)+
  show "r div 0x1000 mod 0x40 = b" using x(1) assms(2) by simp
  have "r div 0x40000 = r div 0x1000 div 0x40" by (simp add: div_mult2_eq [symmetric])
  then show "r div 0x40000 = a" using x(1) assms(2) by simp
qed

lemma digits_exist:
  obtains a b c d where "(r::nat) = a * 0x40000 + b * 0x1000 + c * 0x40 + d" "b < 0x40" "c < 0x40" "d < 0x40"
proof
  have "r = r div 0x40 * 0x40 + r mod 0x40" by simp
  moreover have "r div 0x40 = r div 0x40 div 0x40 * 0x40 + r div 0x40 mod 0x40" by simp
  moreover have "r div 0x40 div 0x40 = r div 0x40 div 0x40 div 0x40 * 0x40 + r div 0x40 div 0x40 mod 0x40" by simp
  ultimately show "r = (r div 0x40 div 0x40 div 0x40) * 0x40000 + (r div 0x40 div 0x40 mod 0x40) * 0x1000
     + (r div 0x40 mod 0x40) * 0x40 + r mod 0x40" by linarith
qed auto

lemma encode_decode2:
  assumes "0xC2 \<le> byte c0" "byte c0 \<le> 0xDF" "is_cont c1"
  shows "encode_rune (fst (decode_rune (c0 # c1 # t))) = [c0, c1]"
proof -
  define a b where "a = byte c0 - 0xC0" and "b = byte c1 - 0x80"
  with assms have ab: "byte c0 = 0xC0 + a" "byte c1 = 0x80 + b" and b: "b < 0x40"
    and a: "2 \<le> a" "a < 0x20"
    by (auto simp: is_cont_def)
  define r where "r = a * 0x40 + b"
  have "decode_rune (c0 # c1 # t) = (r, 2)"
    using assms by (simp add: decode2 ab r_def del: decode_rune.simps)
  moreover have "0x80 \<le> r" "r < 0x800" using a b by (auto simp: r_def)
  moreover have "r div 0x40 = a" "r mod 0x40 = b" using two_digits [OF r_def b] by auto
  ultimately show ?thesis
    by (simp add: encode_rune_def valid_rune_def Let_def ab [symmetric] del: decode_rune.simps)
qed

lemma encode_decode3:
  assumes "0xE0 \<le> byte c0" "byte c0 \<le> 0xEF" "accept2 (byte c0) (byte c1)" "is_cont c2"
  shows "encode_rune (fst (decode_rune (c0 # c1 # c2 # t))) = [c0, c1, c2]"
proof -
  define a b c where "a = byte c0 - 0xE0" and "b = byte c1 - 0x80" and "c = byte c2 - 0x80"
  with assms have ab: "byte c0 = 0xE0 + a" "byte c1 = 0x80 + b" "byte c2 = 0x80 + c"
    and bc: "b < 0x40" "c < 0x40" and a: "a < 0x10"
    by (auto simp: is_cont_def accept2_def split: if_splits)
  define r where "r = a * 0x1000 + b * 0x40 + c"
  have "decode_rune (c0 # c1 # c2 # t) = (r, 3)"
    using assms by (simp add: decode3 ab r_def del: decode_rune.simps)
  moreover have "0x800 \<le> r" "r < 0x10000" "valid_rune r"
    using a ab bc assms by (auto simp: r_def accept2_def valid_rune_def split: if_splits)
  moreover note three_digits [OF r_def bc]
  ultimately show ?thesis
    by (simp add: encode_rune_def Let_def ab [symmetric] del: decode_rune.simps)
qed

lemma encode_decode4:
  assumes "0xF0 \<le> byte c0" "byte c0 \<le> 0xF4" "accept2 (byte c0) (byte c1)" "is_cont c2" "is_cont c3"
  shows "encode_rune (fst (decode_rune (c0 # c1 # c2 # c3 # t))) = [c0, c1, c2, c3]"
proof -
  define a b c e where "a = byte c0 - 0xF0" and "b = byte c1 - 0x80" and "c = byte c2 - 0x80"
    and "e = byte c3 - 0x80"
  with assms have ab: "byte c0 = 0xF0 + a" "byte c1 = 0x80 + b" "byte c2 = 0x80 + c" "byte c3 = 0x80 + e"
    and bc: "b < 0x40" "c < 0x40" "e < 0x40" and a: "a < 5"
    by (auto simp: is_cont_def accept2_def split: if_splits)
  define r where "r = a * 0x40000 + b * 0x1000 + c * 0x40 + e"
  have "decode_rune (c0 # c1 # c2 # c3 # t) = (r, 4)"
    using assms by (simp add: decode4 ab r_def del: decode_rune.simps)
  moreover have "0x10000 \<le> r" "valid_rune r"
    using a ab bc assms by (auto simp: r_def accept2_def valid_rune_def split: if_splits)
  moreover note four_digits [OF r_def bc]
  ultimately show ?thesis
    by (simp add: encode_rune_def Let_def ab [symmetric] del: decode_rune.simps)
qed

text \<open>Encoding undoes a valid decoding step.\<close>

lemma encode_decode:
  assumes "\<not> bad_rune (decode_rune s)" "s \<noteq> []"
  shows "encode_rune (fst (decode_rune s)) = take (snd (decode_rune s)) s"
  using assms(2,1)
proof (cases rule: decode_cases)
  case (1 c0 t)
  then show ?thesis by (simp add: encode_rune_def valid_rune_def)
next
  case (2 c0 c1 t)
  then show ?thesis using encode_decode2 [of c0 c1 t] by (simp add: decode2 del: decode_rune.simps)
next
  case (3 c0 c1 c2 t)
  then show ?thesis using encode_decode3 [of c0 c1 c2 t] by (simp add: decode3 del: decode_rune.simps)
next
  case (4 c0 c1 c2 c3 t)
  then show ?thesis using encode_decode4 [of c0 c1 c2 c3 t] by (simp add: decode4 del: decode_rune.simps)
qed

lemma decode_encode3:
  assumes "valid_rune r" "0x800 \<le> r" "r < 0x10000"
  shows "decode_rune (encode_rune r @ s) = (r, length (encode_rune r))"
proof -
  obtain z a b c where "r = z * 0x40000 + a * 0x1000 + b * 0x40 + c" "a < 0x40" "b < 0x40" "c < 0x40"
    by (rule digits_exist)
  moreover from this assms(3) have "z = 0" by simp
  ultimately have r: "r = a * 0x1000 + b * 0x40 + c" "b < 0x40" "c < 0x40" by auto
  have a: "a < 0x10" using r assms by linarith
  have acc: "accept2 (0xE0 + a) (0x80 + b)"
    using assms r unfolding accept2_def valid_rune_def by auto
  have e: "encode_rune r = [char_of (0xE0 + a), char_of (0x80 + b), char_of (0x80 + c)]"
    using assms three_digits [OF r] by (simp add: encode_rune_def Let_def)
  show ?thesis unfolding e using a r acc
    by (simp add: decode3 is_cont_def del: decode_rune.simps)
qed

lemma decode_encode4:
  assumes "0x10000 \<le> r" "r \<le> 0x10FFFF"
  shows "decode_rune (encode_rune r @ s) = (r, length (encode_rune r))"
proof -
  obtain a b c d where r: "r = a * 0x40000 + b * 0x1000 + c * 0x40 + d" "b < 0x40" "c < 0x40" "d < 0x40"
    by (rule digits_exist)
  have a: "a \<le> 4" using r assms by linarith
  have acc: "accept2 (0xF0 + a) (0x80 + b)"
    using assms r unfolding accept2_def by auto
  have e: "encode_rune r = [char_of (0xF0 + a), char_of (0x80 + b), char_of (0x80 + c), char_of (0x80 + d)]"
    using assms four_digits [OF r] by (simp add: encode_rune_def valid_rune_def Let_def)
  show ?thesis unfolding e using a r acc
    by (simp add: decode4 is_cont_def del: decode_rune.simps)
qed

lemma decode_encode2:
  assumes "0x80 \<le> r" "r < 0x800"
  shows "decode_rune (encode_rune r @ s) = (r, length (encode_rune r))"
proof -
  define a b where "a = r div 0x40" and "b = r mod 0x40"
  then have r: "r = a * 0x40 + b" "b < 0x40" by auto
  have e: "encode_rune r = [char_of (0xC0 + a), char_of (0x80 + b)]"
    using assms by (simp add: encode_rune_def valid_rune_def Let_def a_def b_def)
  have "2 \<le> a" "a < 0x20" using r assms by linarith+
  then show ?thesis unfolding e using r by (simp add: decode2 is_cont_def del: decode_rune.simps)
qed
lemma decode_encode:
  assumes "valid_rune r"
  shows "decode_rune (encode_rune r @ s) = (r, length (encode_rune r))"
proof -
  consider "r < 0x80" | "0x80 \<le> r" "r < 0x800" | "0x800 \<le> r" "r < 0x10000"
    | "0x10000 \<le> r" "r \<le> 0x10FFFF"
    using assms unfolding valid_rune_def by linarith
  then show ?thesis
  proof cases
    case 1
    with assms show ?thesis by (simp add: encode_rune_def Let_def)
  qed (use assms in \<open>simp_all add: decode_encode2 decode_encode3 decode_encode4\<close>)
qed

lemma decode_rune_valid:
  assumes "s \<noteq> []"
  shows "valid_rune (fst (decode_rune s))"
proof (cases "bad_rune (decode_rune s)")
  case True
  then show ?thesis by (simp add: valid_rune_def del: decode_rune.simps)
next
  case False
  with assms show ?thesis
  proof (cases rule: decode_cases)
    case (3 c0 c1 c2 t)
    then show ?thesis
      by (auto simp: decode3 valid_rune_def accept2_def is_cont_def split: if_splits
          simp del: decode_rune.simps)
  next
    case (4 c0 c1 c2 c3 t)
    then show ?thesis
      by (auto simp: decode4 valid_rune_def accept2_def is_cont_def split: if_splits
          simp del: decode_rune.simps)
  qed (auto simp: valid_rune_def decode2 is_cont_def)
qed

lemma encode_nonempty [simp]: "encode_rune r \<noteq> []"
  by (simp add: encode_rune_def Let_def)

subsection \<open>Strings and runes\<close>

lemma runes_Nil [simp]: "runes [] = []"
  by (simp add: runes.simps)

lemma runes_eq_Nil [simp]: "runes s = [] \<longleftrightarrow> s = []"
  by (subst runes.simps) simp

lemma runes_encode: "valid_rune r \<Longrightarrow> runes (encode_rune r @ s) = r # runes s"
  by (subst runes.simps) (simp add: decode_encode)

lemma string_of_runes_simps [simp]:
  "string_of_runes [] = []"
  "string_of_runes (r # rs) = encode_rune r @ string_of_runes rs"
  by (simp_all add: string_of_runes_def)

lemma string_of_runes_append: "string_of_runes (xs @ ys) = string_of_runes xs @ string_of_runes ys"
  by (simp add: string_of_runes_def)

lemma string_of_runes_eq_Nil [simp]: "string_of_runes rs = [] \<longleftrightarrow> rs = []"
  by (cases rs) auto

lemma runes_valid: "list_all valid_rune (runes s)"
proof (induction s rule: runes.induct)
  case (1 s)
  then show ?case
    by (cases "s = []") (simp_all add: runes.simps [of s] decode_rune_valid del: decode_rune.simps)
qed

lemma list_all_take: "list_all P xs \<Longrightarrow> list_all P (take n xs)"
  by (auto simp: list_all_iff dest: in_set_takeD)

lemma runes_string_of_runes: "list_all valid_rune rs \<Longrightarrow> runes (string_of_runes rs) = rs"
  by (induction rs) (simp_all add: runes_encode)

lemma string_of_runes_runes: "valid_utf8 s \<Longrightarrow> string_of_runes (runes s) = s"
proof (induction s rule: runes.induct)
  case (1 s)
  show ?case
  proof (cases "s = []")
    case False
    with "1.prems" have v: "\<not> bad_rune (decode_rune s)" "valid_utf8 (drop (snd (decode_rune s)) s)"
      by (auto simp: valid_utf8.simps [of s])
    with False "1.IH" have "string_of_runes (runes (drop (snd (decode_rune s)) s)) = drop (snd (decode_rune s)) s"
      by blast
    with False v show ?thesis by (simp add: runes.simps [of s] encode_decode del: decode_rune.simps)
  qed simp
qed

lemma valid_utf8_Nil [simp]: "valid_utf8 []"
  by (simp add: valid_utf8.simps)

lemma encode_rune_not_bad: "\<not> bad_rune (decode_rune (encode_rune r @ s))"
proof -
  have e: "encode_rune r = encode_rune (if valid_rune r then r else RuneError)"
    by (simp add: encode_rune_def valid_rune_def)
  have "valid_rune (if valid_rune r then r else RuneError)" by (simp add: valid_rune_def)
  from decode_encode [OF this, of s] show ?thesis
    unfolding e by (auto simp: encode_rune_def valid_rune_def)
qed

lemma decode_encode_width: "snd (decode_rune (encode_rune r @ s)) = length (encode_rune r)"
proof -
  have e: "encode_rune r = encode_rune (if valid_rune r then r else RuneError)"
    by (simp add: encode_rune_def valid_rune_def)
  have "valid_rune (if valid_rune r then r else RuneError)" by (simp add: valid_rune_def)
  from decode_encode [OF this, of s] show ?thesis unfolding e by simp
qed

lemma valid_utf8_encode: "valid_utf8 (encode_rune r @ s) = valid_utf8 s"
  using encode_rune_not_bad [of r s] by (subst valid_utf8.simps) (simp add: decode_encode_width)

lemma valid_utf8_string_of_runes: "valid_utf8 (string_of_runes rs)"
  by (induction rs) (simp_all add: valid_utf8_encode)

lemma RuneCount_string_of_runes:
  "list_all valid_rune rs \<Longrightarrow> RuneCountInString (string_of_runes rs) = length rs"
  by (simp add: RuneCountInString_def runes_string_of_runes)

section \<open>White space\<close>

text \<open>\<open>unicode.IsSpace\<close>.\<close>

definition IsSpace :: "nat \<Rightarrow> bool" where
  "IsSpace r \<longleftrightarrow>
     0x9 \<le> r \<and> r \<le> 0xD \<or> r = 0x20 \<or> r = 0x85 \<or> r = 0xA0 \<or> r = 0x1680 \<or>
     0x2000 \<le> r \<and> r \<le> 0x200A \<or> r = 0x2028 \<or> r = 0x2029 \<or> r = 0x202F \<or> r = 0x205F \<or> r = 0x3000"

lemma IsSpace_code [code]:
  "IsSpace r \<longleftrightarrow>
     (if r < 0x80 then 0x9 \<le> r \<and> r \<le> 0xD \<or> r = 0x20
      else r = 0x85 \<or> r = 0xA0 \<or> r = 0x1680 \<or>
        0x2000 \<le> r \<and> r \<le> 0x200A \<or> r = 0x2028 \<or> r = 0x2029 \<or> r = 0x202F \<or> r = 0x205F \<or> r = 0x3000)"
  by (auto simp: IsSpace_def)

text \<open>
  \<open>utf8.DecodeLastRuneInString\<close>: step back over at most three continuation
  bytes to the first byte of a sequence, decode there, and accept only a rune
  that ends where the string ends.
\<close>

definition decode_last_rune :: "string \<Rightarrow> nat \<times> nat" where
  "decode_last_rune s =
     (case rev s of
        [] \<Rightarrow> (RuneError, 0)
      | c # cs \<Rightarrow>
        if byte c < 0x80 then (byte c, 1)
        else (let m = length (takeWhile is_cont (take 3 cs)) + 2;
                  p = decode_rune (drop (length s - m) s)
              in if snd p = m then p else (RuneError, 1)))"

lemma decode_last_rune_width:
  "s \<noteq> [] \<Longrightarrow> 0 < snd (decode_last_rune s)"
  by (auto simp: decode_last_rune_def Let_def split: list.splits)

text \<open>\<open>strings.TrimLeftFunc\<close> and \<open>TrimRightFunc\<close> at \<open>unicode.IsSpace\<close>.\<close>

function trim_left :: "string \<Rightarrow> string" where
  "trim_left s =
     (if s \<noteq> [] \<and> IsSpace (fst (decode_rune s)) then trim_left (drop (snd (decode_rune s)) s) else s)"
  by pat_completeness auto
termination
  by (relation "measure length") (auto dest: decode_rune_width simp del: decode_rune.simps)

function trim_right :: "string \<Rightarrow> string" where
  "trim_right s =
     (if s \<noteq> [] \<and> IsSpace (fst (decode_last_rune s))
      then trim_right (take (length s - snd (decode_last_rune s)) s) else s)"
  by pat_completeness auto
termination
  by (relation "measure length") (auto intro!: diff_less dest: decode_last_rune_width)

declare trim_left.simps [simp del] trim_right.simps [simp del]

definition TrimSpace :: "string \<Rightarrow> string" where
  "TrimSpace s = trim_right (trim_left s)"

lemma not_space_RuneError [simp]: "\<not> IsSpace RuneError"
  by (simp add: IsSpace_def)

lemma trim_left_Nil [simp]: "trim_left [] = []"
  by (simp add: trim_left.simps)

lemma trim_right_Nil [simp]: "trim_right [] = []"
  by (simp add: trim_right.simps)

lemma trim_left_suffix: "suffix (trim_left s) s"
proof (induction s rule: trim_left.induct)
  case (1 s)
  then show ?case
    by (subst trim_left.simps) (auto intro: suffix_order.trans [OF _ suffix_drop] simp del: decode_rune.simps)
qed

lemma trim_right_prefix: "prefix (trim_right s) s"
proof (induction s rule: trim_right.induct)
  case (1 s)
  then show ?case
    by (subst trim_right.simps) (auto intro: prefix_order.trans [OF _ take_is_prefix])
qed

lemma trim_left_stop: "trim_left s = [] \<or> \<not> IsSpace (fst (decode_rune (trim_left s)))"
proof (induction s rule: trim_left.induct)
  case (1 s)
  then show ?case
    by (cases "s \<noteq> [] \<and> IsSpace (fst (decode_rune s))") (auto simp: trim_left.simps [of s] simp del: decode_rune.simps)
qed

lemma trim_right_stop: "trim_right s = [] \<or> \<not> IsSpace (fst (decode_last_rune (trim_right s)))"
proof (induction s rule: trim_right.induct)
  case (1 s)
  then show ?case
    by (cases "s \<noteq> [] \<and> IsSpace (fst (decode_last_rune s))") (auto simp: trim_right.simps [of s])
qed

text \<open>A rune decoded without error does not depend on what follows it.\<close>

lemma decode_rune_append:
  "p \<noteq> [] \<Longrightarrow> \<not> bad_rune (decode_rune p) \<Longrightarrow> decode_rune (p @ q) = decode_rune p"
  by (erule (1) decode_cases) (simp_all add: decode2 decode3 decode4 del: decode_rune.simps, simp)

lemma space_prefix:
  assumes "prefix p s" "p \<noteq> []" "IsSpace (fst (decode_rune p))"
  shows "IsSpace (fst (decode_rune s))"
proof -
  from assms(1) obtain q where "s = p @ q" by (auto simp: prefix_def)
  moreover have "\<not> bad_rune (decode_rune p)" using assms(3) by (auto simp del: decode_rune.simps)
  ultimately show ?thesis using assms by (simp add: decode_rune_append del: decode_rune.simps)
qed

lemma TrimSpace_idem: "TrimSpace (TrimSpace s) = TrimSpace s"
proof -
  let ?t = "trim_right (trim_left s)"
  have "prefix ?t (trim_left s)" by (rule trim_right_prefix)
  then have "?t = [] \<or> \<not> IsSpace (fst (decode_rune ?t))"
    using trim_left_stop [of s] space_prefix [of ?t "trim_left s"] by (auto simp del: decode_rune.simps)
  then have "trim_left ?t = ?t" by (subst trim_left.simps) auto
  moreover have "trim_right ?t = ?t"
    using trim_right_stop [of "trim_left s"] by (subst (1) trim_right.simps) auto
  ultimately show ?thesis by (simp add: TrimSpace_def)
qed

lemma TrimSpace_sublist: "sublist (TrimSpace s) s"
  unfolding TrimSpace_def
  by (rule sublist_order.order_trans [OF prefix_imp_sublist [OF trim_right_prefix] suffix_imp_sublist [OF trim_left_suffix]])

lemma TrimSpace_length: "length (TrimSpace s) \<le> length s"
  by (rule sublist_length_le [OF TrimSpace_sublist])

lemma trim_left_ascii_stop: "\<not> IsSpace (byte c) \<Longrightarrow> byte c < 0x80 \<Longrightarrow> trim_left (c # s) = c # s"
  by (subst trim_left.simps) simp

section \<open>ASCII, letter case, prefixes\<close>

definition ascii :: "string \<Rightarrow> bool" where
  "ascii s \<longleftrightarrow> list_all (\<lambda>c. byte c < 0x80) s"

lemma ascii_simps [simp]: "ascii []" "ascii (c # s) \<longleftrightarrow> byte c < 0x80 \<and> ascii s"
  by (simp_all add: ascii_def)

lemma runes_ascii: "ascii s \<Longrightarrow> runes s = map byte s"
  by (induction s) (simp_all add: runes.simps)

lemma valid_utf8_ascii: "ascii s \<Longrightarrow> valid_utf8 s"
  by (induction s) (simp_all add: valid_utf8.simps)

lemma RuneCount_ascii: "ascii s \<Longrightarrow> RuneCountInString s = length s"
  by (simp add: RuneCountInString_def runes_ascii)

text \<open>
  \<open>strings.ToUpper\<close> and \<open>ToLower\<close> map every rune; on ASCII runes the
  mapping is the usual one, beyond ASCII it is the Unicode case table, a
  parameter here.
\<close>

definition upper_rune :: "(nat \<Rightarrow> nat) \<Rightarrow> nat \<Rightarrow> nat" where
  "upper_rune tab r = (if r < 0x80 then (if 0x61 \<le> r \<and> r \<le> 0x7A then r - 0x20 else r) else tab r)"

definition lower_rune :: "(nat \<Rightarrow> nat) \<Rightarrow> nat \<Rightarrow> nat" where
  "lower_rune tab r = (if r < 0x80 then (if 0x41 \<le> r \<and> r \<le> 0x5A then r + 0x20 else r) else tab r)"

definition ToUpper :: "(nat \<Rightarrow> nat) \<Rightarrow> string \<Rightarrow> string" where
  "ToUpper tab s = string_of_runes (map (upper_rune tab) (runes s))"

definition ToLower :: "(nat \<Rightarrow> nat) \<Rightarrow> string \<Rightarrow> string" where
  "ToLower tab s = string_of_runes (map (lower_rune tab) (runes s))"

definition HasPrefix :: "string \<Rightarrow> string \<Rightarrow> bool" where
  "HasPrefix s p \<longleftrightarrow> prefix p s"

definition TrimPrefix :: "string \<Rightarrow> string \<Rightarrow> string" where
  "TrimPrefix s p = (if HasPrefix s p then drop (length p) s else s)"

definition digit :: "char \<Rightarrow> bool" where
  "digit c \<longleftrightarrow> 0x30 \<le> byte c \<and> byte c \<le> 0x39"

lemma digits_ascii: "list_all digit s \<Longrightarrow> ascii s"
  by (auto simp: ascii_def digit_def list_all_iff)

lemma encode_byte: "byte c < 0x80 \<Longrightarrow> encode_rune (byte c) = [c]"
  by (simp add: encode_rune_def valid_rune_def)

lemma ToUpper_digits: "list_all digit s \<Longrightarrow> ToUpper tab s = s"
proof (induction s)
  case (Cons c s)
  then have "byte c < 0x80" "upper_rune tab (byte c) = byte c"
    by (auto simp: digit_def upper_rune_def)
  with Cons show ?case by (simp add: ToUpper_def runes.simps [of "c # s"] encode_byte)
qed (simp add: ToUpper_def)

lemma digit_not_space: "digit c \<Longrightarrow> \<not> IsSpace (byte c)"
  by (auto simp: digit_def IsSpace_def)

lemma trim_left_digits: "list_all digit s \<Longrightarrow> trim_left s = s"
  by (cases s) (auto simp: trim_left_ascii_stop digit_not_space digit_def)

lemma trim_right_digits:
  assumes "list_all digit s"
  shows "trim_right s = s"
proof (cases s rule: rev_cases)
  case (snoc t c)
  with assms have "digit c" by simp
  then have "byte c < 0x80" by (simp add: digit_def)
  then have "decode_last_rune s = (byte c, 1)" using snoc by (simp add: decode_last_rune_def)
  with \<open>digit c\<close> show ?thesis by (subst trim_right.simps) (simp add: digit_not_space)
qed simp

lemma TrimSpace_digits: "list_all digit s \<Longrightarrow> TrimSpace s = s"
  by (simp add: TrimSpace_def trim_left_digits trim_right_digits)

end
