(* ===== verification/Httpx.thy ===== *)
theory Httpx
  imports GoText
begin

text \<open>
  \<open>internal/httpx\<close>: the typed API error, the shared error values, and how an
  error becomes a response.  \<open>go_error\<close> collects the error values the
  packages tell apart: an \<open>*httpx.APIError\<close>, \<open>pgx.ErrNoRows\<close>, a
  \<open>*pgconn.PgError\<close> with its SQLSTATE, \<open>rooms.ErrNotFound\<close>, and every
  other \<open>error\<close> by its message.
\<close>

datatype go_error =
    APIError nat string string
  | ErrNoRows
  | PgError string
  | ErrNotFound
  | OtherError string

definition Err :: "nat \<Rightarrow> string \<Rightarrow> string \<Rightarrow> go_error" where
  "Err status code msg = APIError status code msg"

definition ErrUnauthorized :: go_error where
  "ErrUnauthorized = Err 401 ''unauthorized'' ''unauthorized''"

definition ErrForbidden :: go_error where
  "ErrForbidden = Err 403 ''forbidden'' ''forbidden''"

definition httpx_ErrNotFound :: go_error where
  "httpx_ErrNotFound = Err 404 ''not_found'' ''not found''"

definition ErrBadRequest :: go_error where
  "ErrBadRequest = Err 400 ''bad_request'' ''bad request''"

definition ErrConflict :: go_error where
  "ErrConflict = Err 409 ''conflict'' ''conflict''"

definition ErrInternal :: go_error where
  "ErrInternal = Err 500 ''internal'' ''internal error''"

lemmas http_errors = Err_def ErrUnauthorized_def ErrForbidden_def httpx_ErrNotFound_def
  ErrBadRequest_def ErrConflict_def ErrInternal_def

text \<open>
  A response: the status and, when the body is not empty, either the JSON of an
  \<open>APIError\<close> (its \<open>code\<close> and \<open>message\<close>; \<open>Status\<close> is not
  encoded) or the JSON of a value.
\<close>

datatype 'b body = ErrorBody string string | ValueBody 'b

datatype 'b response = Response (resp_status: nat) (resp_body: "'b body option")

definition JSON :: "nat \<Rightarrow> 'b \<Rightarrow> 'b response" where
  "JSON status v = Response status (Some (ValueBody v))"

definition NoContent :: "'b response" where
  "NoContent = Response 204 None"

definition error_json :: "nat \<Rightarrow> string \<Rightarrow> string \<Rightarrow> 'b response" where
  "error_json status code msg = Response status (Some (ErrorBody code msg))"

text \<open>\<open>WriteErr\<close>: an \<open>APIError\<close> keeps its status, everything else is a 500.\<close>

definition WriteErr :: "go_error \<Rightarrow> 'b response" where
  "WriteErr err =
     (case err of
        APIError status code msg \<Rightarrow> error_json status code msg
      | _ \<Rightarrow> error_json 500 ''internal'' ''internal error'')"

text \<open>
  \<open>Decode\<close>: the body of a request is given as what the JSON decoder makes of
  it, its error message or the decoded value.
\<close>

definition Decode :: "(string + 'v) \<Rightarrow> go_error + 'v" where
  "Decode body =
     (case body of Inl msg \<Rightarrow> Inl (Err 400 ''invalid_body'' msg) | Inr v \<Rightarrow> Inr v)"

text \<open>
  A handler writes one response.  The handlers of the repository call one
  operation after the other and on the first error write it and return.
\<close>

type_synonym ('w, 'b) handler = "'w \<Rightarrow> 'b response \<times> 'w"

definition respond :: "('w, go_error, 'b response) cmd \<Rightarrow> ('w, 'b) handler" where
  "respond m w = (case m w of (Inl e, w') \<Rightarrow> (WriteErr e, w') | (Inr r, w') \<Rightarrow> (r, w'))"

lemma WriteErr_status:
  "resp_status (WriteErr err) = (case err of APIError status _ _ \<Rightarrow> status | _ \<Rightarrow> 500)"
  by (simp add: WriteErr_def error_json_def split: go_error.splits)

lemma WriteErr_simps [simp]:
  "WriteErr (APIError st c m) = error_json st c m"
  "WriteErr ErrNotFound = error_json 500 ''internal'' ''internal error''"
  "WriteErr ErrNoRows = error_json 500 ''internal'' ''internal error''"
  "WriteErr (PgError c) = error_json 500 ''internal'' ''internal error''"
  "WriteErr (OtherError c) = error_json 500 ''internal'' ''internal error''"
  by (simp_all add: WriteErr_def)

lemma respond_run: "m w = (r, w') \<Longrightarrow> respond m w = (case r of Inl e \<Rightarrow> WriteErr e | Inr x \<Rightarrow> x, w')"
  by (simp add: respond_def split: sum.splits)

lemma snd_respond [simp]: "snd (respond m w) = snd (m w)"
  by (simp add: respond_def split: prod.splits sum.splits)

end
