(* ===== verification/Database.thy ===== *)
theory Database
  imports Httpx
begin

text \<open>
  The PostgreSQL schema of \<open>internal/db/migrations\<close> as a record of tables, and
  the execution of statements and transactions as the store packages use them
  through \<open>pgxpool\<close>.  A table is the list of its rows.  Each statement the
  code sends consumes one tick of a schedule, which fixes what the program does
  not control: the value of \<open>now()\<close>, the value of
  \<open>gen_random_uuid()\<close>, and whether the round trip fails (a lost connection,
  a cancelled context).  Theorems quantify over all schedules.
\<close>

section \<open>Tables\<close>

record user_row =
  u_id :: uuid
  u_display_name :: string
  u_avatar_url :: "string option"
  u_created_at :: timestamp
  u_email :: "string option"
  u_entitlements :: string
  u_deleted_at :: "timestamp option"

record room_row =
  r_id :: uuid
  r_code :: string
  r_name :: "string option"
  r_owner_id :: uuid
  r_created_at :: timestamp
  r_ended_at :: "timestamp option"
  r_dest_lat :: "float64 option"
  r_dest_lng :: "float64 option"
  r_dest_set_at :: "timestamp option"
  r_dest_set_by :: "uuid option"
  r_dest_name :: "string option"
  r_dest_notes :: "string option"

record member_row =
  rm_room_id :: uuid
  rm_user_id :: uuid
  rm_role :: string
  rm_muted :: bool
  rm_kicked :: bool
  rm_joined_at :: timestamp
  rm_left_at :: "timestamp option"

record marker_row =
  pm_room_id :: uuid
  pm_user_id :: uuid
  pm_lat :: float64
  pm_lng :: float64
  pm_label :: "string option"
  pm_updated_at :: timestamp

record stop_row =
  st_id :: uuid
  st_room_id :: uuid
  st_lat :: float64
  st_lng :: float64
  st_label :: "string option"
  st_position :: int
  st_created_by :: "uuid option"
  st_created_at :: timestamp

record message_row =
  ms_id :: uuid
  ms_room_id :: uuid
  ms_user_id :: uuid
  ms_body :: string
  ms_created_at :: timestamp

record identity_row =
  ui_id :: uuid
  ui_user_id :: uuid
  ui_provider :: string
  ui_subject :: string
  ui_email :: "string option"
  ui_created_at :: timestamp

record feedback_row =
  fb_id :: uuid
  fb_user_id :: "uuid option"
  fb_message :: string
  fb_created_at :: timestamp

record push_row =
  pt_token :: string
  pt_user_id :: uuid
  pt_platform :: string
  pt_updated_at :: timestamp

record broadcast_row =
  bc_id :: uuid
  bc_title :: string
  bc_body :: string
  bc_sent_at :: timestamp
  bc_recipients :: int
  bc_delivered :: int
  bc_failed :: int

record config_row =
  ac_key :: string
  ac_value :: string
  ac_updated_at :: timestamp

record db =
  t_users :: "user_row list"
  t_rooms :: "room_row list"
  t_room_members :: "member_row list"
  t_personal_markers :: "marker_row list"
  t_room_stops :: "stop_row list"
  t_messages :: "message_row list"
  t_user_identities :: "identity_row list"
  t_feedback :: "feedback_row list"
  t_push_tokens :: "push_row list"
  t_broadcasts :: "broadcast_row list"
  t_app_config :: "config_row list"

text \<open>The state after \<open>Migrate\<close> on a new database: the seeded configuration row only.\<close>

definition init_db :: "timestamp \<Rightarrow> db" where
  "init_db now =
     \<lparr>t_users = [], t_rooms = [], t_room_members = [], t_personal_markers = [], t_room_stops = [],
      t_messages = [], t_user_identities = [], t_feedback = [], t_push_tokens = [], t_broadcasts = [],
      t_app_config = [\<lparr>ac_key = ''min_client_version'', ac_value = ''0.0.0'', ac_updated_at = now\<rparr>]\<rparr>"

definition room_exists :: "db \<Rightarrow> uuid \<Rightarrow> bool" where
  "room_exists d r \<longleftrightarrow> r \<in> r_id ` set (t_rooms d)"

definition user_exists :: "db \<Rightarrow> uuid \<Rightarrow> bool" where
  "user_exists d u \<longleftrightarrow> u \<in> u_id ` set (t_users d)"

text \<open>Which tables the two existence checks read.\<close>

lemma user_exists_frame [simp]:
  "user_exists (d\<lparr>t_rooms := x0\<rparr>) = user_exists d"
  "user_exists (d\<lparr>t_room_members := x1\<rparr>) = user_exists d"
  "user_exists (d\<lparr>t_personal_markers := x2\<rparr>) = user_exists d"
  "user_exists (d\<lparr>t_room_stops := x3\<rparr>) = user_exists d"
  "user_exists (d\<lparr>t_messages := x4\<rparr>) = user_exists d"
  "user_exists (d\<lparr>t_user_identities := x5\<rparr>) = user_exists d"
  "user_exists (d\<lparr>t_feedback := x6\<rparr>) = user_exists d"
  "user_exists (d\<lparr>t_push_tokens := x7\<rparr>) = user_exists d"
  "user_exists (d\<lparr>t_broadcasts := x8\<rparr>) = user_exists d"
  "user_exists (d\<lparr>t_app_config := x9\<rparr>) = user_exists d"
  by (simp_all add: user_exists_def fun_eq_iff)

lemma room_exists_frame [simp]:
  "room_exists (d\<lparr>t_users := x0\<rparr>) = room_exists d"
  "room_exists (d\<lparr>t_room_members := x1\<rparr>) = room_exists d"
  "room_exists (d\<lparr>t_personal_markers := x2\<rparr>) = room_exists d"
  "room_exists (d\<lparr>t_room_stops := x3\<rparr>) = room_exists d"
  "room_exists (d\<lparr>t_messages := x4\<rparr>) = room_exists d"
  "room_exists (d\<lparr>t_user_identities := x5\<rparr>) = room_exists d"
  "room_exists (d\<lparr>t_feedback := x6\<rparr>) = room_exists d"
  "room_exists (d\<lparr>t_push_tokens := x7\<rparr>) = room_exists d"
  "room_exists (d\<lparr>t_broadcasts := x8\<rparr>) = room_exists d"
  "room_exists (d\<lparr>t_app_config := x9\<rparr>) = room_exists d"
  by (simp_all add: room_exists_def fun_eq_iff)

text \<open>
  A \<open>TEXT\<close> value of a UTF8 database is valid UTF-8 without the zero byte; the
  server refuses other parameters (SQLSTATE 22021) before it runs the statement.
\<close>

definition pg_text :: "string \<Rightarrow> bool" where
  "pg_text s \<longleftrightarrow> valid_utf8 s \<and> CHR 0x00 \<notin> set s"

definition pg_text_opt :: "string option \<Rightarrow> bool" where
  "pg_text_opt v = (case v of None \<Rightarrow> True | Some s \<Rightarrow> pg_text s)"

abbreviation bad_text :: go_error where
  "bad_text \<equiv> PgError ''22021''"

abbreviation unique_violation :: go_error where
  "unique_violation \<equiv> PgError ''23505''"

abbreviation foreign_key_violation :: go_error where
  "foreign_key_violation \<equiv> PgError ''23503''"

abbreviation numeric_out_of_range :: go_error where
  "numeric_out_of_range \<equiv> PgError ''22003''"

abbreviation in_failed_transaction :: go_error where
  "in_failed_transaction \<equiv> PgError ''25P02''"

section \<open>Statements and transactions\<close>

record tick =
  tk_fault :: "string option"
  tk_now :: timestamp
  tk_uuid :: uuid

text \<open>
  The database as a store sees it: the tables, the schedule with the position
  of the next round trip, and whether the open transaction has failed.  The
  record is extensible, so that the same statements act on the larger states
  of the services.
\<close>

record world =
  w_db :: db
  w_sched :: "nat \<Rightarrow> tick"
  w_pos :: nat
  w_aborted :: bool

type_synonym 'a sql = "timestamp \<Rightarrow> uuid \<Rightarrow> db \<Rightarrow> go_error + 'a \<times> db"
type_synonym ('z, 'a) dbcmd = "('z world_scheme, go_error, 'a) cmd"

definition tick_of :: "'z world_scheme \<Rightarrow> tick" where
  "tick_of w = w_sched w (w_pos w)"

definition advance :: "'z world_scheme \<Rightarrow> 'z world_scheme" where
  "advance w = w\<lparr>w_pos := Suc (w_pos w)\<rparr>"

text \<open>One statement outside a transaction (\<open>pool.Exec\<close>, \<open>pool.QueryRow\<close>).\<close>

definition stmt :: "'a sql \<Rightarrow> ('z, 'a) dbcmd" where
  "stmt q w =
     (case tk_fault (tick_of w) of
        Some msg \<Rightarrow> (Inl (OtherError msg), advance w)
      | None \<Rightarrow>
        (case q (tk_now (tick_of w)) (tk_uuid (tick_of w)) (w_db w) of
           Inl e \<Rightarrow> (Inl e, advance w)
         | Inr (x, d) \<Rightarrow> (Inr x, (advance w)\<lparr>w_db := d\<rparr>)))"

text \<open>
  One statement inside a transaction: \<open>now()\<close> is the time of \<open>BEGIN\<close>, an
  error of the server fails the transaction (an empty result is no such
  error), and a failed transaction refuses everything until it is rolled back.
\<close>

definition tx_stmt :: "timestamp \<Rightarrow> 'a sql \<Rightarrow> ('z, 'a) dbcmd" where
  "tx_stmt now q w =
     (if w_aborted w then (Inl in_failed_transaction, advance w)
      else case tk_fault (tick_of w) of
        Some msg \<Rightarrow> (Inl (OtherError msg), (advance w)\<lparr>w_aborted := True\<rparr>)
      | None \<Rightarrow>
        (case q now (tk_uuid (tick_of w)) (w_db w) of
           Inl e \<Rightarrow> (Inl e, (advance w)\<lparr>w_aborted := e \<noteq> ErrNoRows\<rparr>)
         | Inr (x, d) \<Rightarrow> (Inr x, (advance w)\<lparr>w_db := d\<rparr>)))"

text \<open>
  \<open>pool.Begin\<close> \dots\ \<open>tx.Commit\<close> with the deferred \<open>tx.Rollback\<close>: the
  tables of the start come back when the body returns an error or the commit
  fails.
\<close>

definition rollback :: "db \<Rightarrow> 'z world_scheme \<Rightarrow> 'z world_scheme" where
  "rollback d w = w\<lparr>w_db := d, w_aborted := False\<rparr>"

definition tx :: "(timestamp \<Rightarrow> ('z, 'a) dbcmd) \<Rightarrow> ('z, 'a) dbcmd" where
  "tx body w =
     (case tk_fault (tick_of w) of
        Some msg \<Rightarrow> (Inl (OtherError msg), advance w)
      | None \<Rightarrow>
        (case body (tk_now (tick_of w)) ((advance w)\<lparr>w_aborted := False\<rparr>) of
           (Inl e, v) \<Rightarrow> (Inl e, rollback (w_db w) v)
         | (Inr x, v) \<Rightarrow>
           (case tk_fault (tick_of v) of
              Some msg \<Rightarrow> (Inl (OtherError msg), rollback (w_db w) (advance v))
            | None \<Rightarrow>
              if w_aborted v
              then (Inl (OtherError ''commit unexpectedly resulted in rollback''),
                    rollback (w_db w) (advance v))
              else (Inr x, advance v))))"

text \<open>Shapes of statements: a read of rows, of one row, of one row or \<open>pgx.ErrNoRows\<close>.\<close>

definition sql_select :: "(db \<Rightarrow> 'a) \<Rightarrow> 'a sql" where
  "sql_select f now uid d = Inr (f d, d)"

definition sql_row :: "(db \<Rightarrow> 'a option) \<Rightarrow> 'a sql" where
  "sql_row f now uid d = (case f d of None \<Rightarrow> Inl ErrNoRows | Some x \<Rightarrow> Inr (x, d))"

text \<open>\<open>errors.Is(err, pgx.ErrNoRows)\<close> turned into another error.\<close>

definition no_rows_as :: "go_error \<Rightarrow> go_error \<Rightarrow> go_error" where
  "no_rows_as e' e = (if e = ErrNoRows then e' else e)"

definition map_err :: "(go_error \<Rightarrow> go_error) \<Rightarrow> ('w, go_error, 'a) cmd \<Rightarrow> ('w, go_error, 'a) cmd" where
  "map_err f m = onErr m (\<lambda>e. fail (f e)) ok"

subsection \<open>What a statement can change\<close>

lemma advance_simps [simp]:
  "w_db (advance w) = w_db w" "w_sched (advance w) = w_sched w"
  "w_pos (advance w) = Suc (w_pos w)" "w_aborted (advance w) = w_aborted w"
  "world.more (advance w) = world.more w"
  by (simp_all add: advance_def)

lemma rollback_simps [simp]:
  "w_db (rollback d w) = d" "w_sched (rollback d w) = w_sched w"
  "w_aborted (rollback d w) = False" "world.more (rollback d w) = world.more w"
  by (simp_all add: rollback_def)

lemma stmt_frame [simp]:
  "w_sched (snd (stmt q w)) = w_sched w" "world.more (snd (stmt q w)) = world.more w"
  by (simp_all add: stmt_def split: option.splits sum.splits)

lemma tx_stmt_frame [simp]:
  "w_sched (snd (tx_stmt now q w)) = w_sched w" "world.more (snd (tx_stmt now q w)) = world.more w"
  by (simp_all add: tx_stmt_def split: option.splits sum.splits)

lemma stmt_InrD:
  "stmt q w = (Inr x, w') \<Longrightarrow>
     \<exists>now uid d. q now uid (w_db w) = Inr (x, d) \<and> w_db w' = d"
  by (auto simp: stmt_def split: option.splits sum.splits) blast

lemma stmt_InlD: "stmt q w = (Inl e, w') \<Longrightarrow> w_db w' = w_db w"
  by (auto simp: stmt_def split: option.splits sum.splits)

lemma stmt_calm [cmd_simps]:
  "tk_fault (tick_of w) = None \<Longrightarrow>
   stmt q w =
     (case q (tk_now (tick_of w)) (tk_uuid (tick_of w)) (w_db w) of
        Inl e \<Rightarrow> (Inl e, advance w)
      | Inr (x, d) \<Rightarrow> (Inr x, (advance w)\<lparr>w_db := d\<rparr>))"
  by (simp add: stmt_def)

lemma tx_stmt_InrD:
  "tx_stmt now q w = (Inr x, w') \<Longrightarrow>
     \<exists>uid d. q now uid (w_db w) = Inr (x, d) \<and> w_db w' = d \<and> \<not> w_aborted w \<and> \<not> w_aborted w'"
  by (auto simp: tx_stmt_def split: option.splits sum.splits if_splits)

text \<open>A transaction that reports an error has changed no table.\<close>

lemma tx_atomic: "tx body w = (Inl e, w') \<Longrightarrow> w_db w' = w_db w"
  by (auto simp: tx_def split: option.splits sum.splits prod.splits if_splits)

lemma tx_InrD:
  "tx body w = (Inr x, w') \<Longrightarrow>
     \<exists>now v. body now ((advance w)\<lparr>w_aborted := False\<rparr>) = (Inr x, v) \<and> \<not> w_aborted v \<and> w_db w' = w_db v"
  by (auto simp: tx_def split: option.splits sum.splits prod.splits if_splits) blast

text \<open>Equations between a changed and a resulting database, turned around for substitution.\<close>

lemmas flip_db =
  sym [of "t_users_update g d" for g d] sym [of "t_rooms_update g d" for g d]
  sym [of "t_room_members_update g d" for g d] sym [of "t_personal_markers_update g d" for g d]
  sym [of "t_room_stops_update g d" for g d] sym [of "t_messages_update g d" for g d]
  sym [of "t_user_identities_update g d" for g d]

subsection \<open>Runs without faults\<close>

definition calm :: "'z world_scheme \<Rightarrow> bool" where
  "calm w \<longleftrightarrow> (\<forall>i. tk_fault (w_sched w i) = None)"

lemma calm_tick: "calm w \<Longrightarrow> tk_fault (tick_of w) = None"
  by (simp add: calm_def tick_of_def)

lemma calm_frame [simp]:
  "calm (advance w) = calm w" "calm (w\<lparr>w_db := d\<rparr>) = calm w" "calm (w\<lparr>w_aborted := b\<rparr>) = calm w"
  "calm (rollback d w) = calm w" "calm (w\<lparr>w_pos := n\<rparr>) = calm w"
  by (simp_all add: calm_def)

lemma stmt_select_calm: "calm w \<Longrightarrow> stmt (sql_select f) w = (Inr (f (w_db w)), advance w)"
  by (simp add: stmt_calm calm_tick sql_select_def advance_def)

lemma stmt_row_calm:
  "calm w \<Longrightarrow> stmt (sql_row f) w = (case f (w_db w) of None \<Rightarrow> Inl ErrNoRows | Some x \<Rightarrow> Inr x, advance w)"
  by (simp add: stmt_calm calm_tick sql_row_def advance_def split: option.splits)

lemma map_err_run:
  "m w = (r, w') \<Longrightarrow> map_err f m w = (case r of Inl e \<Rightarrow> Inl (f e) | Inr x \<Rightarrow> Inr x, w')"
  by (simp add: map_err_def onErr_def fail_def ok_def split: sum.splits)

lemma map_err_InrD: "map_err f m w = (Inr x, w') \<Longrightarrow> m w = (Inr x, w')"
  by (auto simp: map_err_def onErr_def fail_def ok_def split: prod.splits sum.splits)

lemma map_err_InlD: "map_err f m w = (Inl e', w') \<Longrightarrow> \<exists>e. e' = f e \<and> m w = (Inl e, w')"
  by (auto simp: map_err_def onErr_def fail_def ok_def split: prod.splits sum.splits)

subsection \<open>Invariants of the tables\<close>

lemma keeps_stmt:
  assumes "\<And>now uid d x d'. I d \<Longrightarrow> q now uid d = Inr (x, d') \<Longrightarrow> I d'"
  shows "keeps (\<lambda>w. I (w_db w)) (stmt q)"
  by (rule keepsI) (auto simp: stmt_def assms split: option.splits sum.splits)

lemma keeps_tx:
  fixes body :: "timestamp \<Rightarrow> ('z, 'a) dbcmd"
  assumes "\<And>now w x w'. I (w_db w) \<Longrightarrow> \<not> w_aborted w \<Longrightarrow> body now w = (Inr x, w') \<Longrightarrow>
             \<not> w_aborted w' \<Longrightarrow> I (w_db w')"
  shows "keeps (\<lambda>w. I (w_db w)) (tx body)"
proof (rule keepsI)
  fix w :: "'z world_scheme"
  assume I: "I (w_db w)"
  obtain r w' where t: "tx body w = (r, w')" by force
  show "I (w_db (snd (tx body w)))"
  proof (cases r)
    case (Inl e)
    with t I show ?thesis by (simp add: tx_atomic)
  next
    case (Inr x)
    with t obtain now v where b: "body now ((advance w)\<lparr>w_aborted := False\<rparr>) = (Inr x, v)"
      "\<not> w_aborted v" "w_db w' = w_db v"
      by (auto dest!: tx_InrD)
    have "I (w_db v)" by (rule assms [OF _ _ b(1,2)]) (simp_all add: I)
    with b t show ?thesis by simp
  qed
qed

lemma keeps_select [keeps_intros]: "keeps (\<lambda>w. I (w_db w)) (stmt (sql_select f))"
  by (rule keeps_stmt) (simp add: sql_select_def)

lemma keeps_row [keeps_intros]: "keeps (\<lambda>w. I (w_db w)) (stmt (sql_row f))"
  by (rule keeps_stmt) (simp add: sql_row_def split: option.splits)

lemma keeps_map_err [keeps_intros]: "keeps I m \<Longrightarrow> keeps I (map_err f m)"
  unfolding map_err_def by (intro keeps_intros)

end
