(* ===== verification/RoomStore.thy ===== *)
theory RoomStore
  imports Database "HOL-Library.Product_Lexorder"
begin

text \<open>
  \<open>internal/rooms/types.go\<close> and \<open>internal/rooms/store.go\<close>: the room types
  and every method of \<open>rooms.Store\<close>, each the translation of its SQL
  statement on the tables.
\<close>

section \<open>Types\<close>

definition RoleOwner :: string where
  "RoleOwner = ''owner''"

definition RoleMember :: string where
  "RoleMember = ''member''"

record Room =
  RoomID :: uuid
  RoomCode :: string
  RoomName :: "string option"
  RoomOwnerID :: uuid
  RoomCreatedAt :: timestamp
  RoomEndedAt :: "timestamp option"

record Member =
  MemberUserID :: uuid
  MemberDisplayName :: string
  MemberAvatarURL :: "string option"
  MemberRole :: string
  MemberMuted :: bool
  MemberJoinedAt :: timestamp

record Destination =
  DestLat :: float64
  DestLng :: float64
  DestName :: "string option"
  DestNotes :: "string option"
  DestSetAt :: timestamp
  DestSetBy :: uuid

record PersonalMarker =
  MarkerLat :: float64
  MarkerLng :: float64
  MarkerLabel :: "string option"
  MarkerUpdatedAt :: timestamp

record Stop =
  StopID :: uuid
  StopRoomID :: uuid
  StopLat :: float64
  StopLng :: float64
  StopLabel :: "string option"
  StopPosition :: int
  StopCreatedBy :: uuid
  StopCreatedAt :: timestamp

record Message =
  MessageID :: uuid
  MessageRoomID :: uuid
  MessageUserID :: uuid
  MessageDisplayName :: string
  MessageAvatarURL :: "string option"
  MessageBody :: string
  MessageCreatedAt :: timestamp

record RoomDetail =
  DetailRoom :: Room
  DetailMembers :: "Member list"
  DetailDestination :: "Destination option"
  DetailPersonalMarker :: "PersonalMarker option"
  DetailStops :: "Stop list"
  DetailPresentUserIDs :: "uuid list"
  DetailEmergencyUserIDs :: "uuid list"

record ActiveRoom =
  ActiveID :: uuid
  ActiveCode :: string
  ActiveName :: "string option"
  ActiveRole :: string
  ActiveMemberCount :: int
  ActiveJoinedAt :: timestamp

section \<open>Rows and scans\<close>

text \<open>
  \<open>Scan\<close> of a row into a struct.  A \<open>NULL\<close> scanned into a
  \<open>time.Time\<close> is an error; into a \<open>uuid.UUID\<close> it leaves the nil UUID.
\<close>

definition scan_room :: "room_row \<Rightarrow> Room" where
  "scan_room r = \<lparr>RoomID = r_id r, RoomCode = r_code r, RoomName = r_name r, RoomOwnerID = r_owner_id r,
     RoomCreatedAt = r_created_at r, RoomEndedAt = r_ended_at r\<rparr>"

definition scan_uuid :: "uuid option \<Rightarrow> uuid" where
  "scan_uuid v = (case v of None \<Rightarrow> uuid_Nil | Some u \<Rightarrow> u)"

definition scan_destination :: "room_row \<Rightarrow> go_error + Destination" where
  "scan_destination r =
     (case (r_dest_lat r, r_dest_lng r, r_dest_set_at r) of
        (Some lat, Some lng, Some setAt) \<Rightarrow>
          Inr \<lparr>DestLat = lat, DestLng = lng, DestName = r_dest_name r, DestNotes = r_dest_notes r,
               DestSetAt = setAt, DestSetBy = scan_uuid (r_dest_set_by r)\<rparr>
      | _ \<Rightarrow> Inl (OtherError ''cannot scan NULL''))"

definition scan_member :: "member_row \<Rightarrow> user_row \<Rightarrow> Member" where
  "scan_member m u = \<lparr>MemberUserID = rm_user_id m, MemberDisplayName = u_display_name u,
     MemberAvatarURL = u_avatar_url u, MemberRole = rm_role m, MemberMuted = rm_muted m,
     MemberJoinedAt = rm_joined_at m\<rparr>"

definition scan_marker :: "marker_row \<Rightarrow> PersonalMarker" where
  "scan_marker p = \<lparr>MarkerLat = pm_lat p, MarkerLng = pm_lng p, MarkerLabel = pm_label p,
     MarkerUpdatedAt = pm_updated_at p\<rparr>"

definition scan_stop :: "stop_row \<Rightarrow> Stop" where
  "scan_stop s = \<lparr>StopID = st_id s, StopRoomID = st_room_id s, StopLat = st_lat s, StopLng = st_lng s,
     StopLabel = st_label s, StopPosition = st_position s, StopCreatedBy = scan_uuid (st_created_by s),
     StopCreatedAt = st_created_at s\<rparr>"

definition scan_message :: "message_row \<Rightarrow> user_row \<Rightarrow> Message" where
  "scan_message m u = \<lparr>MessageID = ms_id m, MessageRoomID = ms_room_id m, MessageUserID = ms_user_id m,
     MessageDisplayName = u_display_name u, MessageAvatarURL = u_avatar_url u, MessageBody = ms_body m,
     MessageCreatedAt = ms_created_at m\<rparr>"

text \<open>\<open>JOIN users u ON u.id = \<dots>\<close> (inner: rows without a user drop out).\<close>

definition user_by_id :: "db \<Rightarrow> uuid \<Rightarrow> user_row option" where
  "user_by_id d u = List.find (\<lambda>r. u_id r = u) (t_users d)"

definition join_users :: "db \<Rightarrow> ('r \<Rightarrow> uuid) \<Rightarrow> ('r \<Rightarrow> user_row \<Rightarrow> 'a) \<Rightarrow> 'r list \<Rightarrow> 'a list" where
  "join_users d k f rs = List.map_filter (\<lambda>r. map_option (f r) (user_by_id d (k r))) rs"

text \<open>The conditions the statements repeat.\<close>

definition room_active :: "room_row \<Rightarrow> bool" where
  "room_active r \<longleftrightarrow> r_ended_at r = None"

definition dest_set :: "room_row \<Rightarrow> bool" where
  "dest_set r \<longleftrightarrow> r_dest_lat r \<noteq> None \<and> r_dest_lng r \<noteq> None"

definition is_membership :: "uuid \<Rightarrow> uuid \<Rightarrow> member_row \<Rightarrow> bool" where
  "is_membership roomID userID m \<longleftrightarrow> rm_room_id m = roomID \<and> rm_user_id m = userID"

definition joined :: "uuid \<Rightarrow> uuid \<Rightarrow> member_row \<Rightarrow> bool" where
  "joined roomID userID m \<longleftrightarrow> is_membership roomID userID m \<and> rm_left_at m = None"

definition active_member :: "uuid \<Rightarrow> uuid \<Rightarrow> member_row \<Rightarrow> bool" where
  "active_member roomID userID m \<longleftrightarrow> joined roomID userID m \<and> \<not> rm_kicked m"

text \<open>\<open>UPDATE\<close> on the two tables the package updates, with the rows affected.\<close>

definition update_members :: "(member_row \<Rightarrow> bool) \<Rightarrow> (timestamp \<Rightarrow> member_row \<Rightarrow> member_row) \<Rightarrow> nat sql" where
  "update_members p f now uid d =
     Inr (rows_where p (t_room_members d),
          d\<lparr>t_room_members := update_where p (f now) (t_room_members d)\<rparr>)"

definition update_rooms :: "(room_row \<Rightarrow> bool) \<Rightarrow> (timestamp \<Rightarrow> room_row \<Rightarrow> room_row) \<Rightarrow> nat sql" where
  "update_rooms p f now uid d =
     Inr (rows_where p (t_rooms d), d\<lparr>t_rooms := update_where p (f now) (t_rooms d)\<rparr>)"

text \<open>\<open>UPDATE rooms \<dots> RETURNING\<close> with the text parameters of the statement.\<close>

definition update_room_returning ::
  "string option list \<Rightarrow> (room_row \<Rightarrow> bool) \<Rightarrow> (timestamp \<Rightarrow> room_row \<Rightarrow> room_row) \<Rightarrow> room_row sql" where
  "update_room_returning texts p f now uid d =
     (if \<not> list_all pg_text_opt texts then Inl bad_text
      else case List.find p (t_rooms d) of
        None \<Rightarrow> Inl ErrNoRows
      | Some r \<Rightarrow> Inr (f now r, d\<lparr>t_rooms := update_where p (f now) (t_rooms d)\<rparr>))"

definition rows_or_not_found :: "nat \<Rightarrow> ('w, go_error, unit) cmd" where
  "rows_or_not_found n = (if n = 0 then fail ErrNotFound else ok ())"

section \<open>Rooms and memberships\<close>

definition new_room :: "uuid \<Rightarrow> string \<Rightarrow> string option \<Rightarrow> uuid \<Rightarrow> timestamp \<Rightarrow> room_row" where
  "new_room rid code name ownerID now = \<lparr>r_id = rid, r_code = code, r_name = name, r_owner_id = ownerID,
     r_created_at = now, r_ended_at = None, r_dest_lat = None, r_dest_lng = None, r_dest_set_at = None,
     r_dest_set_by = None, r_dest_name = None, r_dest_notes = None\<rparr>"

definition insert_room :: "string \<Rightarrow> string option \<Rightarrow> uuid \<Rightarrow> Room sql" where
  "insert_room code name ownerID now uid d =
     (if \<not> (pg_text code \<and> pg_text_opt name) then Inl bad_text
      else if room_exists d uid \<or> (\<exists>r \<in> set (t_rooms d). r_code r = code \<and> room_active r)
      then Inl unique_violation
      else if \<not> user_exists d ownerID then Inl foreign_key_violation
      else Inr (scan_room (new_room uid code name ownerID now),
                d\<lparr>t_rooms := t_rooms d @ [new_room uid code name ownerID now]\<rparr>))"

definition new_member :: "uuid \<Rightarrow> uuid \<Rightarrow> string \<Rightarrow> timestamp \<Rightarrow> member_row" where
  "new_member roomID userID role now = \<lparr>rm_room_id = roomID, rm_user_id = userID, rm_role = role,
     rm_muted = False, rm_kicked = False, rm_joined_at = now, rm_left_at = None\<rparr>"

definition insert_member :: "uuid \<Rightarrow> uuid \<Rightarrow> string \<Rightarrow> unit sql" where
  "insert_member roomID userID role now uid d =
     (if role \<noteq> RoleOwner \<and> role \<noteq> RoleMember then Inl (PgError ''23514'')
      else if \<exists>m \<in> set (t_room_members d). is_membership roomID userID m then Inl unique_violation
      else if \<not> (room_exists d roomID \<and> user_exists d userID) then Inl foreign_key_violation
      else Inr ((), d\<lparr>t_room_members := t_room_members d @ [new_member roomID userID role now]\<rparr>))"

definition Store_CreateRoom :: "uuid \<Rightarrow> string \<Rightarrow> string option \<Rightarrow> ('z, Room) dbcmd" where
  "Store_CreateRoom ownerID code name = tx (\<lambda>now.
     andThen (tx_stmt now (insert_room code name ownerID)) (\<lambda>r.
     andThen (tx_stmt now (insert_member (RoomID r) ownerID RoleOwner)) (\<lambda>_.
     ok r)))"

definition Store_GetByID :: "uuid \<Rightarrow> ('z, Room) dbcmd" where
  "Store_GetByID rid = map_err (no_rows_as ErrNotFound)
     (stmt (sql_row (\<lambda>d. map_option scan_room (List.find (\<lambda>r. r_id r = rid) (t_rooms d)))))"

definition Store_GetActiveByCode :: "string \<Rightarrow> ('z, Room) dbcmd" where
  "Store_GetActiveByCode code = map_err (no_rows_as ErrNotFound)
     (stmt (\<lambda>now uid d. if \<not> pg_text code then Inl bad_text
        else sql_row (\<lambda>d. map_option scan_room
               (List.find (\<lambda>r. r_code r = code \<and> room_active r) (t_rooms d))) now uid d))"

definition upsert_member :: "uuid \<Rightarrow> uuid \<Rightarrow> unit sql" where
  "upsert_member roomID userID now uid d =
     (if \<exists>m \<in> set (t_room_members d). is_membership roomID userID m
      then Inr ((), d\<lparr>t_room_members := update_where (is_membership roomID userID)
                        (\<lambda>m. m\<lparr>rm_left_at := None, rm_kicked := False\<rparr>) (t_room_members d)\<rparr>)
      else insert_member roomID userID RoleMember now uid d)"

definition Store_UpsertMember :: "uuid \<Rightarrow> uuid \<Rightarrow> ('z, unit) dbcmd" where
  "Store_UpsertMember roomID userID = stmt (upsert_member roomID userID)"

definition Store_MarkLeft :: "uuid \<Rightarrow> uuid \<Rightarrow> ('z, unit) dbcmd" where
  "Store_MarkLeft roomID userID =
     andThen (stmt (update_members (joined roomID userID) (\<lambda>now m. m\<lparr>rm_left_at := Some now\<rparr>))) (\<lambda>_. ok ())"

definition Store_SetMuted :: "uuid \<Rightarrow> uuid \<Rightarrow> bool \<Rightarrow> ('z, unit) dbcmd" where
  "Store_SetMuted roomID userID muted =
     andThen (stmt (update_members (joined roomID userID) (\<lambda>now m. m\<lparr>rm_muted := muted\<rparr>))) rows_or_not_found"

definition Store_Kick :: "uuid \<Rightarrow> uuid \<Rightarrow> ('z, unit) dbcmd" where
  "Store_Kick roomID userID =
     andThen (stmt (update_members (joined roomID userID)
                (\<lambda>now m. m\<lparr>rm_kicked := True, rm_left_at := Some now\<rparr>))) rows_or_not_found"

definition Store_EndRoom :: "uuid \<Rightarrow> ('z, unit) dbcmd" where
  "Store_EndRoom roomID =
     andThen (stmt (update_rooms (\<lambda>r. r_id r = roomID \<and> room_active r) (\<lambda>now r. r\<lparr>r_ended_at := Some now\<rparr>)))
       rows_or_not_found"

definition Store_GetMember :: "uuid \<Rightarrow> uuid \<Rightarrow> ('z, Member) dbcmd" where
  "Store_GetMember roomID userID = map_err (no_rows_as ErrNotFound)
     (stmt (sql_row (\<lambda>d. case join_users d rm_user_id scan_member
                               (filter (joined roomID userID) (t_room_members d)) of
                             [] \<Rightarrow> None | m # _ \<Rightarrow> Some m)))"

definition Store_ListMembers :: "uuid \<Rightarrow> ('z, Member list) dbcmd" where
  "Store_ListMembers roomID =
     stmt (sql_select (\<lambda>d. join_users d rm_user_id scan_member
       (sort_key rm_joined_at
         (filter (\<lambda>m. rm_room_id m = roomID \<and> rm_left_at m = None) (t_room_members d)))))"

definition Store_ActiveMembership :: "uuid \<Rightarrow> uuid \<Rightarrow> ('z, string \<times> bool) dbcmd" where
  "Store_ActiveMembership roomID userID = map_err (no_rows_as ErrNotFound)
     (stmt (sql_row (\<lambda>d. map_option (\<lambda>m. (rm_role m, rm_muted m))
        (List.find (active_member roomID userID) (t_room_members d)))))"

definition Store_UpdateName :: "uuid \<Rightarrow> string option \<Rightarrow> ('z, Room) dbcmd" where
  "Store_UpdateName roomID name =
     andThen (map_err (no_rows_as ErrNotFound)
       (stmt (update_room_returning [name] (\<lambda>r. r_id r = roomID \<and> room_active r) (\<lambda>now r. r\<lparr>r_name := name\<rparr>))))
     (\<lambda>r. ok (scan_room r))"

text \<open>
  The two role updates of \<open>TransferOwnership\<close> run in the order of the source:
  the new owner first, then the old one.
\<close>

definition set_owner :: "uuid \<Rightarrow> uuid \<Rightarrow> nat sql" where
  "set_owner roomID newOwnerID now uid d =
     (if rows_where (\<lambda>r. r_id r = roomID \<and> room_active r) (t_rooms d) \<noteq> 0 \<and> \<not> user_exists d newOwnerID
      then Inl foreign_key_violation
      else update_rooms (\<lambda>r. r_id r = roomID \<and> room_active r) (\<lambda>now r. r\<lparr>r_owner_id := newOwnerID\<rparr>) now uid d)"

definition Store_TransferOwnership :: "uuid \<Rightarrow> uuid \<Rightarrow> uuid \<Rightarrow> ('z, unit) dbcmd" where
  "Store_TransferOwnership roomID oldOwnerID newOwnerID = tx (\<lambda>now.
     andThen (tx_stmt now (sql_select (\<lambda>d. \<exists>m \<in> set (t_room_members d). active_member roomID newOwnerID m))) (\<lambda>exists.
     if \<not> exists then fail ErrNotFound
     else andThen (tx_stmt now (set_owner roomID newOwnerID)) (\<lambda>n.
     if n = 0 then fail ErrNotFound
     else andThen (tx_stmt now (update_members (is_membership roomID newOwnerID) (\<lambda>now m. m\<lparr>rm_role := RoleOwner\<rparr>))) (\<lambda>_.
     andThen (tx_stmt now (update_members (is_membership roomID oldOwnerID) (\<lambda>now m. m\<lparr>rm_role := RoleMember\<rparr>))) (\<lambda>_.
     ok ())))))"

definition active_rooms_of :: "uuid \<Rightarrow> db \<Rightarrow> ActiveRoom list" where
  "active_rooms_of userID d =
     List.map_filter (\<lambda>m. map_option
         (\<lambda>r. \<lparr>ActiveID = r_id r, ActiveCode = r_code r, ActiveName = r_name r, ActiveRole = rm_role m,
               ActiveMemberCount = 0, ActiveJoinedAt = rm_joined_at m\<rparr>)
         (List.find (\<lambda>r. r_id r = rm_room_id m \<and> room_active r) (t_rooms d)))
       (sort_key (\<lambda>m. - rm_joined_at m)
         (filter (\<lambda>m. rm_user_id m = userID \<and> rm_left_at m = None \<and> \<not> rm_kicked m) (t_room_members d)))"

definition Store_ListActiveRoomsForUser :: "uuid \<Rightarrow> ('z, ActiveRoom list) dbcmd" where
  "Store_ListActiveRoomsForUser userID = stmt (sql_select (active_rooms_of userID))"

section \<open>Destination\<close>

definition Store_GetDestination :: "uuid \<Rightarrow> ('z, Destination option) dbcmd" where
  "Store_GetDestination roomID =
     andThen (stmt (sql_select (\<lambda>d. List.find (\<lambda>r. r_id r = roomID \<and> dest_set r) (t_rooms d)))) (\<lambda>row.
     case row of None \<Rightarrow> ok None
     | Some r \<Rightarrow> andThen (result (scan_destination r)) (\<lambda>dst. ok (Some dst)))"

definition set_destination ::
  "uuid \<Rightarrow> uuid \<Rightarrow> float64 \<Rightarrow> float64 \<Rightarrow> string option \<Rightarrow> string option \<Rightarrow> room_row sql" where
  "set_destination roomID setBy lat lng name notes now uid d =
     (if rows_where (\<lambda>r. r_id r = roomID \<and> room_active r) (t_rooms d) \<noteq> 0 \<and> \<not> user_exists d setBy
         \<and> list_all pg_text_opt [name, notes]
      then Inl foreign_key_violation
      else update_room_returning [name, notes] (\<lambda>r. r_id r = roomID \<and> room_active r)
        (\<lambda>now r. r\<lparr>r_dest_lat := Some lat, r_dest_lng := Some lng, r_dest_name := name, r_dest_notes := notes,
                   r_dest_set_at := Some now, r_dest_set_by := Some setBy\<rparr>) now uid d)"

definition Store_SetDestination ::
  "uuid \<Rightarrow> uuid \<Rightarrow> float64 \<Rightarrow> float64 \<Rightarrow> string option \<Rightarrow> string option \<Rightarrow> ('z, Destination) dbcmd" where
  "Store_SetDestination roomID setBy lat lng name notes =
     andThen (map_err (no_rows_as ErrNotFound) (stmt (set_destination roomID setBy lat lng name notes)))
       (\<lambda>r. result (scan_destination r))"

definition Store_UpdateDestinationMeta :: "uuid \<Rightarrow> string option \<Rightarrow> string option \<Rightarrow> ('z, Destination) dbcmd" where
  "Store_UpdateDestinationMeta roomID name notes =
     andThen (map_err (no_rows_as ErrNotFound)
       (stmt (update_room_returning [name, notes] (\<lambda>r. r_id r = roomID \<and> room_active r \<and> dest_set r)
          (\<lambda>now r. r\<lparr>r_dest_name := name, r_dest_notes := notes\<rparr>))))
       (\<lambda>r. result (scan_destination r))"

definition Store_ClearDestination :: "uuid \<Rightarrow> ('z, unit) dbcmd" where
  "Store_ClearDestination roomID =
     andThen (stmt (update_rooms (\<lambda>r. r_id r = roomID \<and> room_active r)
       (\<lambda>now r. r\<lparr>r_dest_lat := None, r_dest_lng := None, r_dest_set_at := None, r_dest_set_by := None\<rparr>)))
       rows_or_not_found"

section \<open>Personal markers\<close>

definition is_marker :: "uuid \<Rightarrow> uuid \<Rightarrow> marker_row \<Rightarrow> bool" where
  "is_marker roomID userID p \<longleftrightarrow> pm_room_id p = roomID \<and> pm_user_id p = userID"

definition Store_GetPersonalMarker :: "uuid \<Rightarrow> uuid \<Rightarrow> ('z, PersonalMarker option) dbcmd" where
  "Store_GetPersonalMarker roomID userID =
     stmt (sql_select (\<lambda>d. map_option scan_marker (List.find (is_marker roomID userID) (t_personal_markers d))))"

definition upsert_marker ::
  "uuid \<Rightarrow> uuid \<Rightarrow> float64 \<Rightarrow> float64 \<Rightarrow> string option \<Rightarrow> PersonalMarker sql" where
  "upsert_marker roomID userID lat lng label now uid d =
     (if \<not> pg_text_opt label then Inl bad_text
      else (let row = \<lparr>pm_room_id = roomID, pm_user_id = userID, pm_lat = lat, pm_lng = lng, pm_label = label,
                        pm_updated_at = now\<rparr>
            in if \<exists>p \<in> set (t_personal_markers d). is_marker roomID userID p
               then Inr (scan_marker row, d\<lparr>t_personal_markers :=
                       update_where (is_marker roomID userID) (\<lambda>p. row) (t_personal_markers d)\<rparr>)
               else if \<not> (room_exists d roomID \<and> user_exists d userID) then Inl foreign_key_violation
               else Inr (scan_marker row, d\<lparr>t_personal_markers := t_personal_markers d @ [row]\<rparr>)))"

definition Store_UpsertPersonalMarker ::
  "uuid \<Rightarrow> uuid \<Rightarrow> float64 \<Rightarrow> float64 \<Rightarrow> string option \<Rightarrow> ('z, PersonalMarker) dbcmd" where
  "Store_UpsertPersonalMarker roomID userID lat lng label = stmt (upsert_marker roomID userID lat lng label)"

definition Store_DeletePersonalMarker :: "uuid \<Rightarrow> uuid \<Rightarrow> ('z, unit) dbcmd" where
  "Store_DeletePersonalMarker roomID userID =
     stmt (\<lambda>now uid d. Inr ((), d\<lparr>t_personal_markers := delete_where (is_marker roomID userID) (t_personal_markers d)\<rparr>))"

section \<open>Stops\<close>

definition stops_of :: "uuid \<Rightarrow> db \<Rightarrow> stop_row list" where
  "stops_of roomID d = sort_key (\<lambda>s. (st_position s, st_created_at s))
     (filter (\<lambda>s. st_room_id s = roomID) (t_room_stops d))"

definition Store_ListStops :: "uuid \<Rightarrow> ('z, Stop list) dbcmd" where
  "Store_ListStops roomID = stmt (sql_select (\<lambda>d. map scan_stop (stops_of roomID d)))"

text \<open>\<open>SELECT MAX(position)\<close>: \<open>NULL\<close> over no rows.\<close>

fun sql_max :: "int list \<Rightarrow> int option" where
  "sql_max [] = None"
| "sql_max (x # xs) = Some (case sql_max xs of None \<Rightarrow> x | Some m \<Rightarrow> max x m)"

definition next_position :: "uuid \<Rightarrow> db \<Rightarrow> int" where
  "next_position roomID d =
     (case sql_max (map st_position (filter (\<lambda>s. st_room_id s = roomID) (t_room_stops d))) of
        None \<Rightarrow> 0 | Some m \<Rightarrow> m + 1)"

definition insert_stop :: "uuid \<Rightarrow> uuid \<Rightarrow> float64 \<Rightarrow> float64 \<Rightarrow> string option \<Rightarrow> Stop sql" where
  "insert_stop roomID createdBy lat lng label now uid d =
     (if \<not> pg_text_opt label then Inl bad_text
      else if next_position roomID d > 2147483647 then Inl numeric_out_of_range
      else if uid \<in> st_id ` set (t_room_stops d) then Inl unique_violation
      else if \<not> (room_exists d roomID \<and> user_exists d createdBy) then Inl foreign_key_violation
      else (let row = \<lparr>st_id = uid, st_room_id = roomID, st_lat = lat, st_lng = lng, st_label = label,
                        st_position = next_position roomID d, st_created_by = Some createdBy, st_created_at = now\<rparr>
            in Inr (scan_stop row, d\<lparr>t_room_stops := t_room_stops d @ [row]\<rparr>)))"

definition Store_AddStop :: "uuid \<Rightarrow> uuid \<Rightarrow> float64 \<Rightarrow> float64 \<Rightarrow> string option \<Rightarrow> ('z, Stop) dbcmd" where
  "Store_AddStop roomID createdBy lat lng label = stmt (insert_stop roomID createdBy lat lng label)"

definition Store_ClearStops :: "uuid \<Rightarrow> ('z, unit) dbcmd" where
  "Store_ClearStops roomID =
     stmt (\<lambda>now uid d. Inr ((), d\<lparr>t_room_stops := delete_where (\<lambda>s. st_room_id s = roomID) (t_room_stops d)\<rparr>))"

definition is_stop :: "uuid \<Rightarrow> uuid \<Rightarrow> stop_row \<Rightarrow> bool" where
  "is_stop roomID stopID s \<longleftrightarrow> st_id s = stopID \<and> st_room_id s = roomID"

definition Store_RemoveStop :: "uuid \<Rightarrow> uuid \<Rightarrow> ('z, unit) dbcmd" where
  "Store_RemoveStop roomID stopID =
     andThen (stmt (\<lambda>now uid d. Inr (rows_where (is_stop roomID stopID) (t_room_stops d),
        d\<lparr>t_room_stops := delete_where (is_stop roomID stopID) (t_room_stops d)\<rparr>)))
       rows_or_not_found"

definition update_stop_label :: "uuid \<Rightarrow> uuid \<Rightarrow> string option \<Rightarrow> Stop sql" where
  "update_stop_label roomID stopID label now uid d =
     (if \<not> pg_text_opt label then Inl bad_text
      else case List.find (is_stop roomID stopID) (t_room_stops d) of
        None \<Rightarrow> Inl ErrNoRows
      | Some s \<Rightarrow> Inr (scan_stop (s\<lparr>st_label := label\<rparr>),
          d\<lparr>t_room_stops := update_where (is_stop roomID stopID) (\<lambda>s. s\<lparr>st_label := label\<rparr>) (t_room_stops d)\<rparr>))"

definition Store_UpdateStopLabel :: "uuid \<Rightarrow> uuid \<Rightarrow> string option \<Rightarrow> ('z, Stop) dbcmd" where
  "Store_UpdateStopLabel roomID stopID label =
     map_err (no_rows_as ErrNotFound) (stmt (update_stop_label roomID stopID label))"

section \<open>Messages\<close>

definition insert_message :: "uuid \<Rightarrow> uuid \<Rightarrow> string \<Rightarrow> Message sql" where
  "insert_message roomID userID body now uid d =
     (if \<not> pg_text body then Inl bad_text
      else if uid \<in> ms_id ` set (t_messages d) then Inl unique_violation
      else if \<not> room_exists d roomID then Inl foreign_key_violation
      else case user_by_id d userID of
        None \<Rightarrow> Inl foreign_key_violation
      | Some u \<Rightarrow>
        (let row = \<lparr>ms_id = uid, ms_room_id = roomID, ms_user_id = userID, ms_body = body, ms_created_at = now\<rparr>
         in Inr (scan_message row u, d\<lparr>t_messages := t_messages d @ [row]\<rparr>)))"

definition Store_CreateMessage :: "uuid \<Rightarrow> uuid \<Rightarrow> string \<Rightarrow> ('z, Message) dbcmd" where
  "Store_CreateMessage roomID userID body = stmt (insert_message roomID userID body)"

text \<open>
  The chat of a room in the order of the query, newest first, and the page
  strictly before a cursor.  The row of the cursor is looked up by its id
  alone; when there is none the comparison is \<open>NULL\<close> and no row qualifies.
\<close>

definition message_key :: "message_row \<Rightarrow> timestamp \<times> uuid" where
  "message_key m = (ms_created_at m, ms_id m)"

definition messages_of :: "uuid \<Rightarrow> db \<Rightarrow> message_row list" where
  "messages_of roomID d =
     rev (sort_key message_key
       (filter (\<lambda>m. ms_room_id m = roomID \<and> user_exists d (ms_user_id m)) (t_messages d)))"

definition before_cursor :: "uuid option \<Rightarrow> db \<Rightarrow> message_row \<Rightarrow> bool" where
  "before_cursor beforeID d m =
     (case beforeID of None \<Rightarrow> True
      | Some b \<Rightarrow> (case List.find (\<lambda>x. ms_id x = b) (t_messages d) of
          None \<Rightarrow> False | Some c \<Rightarrow> message_key m < message_key c))"

definition message_page :: "uuid \<Rightarrow> uuid option \<Rightarrow> int \<Rightarrow> db \<Rightarrow> message_row list" where
  "message_page roomID beforeID limit d =
     take (nat limit) (filter (before_cursor beforeID d) (messages_of roomID d))"

definition Store_ListMessages :: "uuid \<Rightarrow> uuid option \<Rightarrow> int \<Rightarrow> ('z, Message list) dbcmd" where
  "Store_ListMessages roomID beforeID limit =
     stmt (\<lambda>now uid d. if limit < 0 then Inl (PgError ''2201W'')
        else sql_select (\<lambda>d. join_users d ms_user_id scan_message (message_page roomID beforeID limit d)) now uid d)"

end
