(* ===== verification/RoomInvariant.thy ===== *)
theory RoomInvariant
  imports RoomStore
begin

text \<open>
  What the room tables always satisfy: the constraints the schema declares
  (primary keys, the partial unique index on active codes, foreign keys, the
  role check) and the agreements that only the code keeps (the owner column
  against the owner role, kicked members have left, a destination is set as a
  whole, stop positions are distinct).  Every statement of the store keeps
  them, for every schedule of faults, times and identifiers.
\<close>

section \<open>The invariant\<close>

abbreviation member_key :: "member_row \<Rightarrow> uuid \<times> uuid" where
  "member_key m \<equiv> (rm_room_id m, rm_user_id m)"

abbreviation marker_key :: "marker_row \<Rightarrow> uuid \<times> uuid" where
  "marker_key p \<equiv> (pm_room_id p, pm_user_id p)"

definition keys_ok :: "db \<Rightarrow> bool" where
  "keys_ok d \<longleftrightarrow> distinct (map u_id (t_users d)) \<and> distinct (map r_id (t_rooms d)) \<and>
     distinct (map member_key (t_room_members d)) \<and> distinct (map marker_key (t_personal_markers d)) \<and>
     distinct (map st_id (t_room_stops d)) \<and> distinct (map ms_id (t_messages d))"

definition codes_ok :: "db \<Rightarrow> bool" where
  "codes_ok d \<longleftrightarrow> inj_on r_code {r \<in> set (t_rooms d). room_active r}"

definition refs_ok :: "db \<Rightarrow> bool" where
  "refs_ok d \<longleftrightarrow>
     (\<forall>r \<in> set (t_rooms d). user_exists d (r_owner_id r) \<and> pred_option (user_exists d) (r_dest_set_by r)) \<and>
     (\<forall>m \<in> set (t_room_members d). room_exists d (rm_room_id m) \<and> user_exists d (rm_user_id m)) \<and>
     (\<forall>p \<in> set (t_personal_markers d). room_exists d (pm_room_id p) \<and> user_exists d (pm_user_id p)) \<and>
     (\<forall>s \<in> set (t_room_stops d). room_exists d (st_room_id s) \<and> pred_option (user_exists d) (st_created_by s)) \<and>
     (\<forall>m \<in> set (t_messages d). room_exists d (ms_room_id m) \<and> user_exists d (ms_user_id m))"

text \<open>\<open>rooms.owner_id\<close> and the membership with role \<open>owner\<close> name the same user.\<close>

definition owners_ok :: "db \<Rightarrow> bool" where
  "owners_ok d \<longleftrightarrow>
     (\<lambda>r. (r_id r, r_owner_id r)) ` set (t_rooms d) =
     member_key ` set (filter (\<lambda>m. rm_role m = RoleOwner) (t_room_members d))"

definition members_ok :: "db \<Rightarrow> bool" where
  "members_ok d \<longleftrightarrow> (\<forall>m \<in> set (t_room_members d).
     (rm_role m = RoleOwner \<or> rm_role m = RoleMember) \<and> (rm_kicked m \<longrightarrow> rm_left_at m \<noteq> None))"

definition dest_ok :: "room_row \<Rightarrow> bool" where
  "dest_ok r \<longleftrightarrow> (r_dest_lng r = None \<longleftrightarrow> r_dest_lat r = None) \<and>
     (r_dest_set_at r = None \<longleftrightarrow> r_dest_lat r = None) \<and> (r_dest_set_by r = None \<longleftrightarrow> r_dest_lat r = None)"

definition stop_ok :: "stop_row \<Rightarrow> bool" where
  "stop_ok s \<longleftrightarrow> 0 \<le> st_position s \<and> st_position s \<le> 2147483647 \<and> st_created_by s \<noteq> None"

abbreviation stop_place :: "stop_row \<Rightarrow> uuid \<times> int" where
  "stop_place s \<equiv> (st_room_id s, st_position s)"

definition stops_ok :: "db \<Rightarrow> bool" where
  "stops_ok d \<longleftrightarrow> list_all stop_ok (t_room_stops d) \<and> distinct (map stop_place (t_room_stops d))"

definition db_ok :: "db \<Rightarrow> bool" where
  "db_ok d \<longleftrightarrow> keys_ok d \<and> codes_ok d \<and> refs_ok d \<and> owners_ok d \<and> members_ok d \<and>
     (\<forall>r \<in> set (t_rooms d). dest_ok r) \<and> stops_ok d"

lemma db_okI:
  "keys_ok d \<Longrightarrow> codes_ok d \<Longrightarrow> refs_ok d \<Longrightarrow> owners_ok d \<Longrightarrow> members_ok d \<Longrightarrow>
   (\<And>r. r \<in> set (t_rooms d) \<Longrightarrow> dest_ok r) \<Longrightarrow> stops_ok d \<Longrightarrow> db_ok d"
  by (simp add: db_ok_def)

lemma db_okD:
  assumes "db_ok d"
  shows "keys_ok d" "codes_ok d" "refs_ok d" "owners_ok d" "members_ok d"
    "r \<in> set (t_rooms d) \<Longrightarrow> dest_ok r" "stops_ok d"
  using assms by (simp_all add: db_ok_def)

text \<open>Each part of the invariant reads few tables.\<close>

lemma codes_ok_frame [simp]:
  "codes_ok (d\<lparr>t_users := x0\<rparr>) = codes_ok d"
  "codes_ok (d\<lparr>t_room_members := x1\<rparr>) = codes_ok d"
  "codes_ok (d\<lparr>t_personal_markers := x2\<rparr>) = codes_ok d"
  "codes_ok (d\<lparr>t_room_stops := x3\<rparr>) = codes_ok d"
  "codes_ok (d\<lparr>t_messages := x4\<rparr>) = codes_ok d"
  "codes_ok (d\<lparr>t_user_identities := x5\<rparr>) = codes_ok d"
  "codes_ok (d\<lparr>t_feedback := x6\<rparr>) = codes_ok d"
  "codes_ok (d\<lparr>t_push_tokens := x7\<rparr>) = codes_ok d"
  "codes_ok (d\<lparr>t_broadcasts := x8\<rparr>) = codes_ok d"
  "codes_ok (d\<lparr>t_app_config := x9\<rparr>) = codes_ok d"
  by (simp_all add: codes_ok_def)

lemma stops_ok_frame [simp]:
  "stops_ok (d\<lparr>t_users := x0\<rparr>) = stops_ok d"
  "stops_ok (d\<lparr>t_rooms := x1\<rparr>) = stops_ok d"
  "stops_ok (d\<lparr>t_room_members := x2\<rparr>) = stops_ok d"
  "stops_ok (d\<lparr>t_personal_markers := x3\<rparr>) = stops_ok d"
  "stops_ok (d\<lparr>t_messages := x4\<rparr>) = stops_ok d"
  "stops_ok (d\<lparr>t_user_identities := x5\<rparr>) = stops_ok d"
  "stops_ok (d\<lparr>t_feedback := x6\<rparr>) = stops_ok d"
  "stops_ok (d\<lparr>t_push_tokens := x7\<rparr>) = stops_ok d"
  "stops_ok (d\<lparr>t_broadcasts := x8\<rparr>) = stops_ok d"
  "stops_ok (d\<lparr>t_app_config := x9\<rparr>) = stops_ok d"
  by (simp_all add: stops_ok_def)

lemma owners_ok_frame [simp]:
  "owners_ok (d\<lparr>t_users := x0\<rparr>) = owners_ok d"
  "owners_ok (d\<lparr>t_personal_markers := x1\<rparr>) = owners_ok d"
  "owners_ok (d\<lparr>t_room_stops := x2\<rparr>) = owners_ok d"
  "owners_ok (d\<lparr>t_messages := x3\<rparr>) = owners_ok d"
  "owners_ok (d\<lparr>t_user_identities := x4\<rparr>) = owners_ok d"
  "owners_ok (d\<lparr>t_feedback := x5\<rparr>) = owners_ok d"
  "owners_ok (d\<lparr>t_push_tokens := x6\<rparr>) = owners_ok d"
  "owners_ok (d\<lparr>t_broadcasts := x7\<rparr>) = owners_ok d"
  "owners_ok (d\<lparr>t_app_config := x8\<rparr>) = owners_ok d"
  by (simp_all add: owners_ok_def)

lemma members_ok_frame [simp]:
  "members_ok (d\<lparr>t_users := x0\<rparr>) = members_ok d"
  "members_ok (d\<lparr>t_rooms := x1\<rparr>) = members_ok d"
  "members_ok (d\<lparr>t_personal_markers := x2\<rparr>) = members_ok d"
  "members_ok (d\<lparr>t_room_stops := x3\<rparr>) = members_ok d"
  "members_ok (d\<lparr>t_messages := x4\<rparr>) = members_ok d"
  "members_ok (d\<lparr>t_user_identities := x5\<rparr>) = members_ok d"
  "members_ok (d\<lparr>t_feedback := x6\<rparr>) = members_ok d"
  "members_ok (d\<lparr>t_push_tokens := x7\<rparr>) = members_ok d"
  "members_ok (d\<lparr>t_broadcasts := x8\<rparr>) = members_ok d"
  "members_ok (d\<lparr>t_app_config := x9\<rparr>) = members_ok d"
  by (simp_all add: members_ok_def)

lemma init_db_ok: "db_ok (init_db now)"
  by (simp add: db_ok_def keys_ok_def codes_ok_def refs_ok_def owners_ok_def members_ok_def stops_ok_def init_db_def)

section \<open>One lemma per shape of change\<close>

lemmas ok_defs = keys_ok_def codes_ok_def refs_ok_def owners_ok_def members_ok_def stops_ok_def
  room_exists_def user_exists_def

lemma db_ok_update_members:
  assumes d: "db_ok d"
    and f: "\<And>m. m \<in> set (t_room_members d) \<Longrightarrow> p m \<Longrightarrow>
      member_key (f m) = member_key m \<and> rm_role (f m) = rm_role m \<and> (rm_kicked (f m) \<longrightarrow> rm_left_at (f m) \<noteq> None)"
  shows "db_ok (d\<lparr>t_room_members := update_where p f (t_room_members d)\<rparr>)"
proof (rule db_okI)
  let ?d = "d\<lparr>t_room_members := update_where p f (t_room_members d)\<rparr>"
  show "keys_ok ?d" using db_okD(1)[OF d] f by (simp add: keys_ok_def map_update_where)
  show "codes_ok ?d" using db_okD(2)[OF d] by simp
  have key: "rm_room_id (if p m then f m else m) = rm_room_id m" "rm_user_id (if p m then f m else m) = rm_user_id m"
    if "m \<in> set (t_room_members d)" for m
    using f [OF that] by simp_all
  show "refs_ok ?d" using db_okD(3)[OF d]
    by (simp add: refs_ok_def ball_update_where key)
  have "map member_key (filter (\<lambda>m. rm_role m = RoleOwner) (update_where p f (t_room_members d))) =
      map member_key (filter (\<lambda>m. rm_role m = RoleOwner) (t_room_members d))"
    by (rule map_filter_update_where) (simp add: f)
  from arg_cong [OF this, of set] show "owners_ok ?d" using db_okD(4)[OF d] by (simp add: owners_ok_def)
  show "members_ok ?d" using db_okD(5)[OF d] f
    by (simp add: members_ok_def ball_update_where)
  show "stops_ok ?d" using db_okD(7)[OF d] by simp
  show "\<And>r. r \<in> set (t_rooms ?d) \<Longrightarrow> dest_ok r" using db_okD(6)[OF d] by simp
qed

lemma codes_ok_update_rooms:
  assumes f: "\<And>r. r \<in> set (t_rooms d) \<Longrightarrow> p r \<Longrightarrow> r_code (f r) = r_code r \<and> (room_active (f r) \<longrightarrow> room_active r)"
    and c: "codes_ok d"
  shows "codes_ok (d\<lparr>t_rooms := update_where p f (t_rooms d)\<rparr>)"
proof -
  let ?d = "d\<lparr>t_rooms := update_where p f (t_rooms d)\<rparr>"
  have same: "\<exists>r0 \<in> set (t_rooms d). room_active r0 \<and> r_code r = r_code r0 \<and> r = (if p r0 then f r0 else r0)"
    if "r \<in> set (t_rooms ?d)" "room_active r" for r
  proof -
    from that obtain r0 where "r0 \<in> set (t_rooms d)" "r = (if p r0 then f r0 else r0)" by (auto simp: in_update_where)
    with f [of r0] that(2) show ?thesis by (intro bexI [of _ r0]) (auto split: if_splits)
  qed
  show ?thesis unfolding codes_ok_def
  proof (rule inj_onI)
    fix r r' assume "r \<in> {r \<in> set (t_rooms ?d). room_active r}" "r' \<in> {r \<in> set (t_rooms ?d). room_active r}"
      and code: "r_code r = r_code r'"
    then have r: "r \<in> set (t_rooms ?d)" "room_active r" and r': "r' \<in> set (t_rooms ?d)" "room_active r'" by simp_all
    from same [OF r] obtain r0 where r0: "r0 \<in> set (t_rooms d)" "room_active r0" "r_code r = r_code r0"
      "r = (if p r0 then f r0 else r0)" by blast
    from same [OF r'] obtain r1 where r1: "r1 \<in> set (t_rooms d)" "room_active r1" "r_code r' = r_code r1"
      "r' = (if p r1 then f r1 else r1)" by blast
    have "r0 = r1"
      by (rule inj_onD [OF c [unfolded codes_ok_def]]) (use code r0(1-3) r1(1-3) in simp_all)
    with r0(4) r1(4) show "r = r'" by simp
  qed
qed

lemma db_ok_update_rooms:
  assumes d: "db_ok d"
    and f: "\<And>r. r \<in> set (t_rooms d) \<Longrightarrow> p r \<Longrightarrow>
      r_id (f r) = r_id r \<and> r_code (f r) = r_code r \<and> r_owner_id (f r) = r_owner_id r \<and>
      (room_active (f r) \<longrightarrow> room_active r) \<and> dest_ok (f r) \<and> pred_option (user_exists d) (r_dest_set_by (f r))"
  shows "db_ok (d\<lparr>t_rooms := update_where p f (t_rooms d)\<rparr>)"
proof (rule db_okI)
  let ?d = "d\<lparr>t_rooms := update_where p f (t_rooms d)\<rparr>"
  have ids: "r_id ` set (update_where p f (t_rooms d)) = r_id ` set (t_rooms d)"
    by (rule image_update_where) (simp add: f)
  show "keys_ok ?d" using db_okD(1)[OF d] f by (simp add: keys_ok_def map_update_where)
  show "codes_ok ?d" using f by (intro codes_ok_update_rooms db_okD(2)[OF d]) simp
  have rooms: "room_exists ?d = room_exists d" by (simp add: room_exists_def fun_eq_iff ids)
  show "refs_ok ?d" using db_okD(3)[OF d] f
    by (simp add: refs_ok_def rooms ball_update_where)
  have "(\<lambda>r. (r_id r, r_owner_id r)) ` set (update_where p f (t_rooms d)) = (\<lambda>r. (r_id r, r_owner_id r)) ` set (t_rooms d)"
    by (rule image_update_where) (simp add: f)
  then show "owners_ok ?d" using db_okD(4)[OF d] by (simp add: owners_ok_def)
  show "members_ok ?d" using db_okD(5)[OF d] by simp
  show "stops_ok ?d" using db_okD(7)[OF d] by simp
  show "\<And>r. r \<in> set (t_rooms ?d) \<Longrightarrow> dest_ok r" using db_okD(6)[OF d] f by (auto simp: in_update_where)
qed

lemma db_ok_insert_member:
  assumes d: "db_ok d" and i: "insert_member roomID userID RoleMember now uid d = Inr (x, d')"
  shows "db_ok d'"
proof -
  have new: "\<forall>m \<in> set (t_room_members d). \<not> is_membership roomID userID m"
    and ex: "room_exists d roomID" "user_exists d userID"
    and d': "d' = d\<lparr>t_room_members := t_room_members d @ [new_member roomID userID RoleMember now]\<rparr>"
    using i by (auto simp: insert_member_def split: if_splits)
  show ?thesis unfolding d'
  proof (rule db_okI)
    let ?d = "d\<lparr>t_room_members := t_room_members d @ [new_member roomID userID RoleMember now]\<rparr>"
    show "keys_ok ?d" using db_okD(1)[OF d] new
      by (auto simp: keys_ok_def new_member_def is_membership_def)
    show "refs_ok ?d" using db_okD(3)[OF d] ex by (simp add: refs_ok_def new_member_def)
    show "owners_ok ?d" using db_okD(4)[OF d] by (simp add: owners_ok_def new_member_def RoleOwner_def RoleMember_def)
    show "members_ok ?d" using db_okD(5)[OF d] by (simp add: members_ok_def new_member_def)
  qed (use db_okD [OF d] in simp_all)
qed

lemma db_ok_create_room:
  assumes d: "db_ok d" and r: "insert_room code name ownerID now uid d = Inr (room, d1)"
    and m: "insert_member (RoomID room) ownerID RoleOwner now uid' d1 = Inr (x, d2)"
  shows "db_ok d2"
proof -
  define row where "row = new_room uid code name ownerID now"
  then have row: "r_id row = uid" "r_code row = code" "r_owner_id row = ownerID" "room_active row" "dest_ok row"
      "r_dest_set_by row = None"
    by (simp_all add: new_room_def room_active_def dest_ok_def)
  have d1: "d1 = d\<lparr>t_rooms := t_rooms d @ [row]\<rparr>" "RoomID room = uid"
    and free: "uid \<notin> r_id ` set (t_rooms d)" "\<forall>r \<in> set (t_rooms d). r_code r = code \<longrightarrow> \<not> room_active r"
    and own: "user_exists d ownerID"
    using r row by (auto simp: insert_room_def scan_room_def room_exists_def row_def split: if_splits)
  let ?m = "new_member uid ownerID RoleOwner now"
  have d2: "d2 = d1\<lparr>t_room_members := t_room_members d @ [?m]\<rparr>"
    and new: "\<forall>m \<in> set (t_room_members d). \<not> is_membership uid ownerID m"
    using m d1 by (auto simp: insert_member_def split: if_splits)
  have ids: "r_id ` set (t_rooms d2) = insert uid (r_id ` set (t_rooms d))" using d1 d2 row by simp
  have ex: "room_exists d2 x \<longleftrightarrow> x = uid \<or> room_exists d x" for x by (simp add: room_exists_def ids)
  have us: "user_exists d2 = user_exists d" by (simp add: d1 d2)
  show ?thesis
  proof (rule db_okI)
    show "keys_ok d2" using db_okD(1)[OF d] new free row
      by (auto simp: keys_ok_def d1 d2 new_member_def is_membership_def)
    have "{r \<in> set (t_rooms d2). room_active r} = insert row {r \<in> set (t_rooms d). room_active r}"
      using row by (auto simp: d1 d2)
    then show "codes_ok d2" using db_okD(2)[OF d] free row by (auto simp: codes_ok_def)
    show "refs_ok d2" using db_okD(3)[OF d] own row
      by (auto simp: refs_ok_def ex us) (auto simp: d1 d2 new_member_def)
    show "owners_ok d2" using db_okD(4)[OF d] row by (simp add: owners_ok_def d1 d2 new_member_def)
    show "members_ok d2" using db_okD(5)[OF d] by (simp add: members_ok_def d1 d2 new_member_def)
  qed (use db_okD [OF d] row in \<open>auto simp: d1 d2\<close>)
qed

text \<open>Tables nothing refers to: markers, stops and messages.\<close>

lemma db_ok_markers:
  assumes d: "db_ok d" and k: "distinct (map marker_key ps)"
    and r: "\<And>p. p \<in> set ps \<Longrightarrow> room_exists d (pm_room_id p) \<and> user_exists d (pm_user_id p)"
  shows "db_ok (d\<lparr>t_personal_markers := ps\<rparr>)"
  using d k r by (simp add: db_ok_def keys_ok_def refs_ok_def)

lemma db_ok_messages:
  assumes d: "db_ok d" and k: "distinct (map ms_id ms)"
    and r: "\<And>m. m \<in> set ms \<Longrightarrow> room_exists d (ms_room_id m) \<and> user_exists d (ms_user_id m)"
  shows "db_ok (d\<lparr>t_messages := ms\<rparr>)"
  using d k r by (simp add: db_ok_def keys_ok_def refs_ok_def)

lemma db_ok_stops:
  assumes d: "db_ok d" and k: "distinct (map st_id ss)" and o: "stops_ok (d\<lparr>t_room_stops := ss\<rparr>)"
    and r: "\<And>s. s \<in> set ss \<Longrightarrow> room_exists d (st_room_id s) \<and> pred_option (user_exists d) (st_created_by s)"
  shows "db_ok (d\<lparr>t_room_stops := ss\<rparr>)"
  using d k o r by (simp add: db_ok_def keys_ok_def refs_ok_def)

lemma refs_okD:
  assumes "db_ok d"
  shows "p \<in> set (t_personal_markers d) \<Longrightarrow> room_exists d (pm_room_id p) \<and> user_exists d (pm_user_id p)"
    "s \<in> set (t_room_stops d) \<Longrightarrow> room_exists d (st_room_id s) \<and> pred_option (user_exists d) (st_created_by s)"
    "m \<in> set (t_messages d) \<Longrightarrow> room_exists d (ms_room_id m) \<and> user_exists d (ms_user_id m)"
    "mb \<in> set (t_room_members d) \<Longrightarrow> room_exists d (rm_room_id mb) \<and> user_exists d (rm_user_id mb)"
    "r \<in> set (t_rooms d) \<Longrightarrow> user_exists d (r_owner_id r) \<and> pred_option (user_exists d) (r_dest_set_by r)"
  using db_okD(3)[OF assms] by (simp_all add: refs_ok_def)

lemma keys_okD:
  assumes "db_ok d"
  shows "distinct (map u_id (t_users d))" "distinct (map r_id (t_rooms d))"
    "distinct (map member_key (t_room_members d))" "distinct (map marker_key (t_personal_markers d))"
    "distinct (map st_id (t_room_stops d))" "distinct (map ms_id (t_messages d))"
  using db_okD(1)[OF assms] by (simp_all add: keys_ok_def)

lemma db_ok_upsert_marker:
  assumes d: "db_ok d" and u: "upsert_marker roomID userID lat lng label now uid d = Inr (x, d')"
  shows "db_ok d'"
proof (cases "\<exists>p \<in> set (t_personal_markers d). is_marker roomID userID p")
  case True
  let ?row = "\<lparr>pm_room_id = roomID, pm_user_id = userID, pm_lat = lat, pm_lng = lng, pm_label = label, pm_updated_at = now\<rparr>"
  from True u have d': "d' = d\<lparr>t_personal_markers := update_where (is_marker roomID userID) (\<lambda>p. ?row) (t_personal_markers d)\<rparr>"
    by (simp add: upsert_marker_def Let_def split: if_splits)
  have k: "map marker_key (update_where (is_marker roomID userID) (\<lambda>p. ?row) (t_personal_markers d)) =
      map marker_key (t_personal_markers d)"
    by (rule map_update_where) (simp add: is_marker_def)
  show ?thesis unfolding d'
    by (rule db_ok_markers [OF d])
      (use True refs_okD(1)[OF d] keys_okD(4)[OF d] in \<open>auto simp: k in_update_where is_marker_def\<close>)
next
  case False
  then show ?thesis using u
    by (auto simp: upsert_marker_def Let_def is_marker_def split: if_splits
        intro!: db_ok_markers [OF d] dest: refs_okD(1)[OF d] simp: keys_okD(4)[OF d])
qed

lemma db_ok_insert_message:
  assumes d: "db_ok d" and u: "insert_message roomID userID body now uid d = Inr (x, d')"
  shows "db_ok d'"
proof -
  have "user_exists d userID" if "user_by_id d userID = Some u" for u
    using that by (auto simp: user_by_id_def user_exists_def dest: find_SomeD)
  with u show ?thesis
    by (auto simp: insert_message_def Let_def split: if_splits option.splits
        intro!: db_ok_messages [OF d] dest: refs_okD(3)[OF d] simp: keys_okD(6)[OF d])
qed

lemma sql_max_None [simp]: "sql_max xs = None \<longleftrightarrow> xs = []"
  by (cases xs) auto

lemma sql_max_Max: "xs \<noteq> [] \<Longrightarrow> sql_max xs = Some (Max (set xs))"
  by (induction xs rule: induct_list012) (auto simp: max.commute)

lemma next_position_gt:
  "s \<in> set (t_room_stops d) \<Longrightarrow> st_room_id s = roomID \<Longrightarrow> st_position s < next_position roomID d"
  by (subst next_position_def, subst sql_max_Max) (auto simp: filter_empty_conv)

lemma next_position_nonneg: "stops_ok d \<Longrightarrow> 0 \<le> next_position roomID d"
proof (cases "filter (\<lambda>s. st_room_id s = roomID) (t_room_stops d)")
  case (Cons s ss)
  assume "stops_ok d"
  from Cons have "s \<in> set (filter (\<lambda>s. st_room_id s = roomID) (t_room_stops d))" by simp
  then have s: "s \<in> set (t_room_stops d)" "st_room_id s = roomID" by auto
  with \<open>stops_ok d\<close> have "0 \<le> st_position s" by (auto simp: stops_ok_def stop_ok_def list_all_iff)
  with next_position_gt [OF s] show ?thesis by simp
qed (simp add: next_position_def)

lemma db_ok_insert_stop:
  assumes d: "db_ok d" and u: "insert_stop roomID by' lat lng label now uid d = Inr (x, d')"
  shows "db_ok d'"
proof -
  let ?row = "\<lparr>st_id = uid, st_room_id = roomID, st_lat = lat, st_lng = lng, st_label = label,
    st_position = next_position roomID d, st_created_by = Some by', st_created_at = now\<rparr>"
  have d': "d' = d\<lparr>t_room_stops := t_room_stops d @ [?row]\<rparr>" and p: "next_position roomID d \<le> 2147483647"
    and new: "uid \<notin> st_id ` set (t_room_stops d)" and ex: "room_exists d roomID" "user_exists d by'"
    using u by (auto simp: insert_stop_def Let_def split: if_splits)
  have "(roomID, next_position roomID d) \<notin> stop_place ` set (t_room_stops d)"
  proof
    assume "(roomID, next_position roomID d) \<in> stop_place ` set (t_room_stops d)"
    then obtain s where "s \<in> set (t_room_stops d)" "roomID = st_room_id s" "next_position roomID d = st_position s"
      by (auto simp del: set_map)
    with next_position_gt [of s d roomID] show False by simp
  qed
  with db_okD(7)[OF d] p next_position_nonneg [OF db_okD(7)[OF d]]
  have "stops_ok (d\<lparr>t_room_stops := t_room_stops d @ [?row]\<rparr>)"
    by (simp add: stops_ok_def stop_ok_def)
  with new ex keys_okD(5)[OF d] refs_okD(2)[OF d] show ?thesis unfolding d'
    by (intro db_ok_stops [OF d]) auto
qed

lemma db_ok_delete_stops:
  assumes d: "db_ok d"
  shows "db_ok (d\<lparr>t_room_stops := delete_where p (t_room_stops d)\<rparr>)"
  by (rule db_ok_stops [OF d])
    (use keys_okD(5)[OF d] refs_okD(2)[OF d] db_okD(7)[OF d] in
      \<open>auto simp: distinct_map_delete_where stops_ok_def list_all_iff\<close>)

lemma db_ok_label_stop:
  assumes d: "db_ok d" and u: "update_stop_label roomID stopID label now uid d = Inr (x, d')"
  shows "db_ok d'"
proof -
  let ?ss = "update_where (is_stop roomID stopID) (\<lambda>s. s\<lparr>st_label := label\<rparr>) (t_room_stops d)"
  have d': "d' = d\<lparr>t_room_stops := ?ss\<rparr>"
    using u by (auto simp: update_stop_label_def split: if_splits option.splits)
  have "map st_id ?ss = map st_id (t_room_stops d)" by (rule map_update_where) simp
  moreover have "map stop_place ?ss = map stop_place (t_room_stops d)" by (rule map_update_where) simp
  then have "stops_ok (d\<lparr>t_room_stops := ?ss\<rparr>)"
    using db_okD(7)[OF d] by (auto simp: stops_ok_def stop_ok_def list_all_iff in_update_where)
  ultimately show ?thesis unfolding d'
    by (intro db_ok_stops [OF d]) (use keys_okD(5)[OF d] refs_okD(2)[OF d] in \<open>auto simp: in_update_where\<close>)
qed


text \<open>
  Handing a room over: \<open>owner_id\<close> and the two roles change together.  The
  previous owner must be the one recorded in the room.
\<close>

definition hand_over :: "uuid \<Rightarrow> uuid \<Rightarrow> uuid \<Rightarrow> db \<Rightarrow> db" where
  "hand_over roomID old new d =
     d\<lparr>t_rooms := update_where (\<lambda>r. r_id r = roomID \<and> room_active r) (\<lambda>r. r\<lparr>r_owner_id := new\<rparr>) (t_rooms d),
       t_room_members := update_where (is_membership roomID old) (\<lambda>m. m\<lparr>rm_role := RoleMember\<rparr>)
         (update_where (is_membership roomID new) (\<lambda>m. m\<lparr>rm_role := RoleOwner\<rparr>) (t_room_members d))\<rparr>"

lemma hand_over_members:
  "old \<noteq> new \<Longrightarrow> t_room_members (hand_over roomID old new d) =
     map (\<lambda>m. m\<lparr>rm_role := if is_membership roomID new m then RoleOwner
                          else if is_membership roomID old m then RoleMember else rm_role m\<rparr>) (t_room_members d)"
  by (auto simp: hand_over_def update_where_update_where is_membership_def)

lemma hand_over_owner_roles:
  assumes "old \<noteq> new"
  shows "member_key ` set (filter (\<lambda>m. rm_role m = RoleOwner) (t_room_members (hand_over roomID old new d))) =
    {k \<in> member_key ` set (filter (\<lambda>m. rm_role m = RoleOwner) (t_room_members d)). k \<noteq> (roomID, old)} \<union>
    {k \<in> member_key ` set (t_room_members d). k = (roomID, new)}"
proof -
  let ?role = "\<lambda>m. if is_membership roomID new m then RoleOwner
    else if is_membership roomID old m then RoleMember else rm_role m"
  have "member_key ` set (filter (\<lambda>m. rm_role m = RoleOwner) (t_room_members (hand_over roomID old new d))) =
      member_key ` {m \<in> set (t_room_members d). ?role m = RoleOwner}"
    unfolding hand_over_members [OF assms] by (subst image_filter_map) simp_all
  also have "\<dots> = {k \<in> member_key ` {m \<in> set (t_room_members d). rm_role m = RoleOwner}. k \<noteq> (roomID, old)} \<union>
      {k \<in> member_key ` set (t_room_members d). k = (roomID, new)}"
    using assms by (auto simp: is_membership_def RoleOwner_def RoleMember_def intro: rev_image_eqI)
  finally show ?thesis by simp
qed

lemma hand_over_rooms:
  assumes "distinct (map r_id (t_rooms d))" "r \<in> set (t_rooms d)" "r_id r = roomID" "room_active r"
  shows "(\<lambda>r. (r_id r, r_owner_id r)) ` set (t_rooms (hand_over roomID old new d)) =
    insert (roomID, new) ((\<lambda>r. (r_id r, r_owner_id r)) ` set (t_rooms d) - {(roomID, r_owner_id r)})"
proof -
  let ?k = "\<lambda>r. (r_id r, r_owner_id r)" and ?p = "\<lambda>r. r_id r = roomID \<and> room_active r"
  let ?S = "set (t_rooms d) - {r}"
  have other: "r_id q \<noteq> roomID" if "q \<in> ?S" for q
    using distinct_map_unique [OF assms(1), of q r] that assms(2,3) by auto
  have S: "set (t_rooms d) = insert r ?S" using assms(2) by auto
  have "map ?k (t_rooms (hand_over roomID old new d)) = map (\<lambda>q. (r_id q, if ?p q then new else r_owner_id q)) (t_rooms d)"
    by (simp add: hand_over_def update_where_def)
  from arg_cong [OF this, of set]
  have "?k ` set (t_rooms (hand_over roomID old new d)) = (\<lambda>q. (r_id q, if ?p q then new else r_owner_id q)) ` set (t_rooms d)"
    by (simp only: set_map)
  also have "\<dots> = insert (roomID, new) (?k ` ?S)"
    by (subst S, subst image_insert, intro arg_cong2 [of _ _ _ _ insert] image_cong)
      (use other assms(3,4) in auto)
  also have "?k ` ?S = ?k ` set (t_rooms d) - {(roomID, r_owner_id r)}"
    by (subst (2) S) (use other assms(3) in auto)
  finally show ?thesis .
qed

lemma db_ok_hand_over:
  assumes d: "db_ok d" and r: "r \<in> set (t_rooms d)" "r_id r = roomID" "room_active r" "r_owner_id r = old"
    and new: "old \<noteq> new" "m \<in> set (t_room_members d)" "is_membership roomID new m"
  shows "db_ok (hand_over roomID old new d)"
proof (rule db_okI)
  let ?d = "hand_over roomID old new d"
  have "map member_key (t_room_members ?d) = map member_key (t_room_members d)"
    and ids: "map r_id (t_rooms ?d) = map r_id (t_rooms d)"
    by (simp_all add: hand_over_def map_update_where)
  moreover have rest: "t_users ?d = t_users d" "t_personal_markers ?d = t_personal_markers d"
      "t_room_stops ?d = t_room_stops d" "t_messages ?d = t_messages d"
    by (simp_all add: hand_over_def)
  ultimately show "keys_ok ?d" using db_okD(1)[OF d] by (simp add: keys_ok_def)
  have rooms: "room_exists ?d = room_exists d" "user_exists ?d = user_exists d"
    using arg_cong [OF ids, of set] by (simp_all add: room_exists_def user_exists_def fun_eq_iff hand_over_def)
  have u: "user_exists d new" using refs_okD(4)[OF d new(2)] new(3) by (simp add: is_membership_def)
  show "refs_ok ?d" using db_okD(3)[OF d] u unfolding refs_ok_def rooms rest
    by (simp add: hand_over_members [OF new(1)]) (simp add: hand_over_def ball_update_where)
  have old: "(roomID, old) \<in> (\<lambda>r. (r_id r, r_owner_id r)) ` set (t_rooms d)" using r by force
  have "(roomID, new) \<in> member_key ` set (t_room_members d)" using new by (force simp: is_membership_def)
  then show "owners_ok ?d" using db_okD(4)[OF d] old
    unfolding owners_ok_def hand_over_owner_roles [OF new(1)] hand_over_rooms [OF keys_okD(2)[OF d] r(1-3)] r(4)
    by (intro set_eqI) (simp, blast)
  show "members_ok ?d" using db_okD(5)[OF d] by (simp add: members_ok_def hand_over_members [OF new(1)])
  show "codes_ok ?d" unfolding hand_over_def
    by (simp, rule codes_ok_update_rooms [OF _ db_okD(2)[OF d]]) (simp add: room_active_def)
  show "stops_ok ?d" using db_okD(7)[OF d] by (simp add: stops_ok_def rest)
  show "dest_ok q" if "q \<in> set (t_rooms ?d)" for q
    using that db_okD(6)[OF d] by (auto simp: hand_over_def in_update_where dest_ok_def)
qed


section \<open>Every store method keeps the invariant\<close>

lemma keeps_update_members:
  assumes "\<And>now m. p m \<Longrightarrow> member_key (f now m) = member_key m \<and> rm_role (f now m) = rm_role m"
    and "\<And>now m. p m \<Longrightarrow> rm_kicked m \<longrightarrow> rm_left_at m \<noteq> None \<Longrightarrow> rm_kicked (f now m) \<longrightarrow> rm_left_at (f now m) \<noteq> None"
  shows "keeps (\<lambda>w. db_ok (w_db w)) (stmt (update_members p f))"
proof (rule keeps_stmt)
  fix now uid d x d' assume d: "db_ok d" and "update_members p f now uid d = Inr (x, d')"
  then have d': "d' = d\<lparr>t_room_members := update_where p (f now) (t_room_members d)\<rparr>"
    by (simp add: update_members_def)
  show "db_ok d'" unfolding d'
    by (rule db_ok_update_members [OF d]) (use assms db_okD(5)[OF d] in \<open>simp add: members_ok_def\<close>)
qed

lemma keeps_update_rooms:
  assumes "\<And>now r. p r \<Longrightarrow> r_id (f now r) = r_id r \<and> r_code (f now r) = r_code r \<and> r_owner_id (f now r) = r_owner_id r \<and>
      (room_active (f now r) \<longrightarrow> room_active r) \<and> (dest_ok r \<longrightarrow> dest_ok (f now r)) \<and>
      (r_dest_set_by (f now r) = None \<or> r_dest_set_by (f now r) = r_dest_set_by r)"
  shows "keeps (\<lambda>w. db_ok (w_db w)) (stmt (update_rooms p f))"
    "keeps (\<lambda>w. db_ok (w_db w)) (stmt (update_room_returning texts p f))"
proof -
  have "db_ok (d\<lparr>t_rooms := update_where p (f now) (t_rooms d)\<rparr>)" if d: "db_ok d" for d now
    using assms [of _ now] refs_okD(5)[OF d] db_okD(6)[OF d]
    by (intro db_ok_update_rooms [OF d]) (metis option.pred_inject(1))
  then show "keeps (\<lambda>w. db_ok (w_db w)) (stmt (update_rooms p f))"
      "keeps (\<lambda>w. db_ok (w_db w)) (stmt (update_room_returning texts p f))"
    by (auto intro!: keeps_stmt simp: update_rooms_def update_room_returning_def split: if_splits option.splits)
qed

lemma keeps_rows_or_not_found [keeps_intros]: "keeps I (rows_or_not_found n)"
  by (simp add: rows_or_not_found_def keeps_intros)

lemma keeps_CreateRoom [keeps_intros]: "keeps (\<lambda>w. db_ok (w_db w)) (Store_CreateRoom ownerID code name)"
  unfolding Store_CreateRoom_def
  by (rule keeps_tx) (auto simp: ok_def elim!: andThen_InrE dest!: tx_stmt_InrD intro: db_ok_create_room)

lemma keeps_UpsertMember [keeps_intros]: "keeps (\<lambda>w. db_ok (w_db w)) (Store_UpsertMember roomID userID)"
  unfolding Store_UpsertMember_def
proof (rule keeps_stmt)
  fix now uid d x d' assume "db_ok d" "upsert_member roomID userID now uid d = Inr (x, d')"
  then show "db_ok d'"
    by (auto simp: upsert_member_def split: if_splits intro: db_ok_insert_member intro!: db_ok_update_members)
qed

lemma keeps_membership_updates [keeps_intros]:
  "keeps (\<lambda>w. db_ok (w_db w)) (Store_MarkLeft roomID userID)"
  "keeps (\<lambda>w. db_ok (w_db w)) (Store_SetMuted roomID userID muted)"
  "keeps (\<lambda>w. db_ok (w_db w)) (Store_Kick roomID userID)"
  unfolding Store_MarkLeft_def Store_SetMuted_def Store_Kick_def
  by (intro keeps_andThen keeps_rows_or_not_found keeps_ok keeps_update_members; simp)+

lemma keeps_room_updates [keeps_intros]:
  "keeps (\<lambda>w. db_ok (w_db w)) (Store_EndRoom roomID)"
  "keeps (\<lambda>w. db_ok (w_db w)) (Store_UpdateName roomID name)"
  "keeps (\<lambda>w. db_ok (w_db w)) (Store_UpdateDestinationMeta roomID name notes)"
  "keeps (\<lambda>w. db_ok (w_db w)) (Store_ClearDestination roomID)"
  unfolding Store_EndRoom_def Store_UpdateName_def Store_UpdateDestinationMeta_def Store_ClearDestination_def
  by (intro keeps_andThen keeps_rows_or_not_found keeps_ok keeps_result keeps_map_err keeps_update_rooms;
      simp add: dest_ok_def room_active_def)+

lemma keeps_SetDestination [keeps_intros]:
  "keeps (\<lambda>w. db_ok (w_db w)) (Store_SetDestination roomID setBy lat lng name notes)"
proof -
  have "db_ok d'" if d: "db_ok d" and "set_destination roomID setBy lat lng name notes now uid d = Inr (x, d')"
    for now uid d x d'
    using that(2) refs_okD(5)[OF d]
    by (auto simp: set_destination_def update_room_returning_def dest_ok_def room_active_def find_Some_iff
        split: if_splits option.splits intro!: db_ok_update_rooms [OF d])
  then show ?thesis unfolding Store_SetDestination_def
    by (intro keeps_andThen keeps_map_err keeps_result keeps_stmt) blast
qed

lemma keeps_markers [keeps_intros]:
  "keeps (\<lambda>w. db_ok (w_db w)) (Store_UpsertPersonalMarker roomID userID lat lng label)"
  "keeps (\<lambda>w. db_ok (w_db w)) (Store_DeletePersonalMarker roomID userID)"
  unfolding Store_UpsertPersonalMarker_def Store_DeletePersonalMarker_def
   by (rule keeps_stmt, erule (1) db_ok_upsert_marker)
     (rule keeps_stmt, auto intro!: db_ok_markers dest: refs_okD(1) keys_okD(4) simp: distinct_map_delete_where)

lemma keeps_stops [keeps_intros]:
  "keeps (\<lambda>w. db_ok (w_db w)) (Store_AddStop roomID createdBy lat lng label)"
  "keeps (\<lambda>w. db_ok (w_db w)) (Store_ClearStops roomID)"
  "keeps (\<lambda>w. db_ok (w_db w)) (Store_RemoveStop roomID stopID)"
  "keeps (\<lambda>w. db_ok (w_db w)) (Store_UpdateStopLabel roomID stopID label)"
  unfolding Store_AddStop_def Store_ClearStops_def Store_RemoveStop_def Store_UpdateStopLabel_def
  by (intro keeps_andThen keeps_rows_or_not_found keeps_map_err keeps_stmt;
      auto intro: db_ok_insert_stop db_ok_delete_stops db_ok_label_stop)+

lemma keeps_CreateMessage [keeps_intros]:
  "keeps (\<lambda>w. db_ok (w_db w)) (Store_CreateMessage roomID userID body)"
  unfolding Store_CreateMessage_def by (rule keeps_stmt) (rule db_ok_insert_message)

lemma keeps_reads [keeps_intros]:
  "keeps (\<lambda>w. I (w_db w)) (Store_GetByID rid)"
  "keeps (\<lambda>w. I (w_db w)) (Store_GetActiveByCode code)"
  "keeps (\<lambda>w. I (w_db w)) (Store_GetMember roomID userID)"
  "keeps (\<lambda>w. I (w_db w)) (Store_ListMembers roomID)"
  "keeps (\<lambda>w. I (w_db w)) (Store_ActiveMembership roomID userID)"
  "keeps (\<lambda>w. I (w_db w)) (Store_ListActiveRoomsForUser userID)"
  "keeps (\<lambda>w. I (w_db w)) (Store_GetDestination roomID)"
  "keeps (\<lambda>w. I (w_db w)) (Store_GetPersonalMarker roomID userID)"
  "keeps (\<lambda>w. I (w_db w)) (Store_ListStops roomID)"
  "keeps (\<lambda>w. I (w_db w)) (Store_ListMessages roomID beforeID limit)"
  unfolding Store_GetByID_def Store_GetActiveByCode_def Store_GetMember_def Store_ListMembers_def
    Store_ActiveMembership_def Store_ListActiveRoomsForUser_def Store_GetDestination_def Store_GetPersonalMarker_def
    Store_ListStops_def Store_ListMessages_def
  by (intro keeps_intros keeps_stmt; auto simp: sql_row_def sql_select_def split: if_splits option.splits)+

lemma Store_TransferOwnership_Inr:
  assumes "Store_TransferOwnership roomID old new w = (Inr (), w')"
  obtains r m where "r \<in> set (t_rooms (w_db w))" "r_id r = roomID" "room_active r"
    "m \<in> set (t_room_members (w_db w))" "active_member roomID new m" "w_db w' = hand_over roomID old new (w_db w)"
  using assms unfolding Store_TransferOwnership_def
  by (auto simp: ok_def fail_def sql_select_def set_owner_def update_rooms_def update_members_def hand_over_def
      split: if_splits elim!: andThen_InrE
      dest!: tx_InrD tx_stmt_InrD flip_db)

lemma TransferOwnership_db_ok:
  assumes d: "db_ok (w_db w)" and owner: "\<And>r. r \<in> set (t_rooms (w_db w)) \<Longrightarrow> r_id r = roomID \<Longrightarrow> r_owner_id r = old"
    and new: "old \<noteq> new"
  shows "db_ok (w_db (snd (Store_TransferOwnership roomID old new w)))"
proof (cases "Store_TransferOwnership roomID old new w")
  case (Pair res w')
  show ?thesis
  proof (cases res)
    case (Inl e)
    with Pair d show ?thesis by (simp add: Store_TransferOwnership_def tx_atomic)
  next
    case (Inr x)
    with Pair have "Store_TransferOwnership roomID old new w = (Inr (), w')" by simp
    then show ?thesis
      by (rule Store_TransferOwnership_Inr)
        (use Pair d owner new in \<open>auto simp: active_member_def joined_def intro: db_ok_hand_over\<close>)
  qed
qed

end
