(* ===== verification/RoomService.thy ===== *)
theory RoomService
  imports RoomInvariant
begin

text \<open>
  \<open>internal/rooms/service.go\<close>: the room service over the store and a
  realtime \<open>Broadcaster\<close>.  The state is the one of the store, extended with
  the state \<open>'h\<close> of the broadcaster and the random source of
  \<open>crypto/rand\<close>.
\<close>

section \<open>The service and its state\<close>

text \<open>
  The Go interface \<open>Broadcaster\<close>: one field per method, acting on the
  broadcaster's own state.  \<open>rt\<close> is \<open>None\<close> when the service was
  built with a nil broadcaster.
\<close>

record 'h Broadcaster =
  bc_MemberJoined :: "uuid \<Rightarrow> Member \<Rightarrow> 'h \<Rightarrow> 'h"
  bc_MemberLeft :: "uuid \<Rightarrow> uuid \<Rightarrow> 'h \<Rightarrow> 'h"
  bc_Mute :: "uuid \<Rightarrow> uuid \<Rightarrow> bool \<Rightarrow> uuid \<Rightarrow> 'h \<Rightarrow> 'h"
  bc_KickConnection :: "uuid \<Rightarrow> uuid \<Rightarrow> uuid \<Rightarrow> 'h \<Rightarrow> 'h"
  bc_RoomEnded :: "uuid \<Rightarrow> 'h \<Rightarrow> 'h"
  bc_Destination :: "uuid \<Rightarrow> Destination option \<Rightarrow> 'h \<Rightarrow> 'h"
  bc_Stops :: "uuid \<Rightarrow> Stop list \<Rightarrow> 'h \<Rightarrow> 'h"
  bc_OwnerChanged :: "uuid \<Rightarrow> uuid \<Rightarrow> uuid \<Rightarrow> 'h \<Rightarrow> 'h"
  bc_RoomRenamed :: "uuid \<Rightarrow> string option \<Rightarrow> 'h \<Rightarrow> 'h"
  bc_ChatMessage :: "uuid \<Rightarrow> Message \<Rightarrow> 'h \<Rightarrow> 'h"
  bc_DisconnectUser :: "uuid \<Rightarrow> uuid \<Rightarrow> 'h \<Rightarrow> 'h"
  bc_PresentUserIDs :: "uuid \<Rightarrow> 'h \<Rightarrow> uuid list"
  bc_PresentCount :: "uuid \<Rightarrow> 'h \<Rightarrow> int"
  bc_EmergencyUserIDs :: "uuid \<Rightarrow> 'h \<Rightarrow> uuid list"

record 'h Service =
  svc_rt :: "'h Broadcaster option"

text \<open>
  \<open>w_rand\<close> is what the system's random source yields at each read: an error
  or a number, which \<open>rand.Int\<close> brings below its bound.
\<close>

record 'h rworld = world +
  w_rt :: 'h
  w_rand :: "nat \<Rightarrow> string + nat"
  w_rand_pos :: nat

type_synonym ('h, 'a) svc = "('h rworld, go_error, 'a) cmd"

definition rand_Int :: "nat \<Rightarrow> ('h, nat) svc" where
  "rand_Int bound w =
     (case w_rand w (w_rand_pos w) of
        Inl msg \<Rightarrow> (Inl (OtherError msg), w\<lparr>w_rand_pos := Suc (w_rand_pos w)\<rparr>)
      | Inr n \<Rightarrow> (Inr (n mod bound), w\<lparr>w_rand_pos := Suc (w_rand_pos w)\<rparr>))"

text \<open>\<open>if s.rt != nil \<dots>\<close>: one call on the broadcaster.\<close>

definition told :: "'h Service \<Rightarrow> ('h Broadcaster \<Rightarrow> 'h \<Rightarrow> 'h) \<Rightarrow> 'h \<Rightarrow> 'h" where
  "told s f h = (case svc_rt s of None \<Rightarrow> h | Some rt \<Rightarrow> f rt h)"

definition notify :: "'h Service \<Rightarrow> ('h Broadcaster \<Rightarrow> 'h \<Rightarrow> 'h) \<Rightarrow> ('h, unit) svc" where
  "notify s f = effect (\<lambda>w. w\<lparr>w_rt := told s f (w_rt w)\<rparr>)"

lemma notify_run [cmd_simps]: "notify s f w = (Inr (), w\<lparr>w_rt := told s f (w_rt w)\<rparr>)"
  by (simp add: notify_def effect_def)

lemma andThen_notify [cmd_simps]: "andThen (notify s f) k w = k () (w\<lparr>w_rt := told s f (w_rt w)\<rparr>)"
  by (rule andThen_Inr) (simp add: notify_run)

section \<open>Limits and normalisation\<close>

definition codeAlphabet :: string where
  "codeAlphabet = ''0123456789''"

definition maxCodeAttempts :: nat where
  "maxCodeAttempts = 8"

definition minRoomNameLen :: nat where
  "minRoomNameLen = 1"

definition maxRoomNameLen :: nat where
  "maxRoomNameLen = 40"

definition maxMarkerLabelLen :: nat where
  "maxMarkerLabelLen = 120"

definition maxDestNotesLen :: nat where
  "maxDestNotesLen = 500"

definition maxMessageLen :: nat where
  "maxMessageLen = 2000"

definition defaultMessagePage :: int where
  "defaultMessagePage = 50"

definition maxMessagePage :: int where
  "maxMessagePage = 100"

definition trimLabel :: "string option \<Rightarrow> string option" where
  "trimLabel label =
     (case label of None \<Rightarrow> None
      | Some l \<Rightarrow>
        (let v = TrimSpace l in
         if v = [] then None
         else if RuneCountInString v > maxMarkerLabelLen
         then Some (string_of_runes (take maxMarkerLabelLen (runes v)))
         else Some v))"

definition trimNotes :: "string option \<Rightarrow> string option" where
  "trimNotes notes =
     (case notes of None \<Rightarrow> None
      | Some n \<Rightarrow>
        (let v = TrimSpace n in
         if v = [] then None
         else if RuneCountInString v > maxDestNotesLen
         then Some (string_of_runes (take maxDestNotesLen (runes v)))
         else Some v))"

text \<open>The loop over the six bytes of a code, one random digit each.\<close>

fun generate_digits :: "nat \<Rightarrow> ('h, string) svc" where
  "generate_digits 0 = ok []"
| "generate_digits (Suc k) =
     andThen (rand_Int (length codeAlphabet)) (\<lambda>n.
     andThen (generate_digits k) (\<lambda>rest.
     ok ((codeAlphabet ! n) # rest)))"

definition generateCode :: "('h, string) svc" where
  "generateCode = generate_digits 6"

definition bad_coords :: "float64 \<Rightarrow> float64 \<Rightarrow> bool" where
  "bad_coords lat lng \<longleftrightarrow> lat < -90 \<or> lat > 90 \<or> lng < -180 \<or> lng > 180"

definition invalid_coords :: go_error where
  "invalid_coords = Err 400 ''invalid_coords'' ''invalid coordinates''"

section \<open>Creating and joining\<close>

text \<open>The retry loop of \<open>Create\<close>, with the attempts that are left.\<close>

fun create_loop :: "nat \<Rightarrow> uuid \<Rightarrow> string option \<Rightarrow> ('h, Room) svc" where
  "create_loop 0 ownerID name = fail (OtherError ''failed to allocate room code'')"
| "create_loop (Suc k) ownerID name =
     andThen generateCode (\<lambda>code.
     onErr (Store_CreateRoom ownerID code name)
       (\<lambda>err. if err = unique_violation then create_loop k ownerID name else fail err)
       ok)"

definition Service_Create :: "uuid \<Rightarrow> string option \<Rightarrow> ('h, Room) svc" where
  "Service_Create ownerID name = create_loop maxCodeAttempts ownerID name"

definition room_not_found :: go_error where
  "room_not_found = Err 404 ''room_not_found'' ''no active room for that code''"

definition Service_Join :: "(nat \<Rightarrow> nat) \<Rightarrow> 'h Service \<Rightarrow> uuid \<Rightarrow> string \<Rightarrow> ('h, Room) svc" where
  "Service_Join tab s userID code =
     andThen (map_err (\<lambda>e. if e = ErrNotFound then room_not_found else e)
       (Store_GetActiveByCode (ToUpper tab (TrimSpace code)))) (\<lambda>room.
     andThen (Store_UpsertMember (RoomID room) userID) (\<lambda>_.
     case svc_rt s of None \<Rightarrow> ok room
     | Some rt \<Rightarrow>
       onErr (Store_GetMember (RoomID room) userID)
         (\<lambda>_. ok room)
         (\<lambda>member. andThen (notify s (\<lambda>rt. bc_MemberJoined rt (RoomID room) member)) (\<lambda>_. ok room))))"

section \<open>Reading a room\<close>

definition Service_Detail :: "'h Service \<Rightarrow> uuid \<Rightarrow> uuid \<Rightarrow> ('h, RoomDetail) svc" where
  "Service_Detail s roomID viewerID =
     andThen (Store_GetByID roomID) (\<lambda>r.
     andThen (Store_ListMembers roomID) (\<lambda>members.
     andThen (Store_GetDestination roomID) (\<lambda>dest.
     andThen (Store_GetPersonalMarker roomID viewerID) (\<lambda>pm.
     andThen (Store_ListStops roomID) (\<lambda>stops.
     asks (\<lambda>w. \<lparr>DetailRoom = r, DetailMembers = members, DetailDestination = dest,
       DetailPersonalMarker = pm, DetailStops = stops,
       DetailPresentUserIDs =
         (case svc_rt s of None \<Rightarrow> [] | Some rt \<Rightarrow> bc_PresentUserIDs rt roomID (w_rt w)),
       DetailEmergencyUserIDs =
         (case svc_rt s of None \<Rightarrow> [] | Some rt \<Rightarrow> bc_EmergencyUserIDs rt roomID (w_rt w))\<rparr>))))))"

definition Service_ListActiveForUser :: "'h Service \<Rightarrow> uuid \<Rightarrow> ('h, ActiveRoom list) svc" where
  "Service_ListActiveForUser s userID =
     andThen (Store_ListActiveRoomsForUser userID) (\<lambda>rooms.
     asks (\<lambda>w. map (\<lambda>r. r\<lparr>ActiveMemberCount :=
       (case svc_rt s of None \<Rightarrow> 0 | Some rt \<Rightarrow> bc_PresentCount rt (ActiveID r) (w_rt w))\<rparr>) rooms))"

section \<open>Authorisation\<close>

definition requireOwner :: "uuid \<Rightarrow> uuid \<Rightarrow> ('h, unit) svc" where
  "requireOwner roomID actorID =
     andThen (map_err (\<lambda>e. if e = ErrNotFound then ErrForbidden else e)
       (Store_ActiveMembership roomID actorID)) (\<lambda>(role, muted).
     if role \<noteq> RoleOwner then fail ErrForbidden else ok ())"

definition AssertMember :: "uuid \<Rightarrow> uuid \<Rightarrow> ('h, string) svc" where
  "AssertMember roomID userID =
     andThen (map_err (\<lambda>e. if e = ErrNotFound then ErrForbidden else e)
       (Store_ActiveMembership roomID userID)) (\<lambda>(role, muted). ok role)"

section \<open>The shared destination\<close>

definition Service_SetDestination ::
  "'h Service \<Rightarrow> uuid \<Rightarrow> uuid \<Rightarrow> float64 \<Rightarrow> float64 \<Rightarrow> string option \<Rightarrow> string option \<Rightarrow> ('h, Destination) svc" where
  "Service_SetDestination s roomID actorID lat lng name notes =
     andThen (requireOwner roomID actorID) (\<lambda>_.
     if bad_coords lat lng then fail invalid_coords
     else andThen (Store_SetDestination roomID actorID lat lng (trimLabel name) (trimNotes notes)) (\<lambda>d.
     andThen (notify s (\<lambda>rt. bc_Destination rt roomID (Some d))) (\<lambda>_.
     ok d)))"

definition Service_UpdateDestinationMeta ::
  "'h Service \<Rightarrow> uuid \<Rightarrow> uuid \<Rightarrow> string option \<Rightarrow> string option \<Rightarrow> ('h, Destination) svc" where
  "Service_UpdateDestinationMeta s roomID actorID name notes =
     andThen (requireOwner roomID actorID) (\<lambda>_.
     andThen (Store_UpdateDestinationMeta roomID (trimLabel name) (trimNotes notes)) (\<lambda>d.
     andThen (notify s (\<lambda>rt. bc_Destination rt roomID (Some d))) (\<lambda>_.
     ok d)))"

definition Service_ClearDestination :: "'h Service \<Rightarrow> uuid \<Rightarrow> uuid \<Rightarrow> ('h, unit) svc" where
  "Service_ClearDestination s roomID actorID =
     andThen (requireOwner roomID actorID) (\<lambda>_.
     andThen (Store_ClearDestination roomID) (\<lambda>_.
     andThen (Store_ClearStops roomID) (\<lambda>_.
     andThen (notify s (\<lambda>rt. bc_Destination rt roomID None)) (\<lambda>_.
     notify s (\<lambda>rt. bc_Stops rt roomID [])))))"

section \<open>Personal markers\<close>

definition Service_SetPersonalMarker ::
  "uuid \<Rightarrow> uuid \<Rightarrow> float64 \<Rightarrow> float64 \<Rightarrow> string option \<Rightarrow> ('h, PersonalMarker) svc" where
  "Service_SetPersonalMarker roomID userID lat lng label =
     andThen (AssertMember roomID userID) (\<lambda>_.
     if bad_coords lat lng then fail invalid_coords
     else Store_UpsertPersonalMarker roomID userID lat lng (trimLabel label))"

definition Service_ClearPersonalMarker :: "uuid \<Rightarrow> uuid \<Rightarrow> ('h, unit) svc" where
  "Service_ClearPersonalMarker roomID userID =
     andThen (AssertMember roomID userID) (\<lambda>_. Store_DeletePersonalMarker roomID userID)"

section \<open>Stops\<close>

definition broadcastStops :: "'h Service \<Rightarrow> uuid \<Rightarrow> ('h, unit) svc" where
  "broadcastStops s roomID =
     (case svc_rt s of None \<Rightarrow> ok ()
      | Some rt \<Rightarrow> onErr (Store_ListStops roomID) (\<lambda>_. ok ()) (\<lambda>stops. notify s (\<lambda>rt. bc_Stops rt roomID stops)))"

definition Service_AddStop ::
  "'h Service \<Rightarrow> uuid \<Rightarrow> uuid \<Rightarrow> float64 \<Rightarrow> float64 \<Rightarrow> string option \<Rightarrow> ('h, Stop) svc" where
  "Service_AddStop s roomID actorID lat lng label =
     andThen (requireOwner roomID actorID) (\<lambda>_.
     if bad_coords lat lng then fail invalid_coords
     else andThen (Store_AddStop roomID actorID lat lng (trimLabel label)) (\<lambda>stop.
     andThen (broadcastStops s roomID) (\<lambda>_.
     ok stop)))"

definition Service_UpdateStopLabel ::
  "'h Service \<Rightarrow> uuid \<Rightarrow> uuid \<Rightarrow> uuid \<Rightarrow> string option \<Rightarrow> ('h, Stop) svc" where
  "Service_UpdateStopLabel s roomID actorID stopID label =
     andThen (requireOwner roomID actorID) (\<lambda>_.
     andThen (Store_UpdateStopLabel roomID stopID (trimLabel label)) (\<lambda>stop.
     andThen (broadcastStops s roomID) (\<lambda>_.
     ok stop)))"

definition Service_RemoveStop :: "'h Service \<Rightarrow> uuid \<Rightarrow> uuid \<Rightarrow> uuid \<Rightarrow> ('h, unit) svc" where
  "Service_RemoveStop s roomID actorID stopID =
     andThen (requireOwner roomID actorID) (\<lambda>_.
     andThen (Store_RemoveStop roomID stopID) (\<lambda>_.
     broadcastStops s roomID))"

definition Service_ClearStops :: "'h Service \<Rightarrow> uuid \<Rightarrow> uuid \<Rightarrow> ('h, unit) svc" where
  "Service_ClearStops s roomID actorID =
     andThen (requireOwner roomID actorID) (\<lambda>_.
     andThen (Store_ClearStops roomID) (\<lambda>_.
     broadcastStops s roomID))"

section \<open>Name, ownership and membership\<close>

definition invalid_name :: go_error where
  "invalid_name = Err 400 ''invalid_name''
     (''room name must be 1'' @ [CHR 0xE2, CHR 0x80, CHR 0x93] @ ''40 characters'')"

definition Service_Rename :: "'h Service \<Rightarrow> uuid \<Rightarrow> uuid \<Rightarrow> string \<Rightarrow> ('h, Room) svc" where
  "Service_Rename s roomID actorID name =
     andThen (requireOwner roomID actorID) (\<lambda>_.
     let name' = TrimSpace name; n = RuneCountInString name' in
     if n < minRoomNameLen \<or> n > maxRoomNameLen then fail invalid_name
     else andThen (Store_UpdateName roomID (Some name')) (\<lambda>room.
     andThen (notify s (\<lambda>rt. bc_RoomRenamed rt roomID (RoomName room))) (\<lambda>_.
     ok room)))"

definition self_action :: "string \<Rightarrow> go_error" where
  "self_action msg = Err 400 ''self_action'' msg"

text \<open>The outgoing owner keeps the destination as a personal marker; every error of this step is dropped.\<close>

definition demote_destination :: "uuid \<Rightarrow> uuid \<Rightarrow> ('h, unit) svc" where
  "demote_destination roomID actorID =
     onErr (Store_GetDestination roomID) (\<lambda>_. ok ())
       (\<lambda>dest. case dest of None \<Rightarrow> ok ()
          | Some d \<Rightarrow> onErr (Store_UpsertPersonalMarker roomID actorID (DestLat d) (DestLng d) (DestName d))
              (\<lambda>_. ok ()) (\<lambda>_. ok ()))"

definition Service_TransferOwnership :: "'h Service \<Rightarrow> uuid \<Rightarrow> uuid \<Rightarrow> uuid \<Rightarrow> ('h, unit) svc" where
  "Service_TransferOwnership s roomID actorID targetID =
     andThen (requireOwner roomID actorID) (\<lambda>_.
     if actorID = targetID then fail (self_action ''you are already the owner'')
     else andThen (AssertMember roomID targetID) (\<lambda>_.
     andThen (demote_destination roomID actorID) (\<lambda>_.
     andThen (Store_TransferOwnership roomID actorID targetID) (\<lambda>_.
     notify s (\<lambda>rt. bc_OwnerChanged rt roomID targetID actorID)))))"

definition Service_Leave :: "'h Service \<Rightarrow> uuid \<Rightarrow> uuid \<Rightarrow> ('h, unit) svc" where
  "Service_Leave s roomID userID =
     andThen (Store_MarkLeft roomID userID) (\<lambda>_.
     andThen (notify s (\<lambda>rt. bc_MemberLeft rt roomID userID)) (\<lambda>_.
     notify s (\<lambda>rt. bc_DisconnectUser rt roomID userID)))"

definition Service_Mute :: "'h Service \<Rightarrow> uuid \<Rightarrow> uuid \<Rightarrow> uuid \<Rightarrow> bool \<Rightarrow> ('h, unit) svc" where
  "Service_Mute s roomID actorID targetID muted =
     andThen (requireOwner roomID actorID) (\<lambda>_.
     if actorID = targetID then fail (self_action ''cannot moderate yourself'')
     else andThen (Store_SetMuted roomID targetID muted) (\<lambda>_.
     notify s (\<lambda>rt. bc_Mute rt roomID targetID muted actorID)))"

definition Service_Kick :: "'h Service \<Rightarrow> uuid \<Rightarrow> uuid \<Rightarrow> uuid \<Rightarrow> ('h, unit) svc" where
  "Service_Kick s roomID actorID targetID =
     andThen (requireOwner roomID actorID) (\<lambda>_.
     if actorID = targetID then fail (self_action ''cannot kick yourself'')
     else andThen (Store_Kick roomID targetID) (\<lambda>_.
     notify s (\<lambda>rt. bc_KickConnection rt roomID targetID actorID)))"

definition Service_End :: "'h Service \<Rightarrow> uuid \<Rightarrow> uuid \<Rightarrow> ('h, unit) svc" where
  "Service_End s roomID actorID =
     andThen (requireOwner roomID actorID) (\<lambda>_.
     andThen (Store_EndRoom roomID) (\<lambda>_.
     notify s (\<lambda>rt. bc_RoomEnded rt roomID)))"

section \<open>Chat\<close>

definition empty_message :: go_error where
  "empty_message = Err 400 ''empty_message'' ''message cannot be empty''"

definition message_too_long :: go_error where
  "message_too_long = Err 400 ''message_too_long'' ''message is too long''"

definition Service_PostMessage :: "'h Service \<Rightarrow> uuid \<Rightarrow> uuid \<Rightarrow> string \<Rightarrow> ('h, Message) svc" where
  "Service_PostMessage s roomID userID body =
     andThen (AssertMember roomID userID) (\<lambda>_.
     let body' = TrimSpace body in
     if body' = [] then fail empty_message
     else if RuneCountInString body' > maxMessageLen then fail message_too_long
     else andThen (Store_CreateMessage roomID userID body') (\<lambda>msg.
     andThen (notify s (\<lambda>rt. bc_ChatMessage rt roomID msg)) (\<lambda>_.
     ok msg)))"

definition page_limit :: "int \<Rightarrow> int" where
  "page_limit limit = (if limit \<le> 0 \<or> limit > maxMessagePage then defaultMessagePage else limit)"

definition Service_ListMessages :: "uuid \<Rightarrow> uuid \<Rightarrow> uuid option \<Rightarrow> int \<Rightarrow> ('h, Message list) svc" where
  "Service_ListMessages roomID userID beforeID limit =
     andThen (AssertMember roomID userID) (\<lambda>_. Store_ListMessages roomID beforeID (page_limit limit))"

end
