(* ===== verification/RoomSafety.thy ===== *)
theory RoomSafety
  imports RoomService
begin

text \<open>
  The room service as a system of requests: every request as a value, what it
  answers, and the states reachable from a fresh database.  Every request keeps
  the invariant of the tables; the owner-only requests change nothing for
  anybody else.
\<close>

section \<open>Rules for the service's building blocks\<close>

lemma keeps_rand_Int [keeps_intros]: "keeps (\<lambda>w. I (w_db w)) (rand_Int n)"
  by (rule keepsI) (simp add: rand_Int_def split: sum.splits)

lemma keeps_notify [keeps_intros]: "keeps (\<lambda>w. I (w_db w)) (notify s f)"
  unfolding notify_def by (intro keeps_intros keeps_effect) simp

lemma keeps_generate_digits [keeps_intros]: "keeps (\<lambda>w. I (w_db w)) (generate_digits n)"
  by (induction n) (simp_all add: keeps_intros)

lemma keeps_generateCode [keeps_intros]: "keeps (\<lambda>w. I (w_db w)) generateCode"
  unfolding generateCode_def by (intro keeps_intros)

lemma keeps_case_prod [keeps_intros]: "(\<And>x y. keeps I (k x y)) \<Longrightarrow> keeps I (case z of (x, y) \<Rightarrow> k x y)"
  by (cases z) simp

lemma keeps_guards [keeps_intros]:
  "keeps (\<lambda>w. I (w_db w)) (requireOwner roomID actorID)"
  "keeps (\<lambda>w. I (w_db w)) (AssertMember roomID actorID)"
  unfolding requireOwner_def AssertMember_def by (intro keeps_intros)+

lemma keeps_broadcastStops [keeps_intros]: "keeps (\<lambda>w. I (w_db w)) (broadcastStops s roomID)"
  unfolding broadcastStops_def by (intro keeps_intros)

lemma keeps_create_loop [keeps_intros]: "keeps (\<lambda>w. db_ok (w_db w)) (create_loop k ownerID name)"
  by (induction k) (simp_all add: keeps_intros)

text \<open>The user who may act on a room: an active member with the owner role.\<close>

definition is_owner :: "db \<Rightarrow> uuid \<Rightarrow> uuid \<Rightarrow> bool" where
  "is_owner d roomID u \<longleftrightarrow>
     (case List.find (active_member roomID u) (t_room_members d) of
        None \<Rightarrow> False | Some m \<Rightarrow> rm_role m = RoleOwner)"

definition is_member :: "db \<Rightarrow> uuid \<Rightarrow> uuid \<Rightarrow> bool" where
  "is_member d roomID u \<longleftrightarrow> (\<exists>m \<in> set (t_room_members d). active_member roomID u m)"

text \<open>Reads change neither the tables nor the broadcaster.\<close>

abbreviation same_state :: "'h rworld \<Rightarrow> 'h rworld \<Rightarrow> bool" where
  "same_state w w' \<equiv> w_db w' = w_db w \<and> w_rt w' = w_rt w"

lemma rworld_more: "world.more w' = world.more w \<Longrightarrow> w_rt w' = w_rt w"
  for w w' :: "'h rworld"
  by (cases w; cases w') (simp add: world.defs)

lemma stmt_rt [simp]: "w_rt (snd (stmt q w)) = w_rt w"
  for w :: "'h rworld"
  by (rule rworld_more) simp

lemma tx_stmt_rt [simp]: "w_rt (snd (tx_stmt now q w)) = w_rt w"
  for w :: "'h rworld"
  by (rule rworld_more) simp

lemma advance_rt [simp]: "w_rt (advance w) = w_rt w"
  by (simp add: advance_def)

lemma rollback_rt [simp]: "w_rt (rollback d w) = w_rt w"
  by (simp add: rollback_def)

text \<open>Statements and transactions leave the broadcaster alone.\<close>

lemma keeps_stmt_rt [keeps_intros]: "keeps (\<lambda>v :: 'h rworld. P (w_rt v)) (stmt q)"
  by (rule keepsI) simp

lemma keeps_tx_stmt_rt [keeps_intros]: "keeps (\<lambda>v :: 'h rworld. P (w_rt v)) (tx_stmt now q)"
  by (rule keepsI) simp

lemma keeps_tx_rt [keeps_intros]:
  fixes body :: "timestamp \<Rightarrow> ('h, 'a) svc"
  assumes "\<And>now. keeps (\<lambda>v. P (w_rt v)) (body now)"
  shows "keeps (\<lambda>v. P (w_rt v)) (tx body)"
proof (rule keepsI)
  fix w :: "'h rworld" assume w: "P (w_rt w)"
  have "P (w_rt (snd (body now ((advance w)\<lparr>w_aborted := False\<rparr>))))" for now
    by (rule keepsD [OF assms]) (use w in simp)
  with w show "P (w_rt (snd (tx body w)))"
    by (auto simp: tx_def split: option.splits sum.splits prod.splits) (metis snd_conv)+
qed

lemma stmt_row_cases:
  fixes w :: "'h rworld"
  assumes "stmt (sql_row f) w = (r, w')"
  obtains (found) x where "r = Inr x" "f (w_db w) = Some x" "w_db w' = w_db w" "w_rt w' = w_rt w"
  | (failed) e where "r = Inl e" "w_db w' = w_db w" "w_rt w' = w_rt w" "e = ErrNoRows \<Longrightarrow> f (w_db w) = None"
  using assms stmt_rt [of "sql_row f" w]
  by (auto simp: stmt_def sql_row_def split: option.splits sum.splits)


lemma calm_rt [simp]: "calm (w\<lparr>w_rt := h\<rparr>) = calm w" "calm (w\<lparr>w_rand_pos := n\<rparr>) = calm w"
  by (simp_all add: calm_def)

lemma ActiveMembership_InrD:
  fixes w :: "'h rworld"
  assumes "Store_ActiveMembership roomID u w = (Inr (role, muted), w')"
  obtains m where "List.find (active_member roomID u) (t_room_members (w_db w)) = Some m"
    "role = rm_role m" "same_state w w'"
  using assms unfolding Store_ActiveMembership_def by (auto dest!: map_err_InrD elim!: stmt_row_cases)

lemma ActiveMembership_InlD:
  fixes w :: "'h rworld"
  assumes "Store_ActiveMembership roomID u w = (Inl e, w')"
  shows "same_state w w'"
  using assms unfolding Store_ActiveMembership_def by (auto dest!: map_err_InlD elim!: stmt_row_cases)

lemma requireOwner_InrD: "requireOwner roomID u w = (Inr (), w') \<Longrightarrow> is_owner (w_db w) roomID u \<and> same_state w w'"
  unfolding requireOwner_def
  by (auto simp: fail_def ok_def is_owner_def elim!: andThen_InrE ActiveMembership_InrD dest!: map_err_InrD split: if_splits)

lemma requireOwner_InlD: "requireOwner roomID u w = (Inl e, w') \<Longrightarrow> same_state w w'"
  unfolding requireOwner_def
  by (auto simp: fail_def ok_def elim!: ActiveMembership_InrD dest!: andThen_InlD map_err_InlD map_err_InrD ActiveMembership_InlD
      split: if_splits)

lemma requireOwner_calm:
  "calm w \<Longrightarrow> requireOwner roomID u w = (if is_owner (w_db w) roomID u then Inr () else Inl ErrForbidden, advance w)"
  unfolding requireOwner_def Store_ActiveMembership_def andThen_def onErr_def
  by (auto simp: map_err_run [OF stmt_row_calm] map_err_run [OF map_err_run [OF stmt_row_calm]] is_owner_def no_rows_as_def fail_def ok_def split: option.splits)

lemma AssertMember_InrD: "AssertMember roomID u w = (Inr role, w') \<Longrightarrow> is_member (w_db w) roomID u \<and> same_state w w'"
  unfolding AssertMember_def
  by (auto simp: ok_def is_member_def elim!: andThen_InrE ActiveMembership_InrD dest!: map_err_InrD find_SomeD)

lemma AssertMember_InlD: "AssertMember roomID u w = (Inl e, w') \<Longrightarrow> same_state w w'"
  unfolding AssertMember_def
  by (auto simp: ok_def elim!: ActiveMembership_InrD dest!: andThen_InlD map_err_InlD map_err_InrD ActiveMembership_InlD)

lemma AssertMember_calm:
  "calm w \<Longrightarrow> AssertMember roomID u w =
     (case List.find (active_member roomID u) (t_room_members (w_db w)) of
        None \<Rightarrow> Inl ErrForbidden | Some m \<Rightarrow> Inr (rm_role m), advance w)"
  unfolding AssertMember_def Store_ActiveMembership_def andThen_def onErr_def
  by (auto simp: map_err_run [OF map_err_run [OF stmt_row_calm]] no_rows_as_def fail_def ok_def split: option.splits)


section \<open>The invariant under every request\<close>

lemma is_owner_row:
  assumes d: "db_ok d" and o: "is_owner d roomID u" and r: "r \<in> set (t_rooms d)" "r_id r = roomID"
  shows "r_owner_id r = u"
proof -
  obtain m where "m \<in> set (t_room_members d)" "is_membership roomID u m" "rm_role m = RoleOwner"
    using o by (auto simp: is_owner_def active_member_def joined_def split: option.splits dest!: find_SomeD)
  then have "(roomID, u) \<in> member_key ` set (filter (\<lambda>m. rm_role m = RoleOwner) (t_room_members d))"
    by (force simp: is_membership_def)
  then have "(roomID, u) \<in> (\<lambda>r. (r_id r, r_owner_id r)) ` set (t_rooms d)"
    using db_okD(4)[OF d, unfolded owners_ok_def] by (simp only:)
  then obtain r' where "r' \<in> set (t_rooms d)" "r_id r' = roomID" "r_owner_id r' = u" by auto
  with r distinct_map_unique [OF keys_okD(2)[OF d], of r' r] show ?thesis by simp
qed

lemma upsert_marker_rooms:
  "upsert_marker roomID userID lat lng label now uid d = Inr (x, d') \<Longrightarrow> t_rooms d' = t_rooms d"
  by (auto simp: upsert_marker_def Let_def split: if_splits)

lemma keeps_TransferOwnership [keeps_intros]:
  "keeps (\<lambda>w. db_ok (w_db w)) (Service_TransferOwnership s roomID actorID targetID)"
proof -
  define own where "own = (\<lambda>d. db_ok d \<and> (\<forall>r \<in> set (t_rooms d). r_id r = roomID \<longrightarrow> r_owner_id r = actorID))"
  have marker: "keeps (\<lambda>w. own (w_db w)) (Store_UpsertPersonalMarker roomID actorID lat lng label)" for lat lng label
    unfolding Store_UpsertPersonalMarker_def
    by (rule keeps_stmt) (auto simp: own_def dest: db_ok_upsert_marker upsert_marker_rooms)
  have owner: "triple (\<lambda>w. db_ok (w_db w)) (requireOwner roomID actorID) (\<lambda>_ w. own (w_db w)) (\<lambda>_ w. db_ok (w_db w))"
    by (rule tripleI) (auto simp: own_def dest!: requireOwner_InrD dest: requireOwner_InlD is_owner_row)
  have t: "triple (\<lambda>w. own (w_db w)) (Store_TransferOwnership roomID actorID targetID)
      (\<lambda>_ w. db_ok (w_db w)) (\<lambda>_ w. db_ok (w_db w))" if "actorID \<noteq> targetID"
    using that TransferOwnership_db_ok [of _ roomID actorID targetID]
    by (intro tripleI) (fastforce simp: own_def)+
  have mid: "keeps (\<lambda>w. own (w_db w)) (demote_destination roomID actorID)"
    unfolding demote_destination_def by (intro keeps_intros marker)
  have weak: "triple (\<lambda>w. own (w_db w)) m (\<lambda>_ w. own (w_db w)) (\<lambda>_ w. db_ok (w_db w))"
    if "keeps (\<lambda>w. own (w_db w)) m" for m :: "('b, 'c) svc"
    using that unfolding keeps_triple by (rule triple_conseq) (simp_all add: own_def)
  show ?thesis unfolding keeps_triple Service_TransferOwnership_def
    by (intro triple_andThen [OF owner] triple_if triple_fail triple_andThen [OF weak] keeps_guards
        triple_andThen [OF weak [OF mid]] triple_andThen [OF t] keeps_notify [unfolded keeps_triple]) (simp_all add: own_def)
qed


text \<open>A request of an authenticated user, one constructor per method of the service.\<close>

datatype room_op =
    OpCreate "string option"
  | OpJoin string
  | OpDetail uuid
  | OpListActive
  | OpSetDestination uuid float64 float64 "string option" "string option"
  | OpUpdateDestinationMeta uuid "string option" "string option"
  | OpClearDestination uuid
  | OpSetPersonalMarker uuid float64 float64 "string option"
  | OpClearPersonalMarker uuid
  | OpAddStop uuid float64 float64 "string option"
  | OpUpdateStopLabel uuid uuid "string option"
  | OpRemoveStop uuid uuid
  | OpClearStops uuid
  | OpRename uuid string
  | OpTransferOwnership uuid uuid
  | OpLeave uuid
  | OpMute uuid uuid bool
  | OpKick uuid uuid
  | OpEnd uuid
  | OpPostMessage uuid string
  | OpListMessages uuid "uuid option" int

text \<open>Serving a request: the error it reports, if any, and the state it leaves.\<close>

definition outcome :: "('e + 'a) \<times> 'w \<Rightarrow> 'e option \<times> 'w" where
  "outcome p = (case p of (Inl e, w) \<Rightarrow> (Some e, w) | (Inr x, w) \<Rightarrow> (None, w))"

fun serve :: "(nat \<Rightarrow> nat) \<Rightarrow> 'h Service \<Rightarrow> uuid \<Rightarrow> room_op \<Rightarrow> 'h rworld \<Rightarrow> go_error option \<times> 'h rworld" where
  "serve tab s u (OpCreate name) w = outcome (Service_Create u name w)"
| "serve tab s u (OpJoin code) w = outcome (Service_Join tab s u code w)"
| "serve tab s u (OpDetail r) w = outcome (Service_Detail s r u w)"
| "serve tab s u OpListActive w = outcome (Service_ListActiveForUser s u w)"
| "serve tab s u (OpSetDestination r lat lng name notes) w =
     outcome (Service_SetDestination s r u lat lng name notes w)"
| "serve tab s u (OpUpdateDestinationMeta r name notes) w = outcome (Service_UpdateDestinationMeta s r u name notes w)"
| "serve tab s u (OpClearDestination r) w = outcome (Service_ClearDestination s r u w)"
| "serve tab s u (OpSetPersonalMarker r lat lng label) w = outcome (Service_SetPersonalMarker r u lat lng label w)"
| "serve tab s u (OpClearPersonalMarker r) w = outcome (Service_ClearPersonalMarker r u w)"
| "serve tab s u (OpAddStop r lat lng label) w = outcome (Service_AddStop s r u lat lng label w)"
| "serve tab s u (OpUpdateStopLabel r st label) w = outcome (Service_UpdateStopLabel s r u st label w)"
| "serve tab s u (OpRemoveStop r st) w = outcome (Service_RemoveStop s r u st w)"
| "serve tab s u (OpClearStops r) w = outcome (Service_ClearStops s r u w)"
| "serve tab s u (OpRename r name) w = outcome (Service_Rename s r u name w)"
| "serve tab s u (OpTransferOwnership r t) w = outcome (Service_TransferOwnership s r u t w)"
| "serve tab s u (OpLeave r) w = outcome (Service_Leave s r u w)"
| "serve tab s u (OpMute r t muted) w = outcome (Service_Mute s r u t muted w)"
| "serve tab s u (OpKick r t) w = outcome (Service_Kick s r u t w)"
| "serve tab s u (OpEnd r) w = outcome (Service_End s r u w)"
| "serve tab s u (OpPostMessage r body) w = outcome (Service_PostMessage s r u body w)"
| "serve tab s u (OpListMessages r before limit) w = outcome (Service_ListMessages r u before limit w)"

lemma snd_outcome [simp]: "snd (outcome p) = snd p"
  by (cases p) (auto simp: outcome_def split: sum.splits)

lemma keeps_Let [keeps_intros]: "keeps I (f x) \<Longrightarrow> keeps I (Let x f)"
  by simp

lemma keeps_service [keeps_intros]:
  "keeps (\<lambda>w. db_ok (w_db w)) (Service_Create u name)"
  "keeps (\<lambda>w. db_ok (w_db w)) (Service_Join tab s u code)"
  "keeps (\<lambda>w. db_ok (w_db w)) (Service_Detail s r u)"
  "keeps (\<lambda>w. db_ok (w_db w)) (Service_ListActiveForUser s u)"
  "keeps (\<lambda>w. db_ok (w_db w)) (Service_SetDestination s r u lat lng name notes)"
  "keeps (\<lambda>w. db_ok (w_db w)) (Service_UpdateDestinationMeta s r u name notes)"
  "keeps (\<lambda>w. db_ok (w_db w)) (Service_ClearDestination s r u)"
  "keeps (\<lambda>w. db_ok (w_db w)) (Service_SetPersonalMarker r u lat lng label)"
  "keeps (\<lambda>w. db_ok (w_db w)) (Service_ClearPersonalMarker r u)"
  "keeps (\<lambda>w. db_ok (w_db w)) (Service_AddStop s r u lat lng label)"
  "keeps (\<lambda>w. db_ok (w_db w)) (Service_UpdateStopLabel s r u st label)"
  "keeps (\<lambda>w. db_ok (w_db w)) (Service_RemoveStop s r u st)"
  "keeps (\<lambda>w. db_ok (w_db w)) (Service_ClearStops s r u)"
  "keeps (\<lambda>w. db_ok (w_db w)) (Service_Rename s r u rname)"
  "keeps (\<lambda>w. db_ok (w_db w)) (Service_Leave s r u)"
  "keeps (\<lambda>w. db_ok (w_db w)) (Service_Mute s r u t muted)"
  "keeps (\<lambda>w. db_ok (w_db w)) (Service_Kick s r u t)"
  "keeps (\<lambda>w. db_ok (w_db w)) (Service_End s r u)"
  "keeps (\<lambda>w. db_ok (w_db w)) (Service_PostMessage s r u body)"
  "keeps (\<lambda>w. db_ok (w_db w)) (Service_ListMessages r u before limit)"
  unfolding Service_Create_def Service_Join_def Service_Detail_def Service_ListActiveForUser_def
    Service_SetDestination_def Service_UpdateDestinationMeta_def Service_ClearDestination_def
    Service_SetPersonalMarker_def Service_ClearPersonalMarker_def Service_AddStop_def Service_UpdateStopLabel_def
    Service_RemoveStop_def Service_ClearStops_def Service_Rename_def Service_Leave_def Service_Mute_def
    Service_Kick_def Service_End_def Service_PostMessage_def Service_ListMessages_def
  by (intro keeps_intros)+

lemma serve_db_ok: "db_ok (w_db w) \<Longrightarrow> db_ok (w_db (snd (serve tab s u op w)))"
  by (cases op) (simp_all add: keepsD [OF keeps_service(1)] keepsD [OF keeps_service(2)] keepsD [OF keeps_service(3)]
      keepsD [OF keeps_service(4)] keepsD [OF keeps_service(5)] keepsD [OF keeps_service(6)] keepsD [OF keeps_service(7)]
      keepsD [OF keeps_service(8)] keepsD [OF keeps_service(9)] keepsD [OF keeps_service(10)]
      keepsD [OF keeps_service(11)] keepsD [OF keeps_service(12)] keepsD [OF keeps_service(13)]
      keepsD [OF keeps_service(14)] keepsD [OF keeps_service(15)] keepsD [OF keeps_service(16)]
      keepsD [OF keeps_service(17)] keepsD [OF keeps_service(18)] keepsD [OF keeps_service(19)]
      keepsD [OF keeps_service(20)] keepsD [OF keeps_TransferOwnership])

text \<open>
  The states the room service can be in: from the migrated database, by serving
  requests, by accounts being created or edited (their identifiers stay), and
  by any change on the realtime side.
\<close>

inductive rooms_reach :: "(nat \<Rightarrow> nat) \<Rightarrow> 'h Service \<Rightarrow> 'h rworld \<Rightarrow> bool" for tab s where
  start: "w_db w = init_db now \<Longrightarrow> rooms_reach tab s w"
| request: "rooms_reach tab s w \<Longrightarrow> rooms_reach tab s (snd (serve tab s u op w))"
| signup: "rooms_reach tab s w \<Longrightarrow> u_id usr \<notin> u_id ` set (t_users (w_db w)) \<Longrightarrow>
    rooms_reach tab s (w\<lparr>w_db := (w_db w)\<lparr>t_users := t_users (w_db w) @ [usr]\<rparr>\<rparr>)"
| profile: "rooms_reach tab s w \<Longrightarrow> map u_id us = map u_id (t_users (w_db w)) \<Longrightarrow>
    rooms_reach tab s (w\<lparr>w_db := (w_db w)\<lparr>t_users := us\<rparr>\<rparr>)"
| realtime: "rooms_reach tab s w \<Longrightarrow> rooms_reach tab s (w\<lparr>w_rt := h\<rparr>)"

lemma db_ok_more_users:
  assumes d: "db_ok d" and us: "distinct (map u_id us)" "u_id ` set (t_users d) \<subseteq> u_id ` set us"
  shows "db_ok (d\<lparr>t_users := us\<rparr>)"
proof -
  have ex: "user_exists (d\<lparr>t_users := us\<rparr>) u" if "user_exists d u" for u
    using that us(2) by (auto simp: user_exists_def)
  then have opt: "pred_option (user_exists (d\<lparr>t_users := us\<rparr>)) v" if "pred_option (user_exists d) v" for v
    using that by (cases v) auto
  show ?thesis using d us(1) ex opt by (simp add: db_ok_def keys_ok_def refs_ok_def)
qed

lemma rooms_reach_db_ok: "rooms_reach tab s w \<Longrightarrow> db_ok (w_db w)"
proof (induction rule: rooms_reach.induct)
  case (start w now)
  then show ?case by (simp add: init_db_ok)
next
  case (request w u op)
  then show ?case by (simp add: serve_db_ok)
next
  case (signup w usr)
  then show ?case using keys_okD(1)[of "w_db w"] by (auto intro!: db_ok_more_users)
next
  case (profile w us)
  from arg_cong [OF profile(2), of set] have "u_id ` set us = u_id ` set (t_users (w_db w))" by (simp only: set_map)
  with profile keys_okD(1)[of "w_db w"] show ?case by (simp add: db_ok_more_users)
qed simp

end
