(* ===== verification/Auth.thy ===== *)
theory Auth
  imports Database "HOL-Library.Sublist"
begin

text \<open>
  \<open>internal/auth/auth.go\<close> and \<open>internal/auth/providers\<close>: session
  tokens, the authentication middleware, guest and OAuth sign-in, profile
  edits and account deletion.  The JWT library, the JWKS key sets and the text
  form of UUIDs are not part of the repository: they are the fields of
  \<open>libs\<close>, an argument of the definitions that call them.
\<close>

section \<open>Third-party code as parameters\<close>

text \<open>The values a JSON claim can have, and a claims map.\<close>

datatype claim = CStr string | CBool bool | CNum int | COther

type_synonym MapClaims = "string \<Rightarrow> claim option"

text \<open>
  \<open>jwt_Parse now keyfunc token\<close> is \<open>jwt.Parse\<close> at the time \<open>now\<close>: the
  key function is asked with whether the token's method is an HMAC method and
  gives the key or an error; the result is an error or the token's validity and
  claims.  \<open>jwt_ParseWithClaims now methods token\<close> is
  \<open>jwt.ParseWithClaims\<close> with the provider's key set, the valid methods and a
  required expiry.  \<open>jwt_SignedString secret claims\<close> signs with HS256.
\<close>

record libs =
  jwt_Parse :: "timestamp \<Rightarrow> (bool \<Rightarrow> string + string) \<Rightarrow> string \<Rightarrow> string + bool \<times> MapClaims"
  jwt_ParseWithClaims :: "timestamp \<Rightarrow> string list \<Rightarrow> string \<Rightarrow> string + bool \<times> MapClaims"
  jwt_SignedString :: "string \<Rightarrow> MapClaims \<Rightarrow> string + string"
  uuid_Parse :: "string \<Rightarrow> string + uuid"
  uuid_String :: "uuid \<Rightarrow> string"

definition claim_str :: "MapClaims \<Rightarrow> string \<Rightarrow> string" where
  "claim_str claims k = (case claims k of Some (CStr s) \<Rightarrow> s | _ \<Rightarrow> [])"

section \<open>Provider verifiers\<close>

record Identity =
  IdProvider :: string
  IdSubject :: string
  IdEmail :: string
  IdDisplayName :: string
  IdAvatarURL :: string

definition ErrInvalidToken :: go_error where
  "ErrInvalidToken = OtherError ''invalid id token''"

definition googleIssuers :: "string list" where
  "googleIssuers = [''https://accounts.google.com'', ''accounts.google.com'']"

definition AppleIssuer :: string where
  "AppleIssuer = ''https://appleid.apple.com''"

text \<open>\<open>claims.GetExpirationTime\<close> and the comparison with the clock (microseconds).\<close>

definition expired :: "MapClaims \<Rightarrow> timestamp \<Rightarrow> bool" where
  "expired claims now = (case claims ''exp'' of Some (CNum e) \<Rightarrow> e \<noteq> 0 \<and> now > e * 1000000 | _ \<Rightarrow> False)"

definition google_email :: "MapClaims \<Rightarrow> string" where
  "google_email claims =
     (case claims ''email'' of
        Some (CStr e) \<Rightarrow>
          (case claims ''email_verified'' of
             Some (CBool v) \<Rightarrow> if v then e else []
           | Some (CStr v) \<Rightarrow> if v = ''true'' then e else []
           | _ \<Rightarrow> [])
      | _ \<Rightarrow> [])"

definition apple_email :: "MapClaims \<Rightarrow> string" where
  "apple_email claims =
     (case claims ''email'' of
        Some (CStr e) \<Rightarrow>
          (case claims ''email_verified'' of
             Some (CBool v) \<Rightarrow> if v then e else []
           | Some (CStr v) \<Rightarrow> if v = ''true'' then e else []
           | _ \<Rightarrow> e)
      | _ \<Rightarrow> [])"

definition GoogleVerifier_Verify :: "libs \<Rightarrow> string list \<Rightarrow> timestamp \<Rightarrow> string \<Rightarrow> go_error + Identity" where
  "GoogleVerifier_Verify L audiences now idToken =
     (let tok = TrimSpace idToken in
      if tok = [] then Inl ErrInvalidToken
      else case jwt_ParseWithClaims L now [''RS256''] tok of
        Inl _ \<Rightarrow> Inl ErrInvalidToken
      | Inr (valid, claims) \<Rightarrow>
        if \<not> valid then Inl ErrInvalidToken
        else if claim_str claims ''iss'' \<notin> set googleIssuers then Inl ErrInvalidToken
        else if claim_str claims ''aud'' \<notin> set audiences then Inl ErrInvalidToken
        else if claim_str claims ''sub'' = [] then Inl ErrInvalidToken
        else if expired claims now then Inl ErrInvalidToken
        else Inr \<lparr>IdProvider = ''google'', IdSubject = claim_str claims ''sub'', IdEmail = google_email claims,
                  IdDisplayName = claim_str claims ''name'', IdAvatarURL = claim_str claims ''picture''\<rparr>)"

definition AppleVerifier_Verify :: "libs \<Rightarrow> string list \<Rightarrow> timestamp \<Rightarrow> string \<Rightarrow> go_error + Identity" where
  "AppleVerifier_Verify L audiences now idToken =
     (let tok = TrimSpace idToken in
      if tok = [] then Inl ErrInvalidToken
      else case jwt_ParseWithClaims L now [''ES256''] tok of
        Inl _ \<Rightarrow> Inl ErrInvalidToken
      | Inr (valid, claims) \<Rightarrow>
        if \<not> valid then Inl ErrInvalidToken
        else if claim_str claims ''iss'' \<noteq> AppleIssuer then Inl ErrInvalidToken
        else if claim_str claims ''aud'' \<notin> set audiences then Inl ErrInvalidToken
        else if claim_str claims ''sub'' = [] then Inl ErrInvalidToken
        else if expired claims now then Inl ErrInvalidToken
        else Inr \<lparr>IdProvider = ''apple'', IdSubject = claim_str claims ''sub'', IdEmail = apple_email claims,
                  IdDisplayName = [], IdAvatarURL = []\<rparr>)"

section \<open>Users and the service\<close>

record User =
  UserID :: uuid
  UserDisplayName :: string
  UserAvatarURL :: "string option"
  UserEmail :: "string option"
  UserEntitlements :: string

text \<open>The configured service: secret, token lifetime (microseconds), provider audiences (\<open>None\<close>: not wired).\<close>

record AuthService =
  as_secret :: string
  as_ttl :: int
  as_google :: "string list option"
  as_apple :: "string list option"

definition scan_user :: "user_row \<Rightarrow> User" where
  "scan_user r = \<lparr>UserID = u_id r, UserDisplayName = u_display_name r, UserAvatarURL = u_avatar_url r,
     UserEmail = u_email r, UserEntitlements = u_entitlements r\<rparr>"

datatype auth_body = BToken string User | BUser User

text \<open>Unix seconds of a clock in microseconds.\<close>

definition unix :: "timestamp \<Rightarrow> int" where
  "unix t = t div 1000000"

definition Issue :: "libs \<Rightarrow> AuthService \<Rightarrow> timestamp \<Rightarrow> uuid \<Rightarrow> go_error + string" where
  "Issue L s now userID =
     (case jwt_SignedString L (as_secret s)
             [''sub'' \<mapsto> CStr (uuid_String L userID), ''exp'' \<mapsto> CNum (unix (now + as_ttl s)), ''iat'' \<mapsto> CNum (unix now)] of
        Inl msg \<Rightarrow> Inl (OtherError msg) | Inr tok \<Rightarrow> Inr tok)"

definition Verify :: "libs \<Rightarrow> AuthService \<Rightarrow> timestamp \<Rightarrow> string \<Rightarrow> go_error + uuid" where
  "Verify L s now tokenStr =
     (case jwt_Parse L now (\<lambda>hmac. if \<not> hmac then Inl ''unexpected signing method'' else Inr (as_secret s)) tokenStr of
        Inl _ \<Rightarrow> Inl (OtherError ''invalid token'')
      | Inr (valid, claims) \<Rightarrow>
        if \<not> valid then Inl (OtherError ''invalid token'')
        else (case uuid_Parse L (claim_str claims ''sub'') of
                Inl msg \<Rightarrow> Inl (OtherError msg) | Inr u \<Rightarrow> Inr u))"

definition live_user :: "db \<Rightarrow> uuid \<Rightarrow> user_row option" where
  "live_user d u = List.find (\<lambda>r. u_id r = u \<and> u_deleted_at r = None) (t_users d)"

definition LoadUser :: "uuid \<Rightarrow> ('z, User) dbcmd" where
  "LoadUser u = map_err (no_rows_as ErrUnauthorized) (stmt (sql_row (\<lambda>d. map_option scan_user (live_user d u))))"

definition Middleware ::
  "libs \<Rightarrow> AuthService \<Rightarrow> timestamp \<Rightarrow> string \<Rightarrow> (User \<Rightarrow> ('z world_scheme, 'b) handler) \<Rightarrow> ('z world_scheme, 'b) handler" where
  "Middleware L s now header nxt w =
     (if \<not> HasPrefix header ''Bearer '' then (WriteErr ErrUnauthorized, w)
      else case Verify L s now (TrimPrefix header ''Bearer '') of
        Inl _ \<Rightarrow> (WriteErr ErrUnauthorized, w)
      | Inr userID \<Rightarrow>
        (case LoadUser userID w of
           (Inl err, w') \<Rightarrow> (WriteErr err, w')
         | (Inr u, w') \<Rightarrow> nxt u w'))"

section \<open>Guests and profiles\<close>

record guestRequest =
  GuestDisplayName :: string
  GuestAvatarURL :: "string option"

definition new_user :: "uuid \<Rightarrow> string \<Rightarrow> string option \<Rightarrow> string option \<Rightarrow> timestamp \<Rightarrow> user_row" where
  "new_user uid name avatar email now = \<lparr>u_id = uid, u_display_name = name, u_avatar_url = avatar, u_created_at = now,
     u_email = email, u_entitlements = ''{}'', u_deleted_at = None\<rparr>"

definition insert_user :: "string \<Rightarrow> string option \<Rightarrow> string option \<Rightarrow> user_row sql" where
  "insert_user name avatar email now uid d =
     (if \<not> (pg_text name \<and> pg_text_opt avatar \<and> pg_text_opt email) then Inl bad_text
      else if user_exists d uid then Inl unique_violation
      else Inr (new_user uid name avatar email now, d\<lparr>t_users := t_users d @ [new_user uid name avatar email now]\<rparr>))"

definition name_required :: go_error where
  "name_required = Err 400 ''invalid_name'' ''displayName required''"

definition HandleGuest ::
  "libs \<Rightarrow> AuthService \<Rightarrow> timestamp \<Rightarrow> (string + guestRequest) \<Rightarrow> ('z world_scheme, auth_body) handler" where
  "HandleGuest L s now body = respond (
     andThen (result (Decode body)) (\<lambda>req.
     let name = TrimSpace (GuestDisplayName req) in
     if name = [] then fail name_required
     else
       (let name' = (if length name > 40 then take 40 name else name) in
        andThen (stmt (insert_user name' (GuestAvatarURL req) None)) (\<lambda>row.
        andThen (result (Issue L s now (u_id row))) (\<lambda>token.
        ok (JSON 201 (BToken token (scan_user row))))))))"

definition HandleMe :: "User option \<Rightarrow> ('w, auth_body) handler" where
  "HandleMe ctx = respond (case ctx of None \<Rightarrow> fail ErrUnauthorized | Some u \<Rightarrow> ok (JSON 200 (BUser u)))"

definition update_display_name :: "string \<Rightarrow> uuid \<Rightarrow> user_row sql" where
  "update_display_name name u now uid d =
     (if \<not> pg_text name then Inl bad_text
      else case live_user d u of
        None \<Rightarrow> Inl ErrNoRows
      | Some r \<Rightarrow> Inr (r\<lparr>u_display_name := name\<rparr>,
          d\<lparr>t_users := update_where (\<lambda>r. u_id r = u \<and> u_deleted_at r = None) (\<lambda>r. r\<lparr>u_display_name := name\<rparr>) (t_users d)\<rparr>))"

definition name_too_short :: go_error where
  "name_too_short = Err 400 ''name_too_short'' ''displayName must be at least 2 characters''"

definition HandlePatchMe :: "User option \<Rightarrow> (string + string) \<Rightarrow> ('z world_scheme, auth_body) handler" where
  "HandlePatchMe ctx body = respond (
     case ctx of None \<Rightarrow> fail ErrUnauthorized
     | Some u \<Rightarrow>
       andThen (result (Decode body)) (\<lambda>displayName.
       let name = TrimSpace displayName in
       if name = [] then fail name_required
       else if RuneCountInString name < 2 then fail name_too_short
       else
         (let name' = (if RuneCountInString name > 40 then string_of_runes (take 40 (runes name)) else name) in
          andThen (map_err (no_rows_as ErrUnauthorized) (stmt (update_display_name name' (UserID u)))) (\<lambda>row.
          ok (JSON 200 (BUser (scan_user row)))))))"

section \<open>OAuth sign-in\<close>

record oauthRequest =
  OAuthIDToken :: string
  OAuthDisplayName :: string
  OAuthEmail :: string

text \<open>\<open>strings.Index(email, "@")\<close>, and the part before it when it is positive.\<close>

fun local_part :: "string \<Rightarrow> string option" where
  "local_part [] = None"
| "local_part (c # s) = (if c = CHR ''@'' then Some [] else map_option ((#) c) (local_part s))"

text \<open>The fallbacks \<open>handleOAuth\<close> layers over the provider's data.\<close>

definition oauth_email :: "Identity \<Rightarrow> oauthRequest \<Rightarrow> string" where
  "oauth_email i req =
     (if IdEmail i = [] \<and> OAuthEmail req \<noteq> [] then TrimSpace (OAuthEmail req) else IdEmail i)"

definition oauth_name :: "Identity \<Rightarrow> oauthRequest \<Rightarrow> string" where
  "oauth_name i req =
     (let name = (if IdDisplayName i = [] \<and> OAuthDisplayName req \<noteq> [] then TrimSpace (OAuthDisplayName req)
                  else IdDisplayName i);
          email = oauth_email i req;
          name' = (if name \<noteq> [] then name
                   else case local_part email of None \<Rightarrow> [] | Some p \<Rightarrow> p);
          name'' = (if name' = [] then ''convoy_user'' else name')
      in if length name'' > 40 then take 40 name'' else name'')"

definition identity_of :: "db \<Rightarrow> string \<Rightarrow> string \<Rightarrow> identity_row option" where
  "identity_of d provider subject =
     List.find (\<lambda>i. ui_provider i = provider \<and> ui_subject i = subject) (t_user_identities d)"

definition select_identity :: "string \<Rightarrow> string \<Rightarrow> uuid sql" where
  "select_identity provider subject now uid d =
     (if \<not> (pg_text provider \<and> pg_text subject) then Inl bad_text
      else sql_row (\<lambda>d. map_option ui_user_id (identity_of d provider subject)) now uid d)"

definition update_email :: "string \<Rightarrow> uuid \<Rightarrow> nat sql" where
  "update_email email u now uid d =
     (if \<not> pg_text email then Inl bad_text
      else Inr (rows_where (\<lambda>r. u_id r = u \<and> u_email r \<noteq> Some email) (t_users d),
        d\<lparr>t_users := update_where (\<lambda>r. u_id r = u \<and> u_email r \<noteq> Some email) (\<lambda>r. r\<lparr>u_email := Some email\<rparr>) (t_users d)\<rparr>))"

definition insert_identity :: "uuid \<Rightarrow> string \<Rightarrow> string \<Rightarrow> string option \<Rightarrow> unit sql" where
  "insert_identity u provider subject email now uid d =
     (if \<not> (pg_text provider \<and> pg_text subject \<and> pg_text_opt email) then Inl bad_text
      else if provider \<notin> {''google'', ''apple'', ''guest''} then Inl (PgError ''23514'')
      else if uid \<in> ui_id ` set (t_user_identities d) \<or> identity_of d provider subject \<noteq> None then Inl unique_violation
      else if \<not> user_exists d u then Inl foreign_key_violation
      else Inr ((), d\<lparr>t_user_identities := t_user_identities d @
        [\<lparr>ui_id = uid, ui_user_id = u, ui_provider = provider, ui_subject = subject, ui_email = email,
          ui_created_at = now\<rparr>]\<rparr>))"

definition opt_str :: "string \<Rightarrow> string option" where
  "opt_str s = (if s = [] then None else Some s)"

text \<open>The user of an identity, created together with the identity when it is new.\<close>

definition resolve_identity :: "timestamp \<Rightarrow> Identity \<Rightarrow> ('z, uuid) dbcmd" where
  "resolve_identity now i =
     onErr (tx_stmt now (select_identity (IdProvider i) (IdSubject i)))
       (\<lambda>err. if err = ErrNoRows then
          andThen (tx_stmt now (insert_user (IdDisplayName i) (opt_str (IdAvatarURL i)) (opt_str (IdEmail i)))) (\<lambda>row.
          andThen (tx_stmt now (insert_identity (u_id row) (IdProvider i) (IdSubject i) (opt_str (IdEmail i)))) (\<lambda>_.
          ok (u_id row)))
        else fail err)
       (\<lambda>userID. if IdEmail i \<noteq> []
          then onErr (tx_stmt now (update_email (IdEmail i) userID)) (\<lambda>_. ok userID) (\<lambda>_. ok userID)
          else ok userID)"

definition upsertOAuthUser :: "Identity \<Rightarrow> ('z, User) dbcmd" where
  "upsertOAuthUser i = tx (\<lambda>now.
     andThen (resolve_identity now i) (\<lambda>userID.
     tx_stmt now (sql_row (\<lambda>d. map_option scan_user (live_user d userID)))))"

definition handleOAuth ::
  "libs \<Rightarrow> AuthService \<Rightarrow> timestamp \<Rightarrow> (string + oauthRequest) \<Rightarrow> (string \<Rightarrow> go_error + Identity) \<Rightarrow>
   ('z world_scheme, auth_body) handler" where
  "handleOAuth L s now body verify = respond (
     andThen (result (Decode body)) (\<lambda>req.
     case verify (OAuthIDToken req) of
       Inl _ \<Rightarrow> fail (Err 401 ''invalid_id_token'' ''could not verify id token'')
     | Inr i \<Rightarrow>
       andThen (upsertOAuthUser (i\<lparr>IdEmail := oauth_email i req, IdDisplayName := oauth_name i req\<rparr>)) (\<lambda>u.
       andThen (result (Issue L s now (UserID u))) (\<lambda>token.
       ok (JSON 200 (BToken token u))))))"

definition HandleGoogle ::
  "libs \<Rightarrow> AuthService \<Rightarrow> timestamp \<Rightarrow> (string + oauthRequest) \<Rightarrow> ('z world_scheme, auth_body) handler" where
  "HandleGoogle L s now body =
     (case as_google s of
        None \<Rightarrow> respond (fail (Err 503 ''google_disabled'' ''google sign-in is not configured''))
      | Some audiences \<Rightarrow> handleOAuth L s now body (GoogleVerifier_Verify L audiences now))"

definition HandleApple ::
  "libs \<Rightarrow> AuthService \<Rightarrow> timestamp \<Rightarrow> (string + oauthRequest) \<Rightarrow> ('z world_scheme, auth_body) handler" where
  "HandleApple L s now body =
     (case as_apple s of
        None \<Rightarrow> respond (fail (Err 503 ''apple_disabled'' ''sign in with apple is not configured''))
      | Some audiences \<Rightarrow> handleOAuth L s now body (AppleVerifier_Verify L audiences now))"

section \<open>Account deletion\<close>

definition stamp_deleted :: "uuid \<Rightarrow> unit sql" where
  "stamp_deleted u now uid d =
     Inr ((), d\<lparr>t_users := update_where (\<lambda>r. u_id r = u \<and> u_deleted_at r = None)
       (\<lambda>r. r\<lparr>u_deleted_at := Some now\<rparr>) (t_users d)\<rparr>)"

definition end_owned_rooms :: "uuid \<Rightarrow> unit sql" where
  "end_owned_rooms u now uid d =
     Inr ((), d\<lparr>t_rooms := update_where (\<lambda>r. r_owner_id r = u \<and> r_ended_at r = None)
       (\<lambda>r. r\<lparr>r_ended_at := Some now\<rparr>) (t_rooms d)\<rparr>)"

definition kick_memberships :: "uuid \<Rightarrow> unit sql" where
  "kick_memberships u now uid d =
     Inr ((), d\<lparr>t_room_members := update_where (\<lambda>m. rm_user_id m = u \<and> rm_left_at m = None)
       (\<lambda>m. m\<lparr>rm_kicked := True, rm_left_at := Some now\<rparr>) (t_room_members d)\<rparr>)"

definition HandleDeleteAccount :: "User option \<Rightarrow> ('z world_scheme, 'b) handler" where
  "HandleDeleteAccount ctx = respond (
     case ctx of None \<Rightarrow> fail ErrUnauthorized
     | Some u \<Rightarrow>
       andThen (tx (\<lambda>now.
         andThen (tx_stmt now (stamp_deleted (UserID u))) (\<lambda>_.
         andThen (tx_stmt now (end_owned_rooms (UserID u))) (\<lambda>_.
         tx_stmt now (kick_memberships (UserID u))))))
       (\<lambda>_. ok NoContent))"

end
