(* ===== verification/Livekit.thy ===== *)
theory Livekit
  imports Httpx
begin

text \<open>
  \<open>internal/livekit/token.go\<close>: the voice configuration, the address given to
  clients, and the access token.  The LiveKit library that signs the token is
  not part of the repository: \<open>ToJWT\<close> is an argument.
\<close>

record LivekitConfig =
  lk_URL :: string
  lk_APIKey :: string
  lk_APISecret :: string

definition lk_Enabled :: "LivekitConfig \<Rightarrow> bool" where
  "lk_Enabled c \<longleftrightarrow> lk_URL c \<noteq> [] \<and> lk_APIKey c \<noteq> [] \<and> lk_APISecret c \<noteq> []"

definition NormalizeURL :: "string \<Rightarrow> string" where
  "NormalizeURL url =
     (let raw = TrimSpace url in
      if raw = [] then []
      else if HasPrefix raw ''wss://'' \<or> HasPrefix raw ''ws://'' then raw
      else if HasPrefix raw ''https://'' then ''wss://'' @ TrimPrefix raw ''https://''
      else if HasPrefix raw ''http://'' then ''ws://'' @ TrimPrefix raw ''http://''
      else ''wss://'' @ raw)"

text \<open>What is put into an access token before it is signed.\<close>

record AccessToken =
  at_APIKey :: string
  at_APISecret :: string
  at_Identity :: string
  at_ValidForHours :: nat
  at_RoomJoin :: bool
  at_Room :: string
  at_Name :: "string option"

definition IssueRoomToken ::
  "(AccessToken \<Rightarrow> string + string) \<Rightarrow> (uuid \<Rightarrow> string) \<Rightarrow> LivekitConfig \<Rightarrow> uuid \<Rightarrow> uuid \<Rightarrow> string \<Rightarrow> go_error + string" where
  "IssueRoomToken ToJWT uuidString cfg roomID userID displayName =
     (if \<not> lk_Enabled cfg then Inl (OtherError ''livekit is not configured'')
      else case ToJWT \<lparr>at_APIKey = lk_APIKey cfg, at_APISecret = lk_APISecret cfg, at_Identity = uuidString userID,
                       at_ValidForHours = 6, at_RoomJoin = True, at_Room = uuidString roomID,
                       at_Name = (if displayName = [] then None else Some displayName)\<rparr> of
        Inl msg \<Rightarrow> Inl (OtherError msg) | Inr tok \<Rightarrow> Inr tok)"

section \<open>The address clients receive\<close>

lemma trim_left_nonspace: "s \<noteq> [] \<Longrightarrow> \<not> IsSpace (fst (decode_rune s)) \<Longrightarrow> trim_left s = s"
  by (cases s) (simp_all add: trim_left.simps)

text \<open>A client never receives an http address: the result is empty or starts with a WebSocket scheme.\<close>

lemma NormalizeURL_scheme:
  "NormalizeURL url = [] \<or> HasPrefix (NormalizeURL url) ''wss://'' \<or> HasPrefix (NormalizeURL url) ''ws://''"
  by (simp add: NormalizeURL_def Let_def HasPrefix_def)

lemma NormalizeURL_empty: "NormalizeURL url = [] \<longleftrightarrow> TrimSpace url = []"
  by (auto simp: NormalizeURL_def Let_def)

end
