(* ===== verification/GoStd.thy ===== *)
theory GoStd
  imports GoText
begin

text \<open>
  More of the Go standard library as the configuration and the administration
  pages use it: splitting text, decimal integers (\<open>strconv.Atoi\<close>, \<open>%d\<close>
  in both directions), 64-bit arithmetic, \<open>time.ParseDuration\<close> and the
  unpadded URL alphabet of \<open>encoding/base64\<close>.
\<close>

section \<open>Splitting\<close>

text \<open>\<open>strings.Split\<close> with a separator of one byte.\<close>

fun Split :: "char \<Rightarrow> string \<Rightarrow> string list" where
  "Split sep [] = [[]]"
| "Split sep (c # s) =
     (if c = sep then [] # Split sep s
      else case Split sep s of [] \<Rightarrow> [[c]] | p # ps \<Rightarrow> (c # p) # ps)"

text \<open>\<open>strings.Join\<close>, to state what \<open>Split\<close> undoes.\<close>

fun Join :: "char \<Rightarrow> string list \<Rightarrow> string" where
  "Join sep [] = []"
| "Join sep [p] = p"
| "Join sep (p # ps) = p @ sep # Join sep ps"

lemma Split_nonempty [simp]: "Split sep s \<noteq> []"
  by (cases s) (auto split: list.splits)

lemma Split_no_sep: "p \<in> set (Split sep s) \<Longrightarrow> sep \<notin> set p"
  by (induction s arbitrary: p) (auto split: if_splits list.splits)

lemma Join_Split: "Join sep (Split sep s) = s"
proof (induction s)
  case (Cons c s)
  obtain p ps where p: "Split sep s = p # ps" by (cases "Split sep s") auto
  with Cons show ?case by (cases ps) auto
qed simp

lemma Split_append: "sep \<notin> set p \<Longrightarrow> Split sep (p @ sep # s) = p # Split sep s"
  by (induction p) auto

lemma Split_last: "sep \<notin> set p \<Longrightarrow> Split sep p = [p]"
  by (induction p) auto

section \<open>64-bit integers\<close>

definition int64 :: "int \<Rightarrow> int" where
  "int64 x = signed_take_bit 63 x"

lemma int64_id: "- (2 ^ 63) \<le> x \<Longrightarrow> x < 2 ^ 63 \<Longrightarrow> int64 x = x"
  by (simp add: int64_def signed_take_bit_int_eq_self)

lemma int64_range: "- (2 ^ 63) \<le> int64 x \<and> int64 x < 2 ^ 63"
  using signed_take_bit_int_greater_eq_minus_exp [of 63 x] signed_take_bit_int_less_exp [of 63 x]
  by (simp add: int64_def)

section \<open>Decimal integers\<close>

fun atoi_digits :: "int \<Rightarrow> string \<Rightarrow> int option" where
  "atoi_digits acc [] = Some acc"
| "atoi_digits acc (c # s) = (if digit c then atoi_digits (acc * 10 + (int (of_char c) - 48)) s else None)"

definition split_sign :: "string \<Rightarrow> int \<times> string" where
  "split_sign s = (case s of c # r \<Rightarrow> if c = CHR ''-'' then (-1, r) else if c = CHR ''+'' then (1, r) else (1, s)
                   | [] \<Rightarrow> (1, []))"

text \<open>\<open>strconv.Atoi\<close>, which is \<open>ParseInt(s, 10, 64)\<close>: an optional sign, decimal digits, a value that fits.\<close>

definition Atoi :: "string \<Rightarrow> int option" where
  "Atoi s =
     (let (sign, ds) = split_sign s
      in if ds = [] then None
         else case atoi_digits 0 ds of None \<Rightarrow> None
         | Some n \<Rightarrow> if -(2 ^ 63) \<le> sign * n \<and> sign * n < 2 ^ 63 then Some (sign * n) else None)"

text \<open>The verb \<open>%d\<close> of \<open>fmt.Sprintf\<close>.\<close>

function digits_of :: "nat \<Rightarrow> string" where
  "digits_of n = (if n < 10 then [char_of (48 + n)] else digits_of (n div 10) @ [char_of (48 + n mod 10)])"
  by auto
termination by (relation "measure id") auto

declare digits_of.simps [simp del]

definition Itoa :: "int \<Rightarrow> string" where
  "Itoa n = (if n < 0 then CHR ''-'' # digits_of (nat (- n)) else digits_of (nat n))"

text \<open>
  The verb \<open>%d\<close> of \<open>fmt.Sscanf\<close>: leading space is skipped (a newline is an
  error), then a sign and digits are taken, and what follows is left alone.
\<close>

definition newline_next :: "string \<Rightarrow> bool" where
  "newline_next s \<longleftrightarrow> take 1 s = [CHR 0x0A] \<or> take 2 s = [CHR 0x0D, CHR 0x0A]"

function scan_space :: "string \<Rightarrow> string option" where
  "scan_space s =
     (if s = [] then Some []
      else if newline_next s then None
      else if IsSpace (fst (decode_rune s)) then scan_space (drop (snd (decode_rune s)) s)
      else Some s)"
  by auto
termination
  by (relation "measure length") (auto dest: decode_rune_width)

declare scan_space.simps [simp del]

definition Sscanf_d :: "string \<Rightarrow> int option" where
  "Sscanf_d s =
     (case scan_space s of None \<Rightarrow> None
      | Some t \<Rightarrow>
        (let (sign, r) = split_sign t; ds = takeWhile digit r
         in case Atoi ((if sign = -1 then [CHR ''-''] else []) @ ds) of
              None \<Rightarrow> None | Some n \<Rightarrow> if ds = [] then None else Some n))"

lemma digit_char: "n < 10 \<Longrightarrow> digit (char_of (48 + n)) \<and> int (of_char (char_of (48 + n) :: char)) - 48 = int n"
  by (simp add: digit_def)

lemma atoi_digits_append:
  "atoi_digits acc (s @ t) = (case atoi_digits acc s of None \<Rightarrow> None | Some n \<Rightarrow> atoi_digits n t)"
  by (induction s arbitrary: acc) auto

lemma digits_of_digit: "list_all digit (digits_of n)"
proof (induction n rule: digits_of.induct)
  case (1 n)
  show ?case
  proof (cases "n < 10")
    case True
    then show ?thesis using digit_char [of n] by (subst digits_of.simps) simp
  next
    case False
    then show ?thesis using 1 digit_char [of "n mod 10"] by (subst digits_of.simps) simp
  qed
qed

lemma digits_of_nonempty [simp]: "digits_of n \<noteq> []"
  by (subst digits_of.simps) simp

lemma atoi_digits_of: "atoi_digits 0 (digits_of n) = Some (int n)"
proof (induction n rule: digits_of.induct)
  case (1 n)
  show ?case
  proof (cases "n < 10")
    case True
    then show ?thesis using digit_char [of n] by (subst digits_of.simps) simp
  next
    case False
    have "int (n div 10) * 10 + int (n mod 10) = int n" by (simp add: zdiv_int zmod_int)
    with 1 [OF False] False digit_char [of "n mod 10"] show ?thesis
      by (subst digits_of.simps) (simp add: atoi_digits_append)
  qed
qed

lemma split_sign_digits: "list_all digit s \<Longrightarrow> split_sign s = (1, s)"
  by (cases s) (auto simp: split_sign_def digit_def)

lemma split_sign_minus [simp]: "split_sign (CHR ''-'' # s) = (-1, s)"
  by (simp add: split_sign_def)

text \<open>Printing an \<open>int64\<close> and reading it back gives the same number, with both readers.\<close>

lemma Atoi_Itoa:
  assumes "- (2 ^ 63) \<le> n" "n < 2 ^ 63"
  shows "Atoi (Itoa n) = Some n"
  using assms by (auto simp: Atoi_def Itoa_def split_sign_digits digits_of_digit atoi_digits_of)

lemma scan_space_Itoa: "scan_space (Itoa n @ s) = Some (Itoa n @ s)"
proof -
  obtain c r where c: "Itoa n = c # r" "digit c \<or> c = CHR ''-''"
  proof (cases "n < 0")
    case False
    then have "list_all digit (Itoa n)" "Itoa n \<noteq> []" by (simp_all add: Itoa_def digits_of_digit)
    with that show ?thesis by (cases "Itoa n") auto
  qed (use that in \<open>simp add: Itoa_def\<close>)
  then have "byte c < 0x80" "\<not> IsSpace (byte c)" "c \<noteq> CHR 0x0A" "c \<noteq> CHR 0x0D"
    by (auto simp: digit_def IsSpace_def)
  then show ?thesis by (subst scan_space.simps) (simp add: c newline_next_def)
qed

lemma takeWhile_digits: "list_all digit s \<Longrightarrow> takeWhile digit s = s"
  by (simp add: list_all_iff)

lemma Sscanf_Itoa:
  assumes "- (2 ^ 63) \<le> n" "n < 2 ^ 63"
  shows "Sscanf_d (Itoa n) = Some n"
  using assms Atoi_Itoa [OF assms] scan_space_Itoa [of n "[]"]
  by (auto simp: Sscanf_d_def Itoa_def split_sign_digits digits_of_digit takeWhile_digits)

lemma Itoa_no_dot: "CHR ''.'' \<notin> set (Itoa n)"
proof -
  have "CHR ''.'' \<notin> set (digits_of m)" for m
    using digits_of_digit [of m] by (auto simp: list_all_iff digit_def)
  then show ?thesis by (simp add: Itoa_def)
qed

section \<open>Base64\<close>

text \<open>\<open>base64.RawURLEncoding.EncodeToString\<close>.\<close>

definition base64url :: string where
  "base64url = ''ABCDEFGHIJKLMNOPQRSTUVWXYZabcdefghijklmnopqrstuvwxyz0123456789-_''"

definition sextet :: "nat \<Rightarrow> nat \<Rightarrow> char" where
  "sextet n k = base64url ! (n div 64 ^ k mod 64)"

fun RawURLEncoding :: "string \<Rightarrow> string" where
  "RawURLEncoding [] = []"
| "RawURLEncoding [a] = (let n = byte a * 65536 in [sextet n 3, sextet n 2])"
| "RawURLEncoding [a, b] = (let n = byte a * 65536 + byte b * 256 in [sextet n 3, sextet n 2, sextet n 1])"
| "RawURLEncoding (a # b # c # s) =
     (let n = byte a * 65536 + byte b * 256 + byte c
      in [sextet n 3, sextet n 2, sextet n 1, sextet n 0] @ RawURLEncoding s)"

lemma sextet_in: "sextet n k \<in> set base64url"
  unfolding sextet_def by (rule nth_mem) (simp add: base64url_def)

lemma RawURLEncoding_alphabet: "set (RawURLEncoding s) \<subseteq> set base64url"
  by (induction s rule: RawURLEncoding.induct) (auto simp: Let_def sextet_in)

lemma RawURLEncoding_no_dot: "CHR ''.'' \<notin> set (RawURLEncoding s)"
  using RawURLEncoding_alphabet [of s] by (auto simp: base64url_def)

section \<open>Durations\<close>

text \<open>
  \<open>time.ParseDuration\<close>, in nanoseconds.  The contribution of a fraction is
  computed by the source in \<open>float64\<close>; \<open>fl f unit k\<close> stands for that
  rounded product \<open>f * (unit / 10^k)\<close>.  \<open>None\<close> is an error.
\<close>

definition two63 :: nat where
  "two63 = 9223372036854775808"

definition unitMap :: "(string \<times> nat) list" where
  "unitMap = [(''ns'', 1), (''us'', 1000), ([CHR 0xC2, CHR 0xB5] @ ''s'', 1000), ([CHR 0xCE, CHR 0xBC] @ ''s'', 1000),
     (''ms'', 1000000), (''s'', 1000000000), (''m'', 60000000000), (''h'', 3600000000000)]"

fun leadingInt :: "nat \<Rightarrow> string \<Rightarrow> (nat \<times> string) option" where
  "leadingInt x [] = Some (x, [])"
| "leadingInt x (c # s) =
     (if \<not> digit c then Some (x, c # s)
      else if x > two63 div 10 then None
      else let y = x * 10 + (byte c - 48) in if y > two63 then None else leadingInt y s)"

fun leadingFraction :: "nat \<Rightarrow> nat \<Rightarrow> bool \<Rightarrow> string \<Rightarrow> (nat \<times> nat) \<times> string" where
  "leadingFraction x k overflow [] = ((x, k), [])"
| "leadingFraction x k overflow (c # s) =
     (if \<not> digit c then ((x, k), c # s)
      else if overflow then leadingFraction x k True s
      else if x > (two63 - 1) div 10 then leadingFraction x k True s
      else let y = x * 10 + (byte c - 48) in
        if y > two63 then leadingFraction x k True s else leadingFraction y (Suc k) False s)"

lemma leadingInt_length: "leadingInt x s = Some (v, r) \<Longrightarrow> length r \<le> length s"
  by (induction x s arbitrary: v r rule: leadingInt.induct) (fastforce simp: Let_def split: if_splits)+

lemma leadingFraction_length: "leadingFraction x k ov s = (p, r) \<Longrightarrow> length r \<le> length s"
  by (induction x k ov s arbitrary: p r rule: leadingFraction.induct) (fastforce simp: Let_def split: if_splits)+

definition unit_char :: "char \<Rightarrow> bool" where
  "unit_char c \<longleftrightarrow> c \<noteq> CHR ''.'' \<and> \<not> digit c"

text \<open>One turn of the loop: the nanoseconds of the next element and the rest of the text.\<close>

definition duration_element :: "(nat \<Rightarrow> nat \<Rightarrow> nat \<Rightarrow> nat) \<Rightarrow> string \<Rightarrow> (nat \<times> string) option" where
  "duration_element fl s =
     (case leadingInt 0 s of None \<Rightarrow> None
      | Some (v, s1) \<Rightarrow>
        (let pre = length s \<noteq> length s1;
             dot = s1 \<noteq> [] \<and> hd s1 = CHR ''.'';
             ((f, k), s2) = (if dot then leadingFraction 0 0 False (tl s1) else ((0, 0), s1));
             post = dot \<and> length (tl s1) \<noteq> length s2;
             u = takeWhile unit_char s2; s3 = dropWhile unit_char s2
         in if \<not> pre \<and> \<not> post \<or> u = [] then None
            else case map_of unitMap u of None \<Rightarrow> None
            | Some unit \<Rightarrow>
              if v > two63 div unit then None
              else let ns = v * unit + (if f > 0 then fl f unit k else 0)
                in if ns > two63 then None else Some (ns, s3)))"

lemma duration_element_shorter: "duration_element fl s = Some (ns, r) \<Longrightarrow> length r < length s"
proof -
  assume "duration_element fl s = Some (ns, r)"
  then obtain v s1 f k s2 where 1: "leadingInt 0 s = Some (v, s1)" "takeWhile unit_char s2 \<noteq> []"
      "r = dropWhile unit_char s2" and
    2: "(if s1 \<noteq> [] \<and> hd s1 = CHR ''.'' then leadingFraction 0 0 False (tl s1) else ((0, 0), s1)) = ((f, k), s2)"
    by (auto simp: duration_element_def Let_def split: option.splits prod.splits if_splits)
  have "length s2 \<le> length s1"
    using 2 leadingFraction_length [of 0 0 False "tl s1" "(f, k)" s2] by (auto split: if_splits)
  moreover have "length r < length s2"
    using 1(2,3) by (cases s2) (auto split: if_splits intro: le_less_trans [OF length_dropWhile_le])
  ultimately show ?thesis using leadingInt_length [OF 1(1)] by simp
qed

function duration_loop :: "(nat \<Rightarrow> nat \<Rightarrow> nat \<Rightarrow> nat) \<Rightarrow> nat \<Rightarrow> string \<Rightarrow> nat option" where
  "duration_loop fl d s =
     (if s = [] then Some d
      else case duration_element fl s of None \<Rightarrow> None
      | Some (ns, r) \<Rightarrow>
        (let d' = (d + ns) mod 18446744073709551616 in if d' > two63 then None else duration_loop fl d' r))"
  by auto
termination
  by (relation "measure (\<lambda>(fl, d, s). length s)") (auto dest: duration_element_shorter)

declare duration_loop.simps [simp del]

definition ParseDuration :: "(nat \<Rightarrow> nat \<Rightarrow> nat \<Rightarrow> nat) \<Rightarrow> string \<Rightarrow> int option" where
  "ParseDuration fl s =
     (let (sign, r) = split_sign s in
      if r = ''0'' then Some 0
      else if r = [] then None
      else case duration_loop fl 0 r of None \<Rightarrow> None
      | Some d \<Rightarrow> if sign = -1 then Some (- int d) else if d > two63 - 1 then None else Some (int d))"

lemma duration_loop_bound: "d \<le> two63 \<Longrightarrow> duration_loop fl d s = Some n \<Longrightarrow> n \<le> two63"
proof (induction fl d s rule: duration_loop.induct)
  case (1 fl d s)
  from 1(3) [unfolded duration_loop.simps [of fl d s]] 1(1,2) show ?case
    by (auto simp: Let_def split: if_splits option.splits)
qed

lemma ParseDuration_range: "ParseDuration fl s = Some d \<Longrightarrow> - (2 ^ 63) \<le> d \<and> d < 2 ^ 63"
  using duration_loop_bound [of 0 fl "snd (split_sign s)"]
  by (auto simp: ParseDuration_def two63_def split: prod.splits if_splits option.splits)

end
