(* ===== verification/RoomHandlers.thy ===== *)
theory RoomHandlers
  imports RoomSafety Auth Livekit GoStd
begin

text \<open>
  \<open>internal/rooms/handlers.go\<close>: the REST handlers of \<open>/rooms\<close>.  A handler
  gets the authenticated user (put into the context by the middleware), the
  path and query parameters as text, and the body as the JSON decoder presents
  it.
\<close>

section \<open>Bodies and parameters\<close>

datatype room_body =
    BDetail RoomDetail
  | BActive "ActiveRoom list"
  | BRoom Room
  | BDestination Destination
  | BMarker PersonalMarker
  | BStop Stop
  | BMessage Message
  | BMessages "Message list"
  | BVoice string string

record destinationReq =
  DreqLat :: float64
  DreqLng :: float64
  DreqName :: "string option"
  DreqNotes :: "string option"

record destinationMetaReq =
  MreqName :: "string option"
  MreqNotes :: "string option"

record pointReq =
  PreqLat :: float64
  PreqLng :: float64
  PreqLabel :: "string option"

definition path_id :: "libs \<Rightarrow> string \<Rightarrow> go_error + uuid" where
  "path_id L s = (case uuid_Parse L s of Inl _ \<Rightarrow> Inl ErrBadRequest | Inr u \<Rightarrow> Inr u)"

section \<open>Handlers\<close>

definition h_voiceToken ::
  "libs \<Rightarrow> (AccessToken \<Rightarrow> string + string) \<Rightarrow> LivekitConfig \<Rightarrow> User \<Rightarrow> string \<Rightarrow> ('h rworld, room_body) handler" where
  "h_voiceToken L ToJWT lk user room = respond (
     if \<not> lk_Enabled lk then fail (Err 503 ''voice_unavailable'' ''voice is not configured on the server'')
     else andThen (result (path_id L room)) (\<lambda>roomID.
     andThen (AssertMember roomID (UserID user)) (\<lambda>_.
     case IssueRoomToken ToJWT (uuid_String L) lk roomID (UserID user) (UserDisplayName user) of
       Inl _ \<Rightarrow> fail (Err 500 ''voice_token_failed'' ''could not create voice token'')
     | Inr token \<Rightarrow> ok (JSON 200 (BVoice token (NormalizeURL (lk_URL lk)))))))"

definition h_listActive :: "'h Service \<Rightarrow> User \<Rightarrow> ('h rworld, room_body) handler" where
  "h_listActive s user = respond (
     andThen (Service_ListActiveForUser s (UserID user)) (\<lambda>list. ok (JSON 200 (BActive list))))"

text \<open>The body of \<open>create\<close> is optional: \<open>name\<close> is the field after \<open>Decode\<close>, whose error is dropped.\<close>

definition h_create :: "'h Service \<Rightarrow> User \<Rightarrow> string option \<Rightarrow> ('h rworld, room_body) handler" where
  "h_create s user name = respond (
     andThen (Service_Create (UserID user) name) (\<lambda>room.
     andThen (Service_Detail s (RoomID room) (UserID user)) (\<lambda>detail.
     ok (JSON 201 (BDetail detail)))))"

definition h_join :: "(nat \<Rightarrow> nat) \<Rightarrow> 'h Service \<Rightarrow> User \<Rightarrow> (string + string) \<Rightarrow> ('h rworld, room_body) handler" where
  "h_join tab s user body = respond (
     andThen (result (Decode body)) (\<lambda>code.
     andThen (Service_Join tab s (UserID user) code) (\<lambda>room.
     andThen (Service_Detail s (RoomID room) (UserID user)) (\<lambda>detail.
     ok (JSON 200 (BDetail detail))))))"

definition h_get :: "libs \<Rightarrow> 'h Service \<Rightarrow> User \<Rightarrow> string \<Rightarrow> ('h rworld, room_body) handler" where
  "h_get L s user room = respond (
     andThen (result (path_id L room)) (\<lambda>roomID.
     andThen (AssertMember roomID (UserID user)) (\<lambda>_.
     andThen (map_err (\<lambda>e. if e = ErrNotFound then httpx_ErrNotFound else e)
       (Service_Detail s roomID (UserID user))) (\<lambda>detail.
     ok (JSON 200 (BDetail detail))))))"

definition h_leave :: "libs \<Rightarrow> 'h Service \<Rightarrow> User \<Rightarrow> string \<Rightarrow> ('h rworld, room_body) handler" where
  "h_leave L s user room = respond (
     andThen (result (path_id L room)) (\<lambda>roomID.
     andThen (Service_Leave s roomID (UserID user)) (\<lambda>_. ok NoContent)))"

definition h_rename :: "libs \<Rightarrow> 'h Service \<Rightarrow> User \<Rightarrow> string \<Rightarrow> (string + string) \<Rightarrow> ('h rworld, room_body) handler" where
  "h_rename L s actor room body = respond (
     andThen (result (path_id L room)) (\<lambda>roomID.
     andThen (result (Decode body)) (\<lambda>name.
     andThen (Service_Rename s roomID (UserID actor) name) (\<lambda>r.
     ok (JSON 200 (BRoom r))))))"

definition h_mute ::
  "libs \<Rightarrow> 'h Service \<Rightarrow> User \<Rightarrow> string \<Rightarrow> string \<Rightarrow> (string + bool) \<Rightarrow> ('h rworld, room_body) handler" where
  "h_mute L s actor room target body = respond (
     andThen (result (path_id L room)) (\<lambda>roomID.
     andThen (result (path_id L target)) (\<lambda>targetID.
     andThen (result (Decode body)) (\<lambda>muted.
     andThen (Service_Mute s roomID (UserID actor) targetID muted) (\<lambda>_. ok NoContent)))))"

definition h_kick :: "libs \<Rightarrow> 'h Service \<Rightarrow> User \<Rightarrow> string \<Rightarrow> string \<Rightarrow> ('h rworld, room_body) handler" where
  "h_kick L s actor room target = respond (
     andThen (result (path_id L room)) (\<lambda>roomID.
     andThen (result (path_id L target)) (\<lambda>targetID.
     andThen (Service_Kick s roomID (UserID actor) targetID) (\<lambda>_. ok NoContent))))"

definition h_transferOwner :: "libs \<Rightarrow> 'h Service \<Rightarrow> User \<Rightarrow> string \<Rightarrow> string \<Rightarrow> ('h rworld, room_body) handler" where
  "h_transferOwner L s actor room target = respond (
     andThen (result (path_id L room)) (\<lambda>roomID.
     andThen (result (path_id L target)) (\<lambda>targetID.
     andThen (Service_TransferOwnership s roomID (UserID actor) targetID) (\<lambda>_. ok NoContent))))"

definition h_putDestination ::
  "libs \<Rightarrow> 'h Service \<Rightarrow> User \<Rightarrow> string \<Rightarrow> (string + destinationReq) \<Rightarrow> ('h rworld, room_body) handler" where
  "h_putDestination L s actor room body = respond (
     andThen (result (path_id L room)) (\<lambda>roomID.
     andThen (result (Decode body)) (\<lambda>req.
     andThen (Service_SetDestination s roomID (UserID actor) (DreqLat req) (DreqLng req) (DreqName req) (DreqNotes req)) (\<lambda>d.
     ok (JSON 200 (BDestination d))))))"

definition h_patchDestination ::
  "libs \<Rightarrow> 'h Service \<Rightarrow> User \<Rightarrow> string \<Rightarrow> (string + destinationMetaReq) \<Rightarrow> ('h rworld, room_body) handler" where
  "h_patchDestination L s actor room body = respond (
     andThen (result (path_id L room)) (\<lambda>roomID.
     andThen (result (Decode body)) (\<lambda>req.
     andThen (Service_UpdateDestinationMeta s roomID (UserID actor) (MreqName req) (MreqNotes req)) (\<lambda>d.
     ok (JSON 200 (BDestination d))))))"

definition h_deleteDestination :: "libs \<Rightarrow> 'h Service \<Rightarrow> User \<Rightarrow> string \<Rightarrow> ('h rworld, room_body) handler" where
  "h_deleteDestination L s actor room = respond (
     andThen (result (path_id L room)) (\<lambda>roomID.
     andThen (Service_ClearDestination s roomID (UserID actor)) (\<lambda>_. ok NoContent)))"

definition h_putPersonalMarker ::
  "libs \<Rightarrow> User \<Rightarrow> string \<Rightarrow> (string + pointReq) \<Rightarrow> ('h rworld, room_body) handler" where
  "h_putPersonalMarker L user room body = respond (
     andThen (result (path_id L room)) (\<lambda>roomID.
     andThen (result (Decode body)) (\<lambda>req.
     andThen (Service_SetPersonalMarker roomID (UserID user) (PreqLat req) (PreqLng req) (PreqLabel req)) (\<lambda>pm.
     ok (JSON 200 (BMarker pm))))))"

definition h_deletePersonalMarker :: "libs \<Rightarrow> User \<Rightarrow> string \<Rightarrow> ('h rworld, room_body) handler" where
  "h_deletePersonalMarker L user room = respond (
     andThen (result (path_id L room)) (\<lambda>roomID.
     andThen (Service_ClearPersonalMarker roomID (UserID user)) (\<lambda>_. ok NoContent)))"

definition h_addStop ::
  "libs \<Rightarrow> 'h Service \<Rightarrow> User \<Rightarrow> string \<Rightarrow> (string + pointReq) \<Rightarrow> ('h rworld, room_body) handler" where
  "h_addStop L s actor room body = respond (
     andThen (result (path_id L room)) (\<lambda>roomID.
     andThen (result (Decode body)) (\<lambda>req.
     andThen (Service_AddStop s roomID (UserID actor) (PreqLat req) (PreqLng req) (PreqLabel req)) (\<lambda>stop.
     ok (JSON 201 (BStop stop))))))"

definition h_patchStop ::
  "libs \<Rightarrow> 'h Service \<Rightarrow> User \<Rightarrow> string \<Rightarrow> string \<Rightarrow> (string + string option) \<Rightarrow> ('h rworld, room_body) handler" where
  "h_patchStop L s actor room stop body = respond (
     andThen (result (path_id L room)) (\<lambda>roomID.
     andThen (result (path_id L stop)) (\<lambda>stopID.
     andThen (result (Decode body)) (\<lambda>label.
     andThen (Service_UpdateStopLabel s roomID (UserID actor) stopID label) (\<lambda>st.
     ok (JSON 200 (BStop st)))))))"

definition h_removeStop :: "libs \<Rightarrow> 'h Service \<Rightarrow> User \<Rightarrow> string \<Rightarrow> string \<Rightarrow> ('h rworld, room_body) handler" where
  "h_removeStop L s actor room stop = respond (
     andThen (result (path_id L room)) (\<lambda>roomID.
     andThen (result (path_id L stop)) (\<lambda>stopID.
     andThen (Service_RemoveStop s roomID (UserID actor) stopID) (\<lambda>_. ok NoContent))))"

definition h_clearStops :: "libs \<Rightarrow> 'h Service \<Rightarrow> User \<Rightarrow> string \<Rightarrow> ('h rworld, room_body) handler" where
  "h_clearStops L s actor room = respond (
     andThen (result (path_id L room)) (\<lambda>roomID.
     andThen (Service_ClearStops s roomID (UserID actor)) (\<lambda>_. ok NoContent)))"

definition h_postMessage ::
  "libs \<Rightarrow> 'h Service \<Rightarrow> User \<Rightarrow> string \<Rightarrow> (string + string) \<Rightarrow> ('h rworld, room_body) handler" where
  "h_postMessage L s user room body = respond (
     andThen (result (path_id L room)) (\<lambda>roomID.
     andThen (result (Decode body)) (\<lambda>text.
     andThen (Service_PostMessage s roomID (UserID user) text) (\<lambda>msg.
     ok (JSON 201 (BMessage msg))))))"

definition h_listMessages :: "libs \<Rightarrow> User \<Rightarrow> string \<Rightarrow> string \<Rightarrow> string \<Rightarrow> ('h rworld, room_body) handler" where
  "h_listMessages L user room before limit = respond (
     andThen (result (path_id L room)) (\<lambda>roomID.
     andThen (if before = [] then ok None else andThen (result (path_id L before)) (\<lambda>u. ok (Some u))) (\<lambda>beforeID.
     andThen (Service_ListMessages roomID (UserID user) beforeID
       (if limit = [] then 0 else case Atoi limit of None \<Rightarrow> 0 | Some n \<Rightarrow> n)) (\<lambda>msgs.
     ok (JSON 200 (BMessages msgs))))))"

definition h_end :: "libs \<Rightarrow> 'h Service \<Rightarrow> User \<Rightarrow> string \<Rightarrow> ('h rworld, room_body) handler" where
  "h_end L s actor room = respond (
     andThen (result (path_id L room)) (\<lambda>roomID.
     andThen (Service_End s roomID (UserID actor)) (\<lambda>_. ok NoContent)))"

end
