(* ===== verification/Messages.thy ===== *)
theory Messages
  imports RoomStore
begin

text \<open>
  \<open>internal/realtime/messages.go\<close>: the frames of the realtime protocol.  A
  frame is an \<open>Envelope\<close> with its type tag and payload; \<open>pack\<close> is the
  JSON encoding, which cannot fail on these payloads (they hold strings,
  integers, booleans, finite coordinates, timestamps and identifiers), so a
  frame is represented by what it encodes.
\<close>

record Location =
  LocLat :: float64
  LocLng :: float64
  LocHeading :: float64
  LocSpeed :: float64

record LocationEvent =
  LevUserID :: uuid
  LevLat :: float64
  LevLng :: float64
  LevHeading :: float64
  LevSpeed :: float64
  LevTS :: int

record SnapshotPayload =
  SnapSelf :: uuid
  SnapMembers :: "Member list"
  SnapLocations :: "(uuid \<times> LocationEvent) list"
  SnapDestination :: "Destination option"
  SnapStops :: "Stop list"
  SnapPresentUserIDs :: "uuid list"
  SnapEmergencyUserIDs :: "uuid list"

datatype payload =
    NoPayload
  | PSnapshot SnapshotPayload
  | PMemberJoined Member
  | PMemberLeft uuid
  | PMemberPresent uuid
  | PMemberAbsent uuid
  | PLocation LocationEvent
  | PMuted uuid bool uuid
  | PKicked uuid uuid
  | PDestination "Destination option"
  | PStops "Stop list"
  | PRoomRenamed "string option"
  | POwnerChanged uuid uuid
  | PChat Message
  | PEmergency uuid bool
  | PError string

datatype frame = Envelope (env_type: string) (env_payload: payload)

definition MsgSnapshot :: string where
  "MsgSnapshot = ''snapshot''"

definition MsgMemberJoined :: string where
  "MsgMemberJoined = ''member_joined''"

definition MsgMemberLeft :: string where
  "MsgMemberLeft = ''member_left''"

definition MsgMemberPresent :: string where
  "MsgMemberPresent = ''member_present''"

definition MsgMemberAbsent :: string where
  "MsgMemberAbsent = ''member_absent''"

definition MsgLocation :: string where
  "MsgLocation = ''loc''"

definition MsgMuted :: string where
  "MsgMuted = ''muted''"

definition MsgKicked :: string where
  "MsgKicked = ''kicked''"

definition MsgRoomEnded :: string where
  "MsgRoomEnded = ''room_ended''"

definition MsgRoomRenamed :: string where
  "MsgRoomRenamed = ''room_renamed''"

definition MsgOwnerChanged :: string where
  "MsgOwnerChanged = ''owner_changed''"

definition MsgDestination :: string where
  "MsgDestination = ''destination''"

definition MsgStops :: string where
  "MsgStops = ''stops''"

definition MsgChat :: string where
  "MsgChat = ''chat''"

definition MsgEmergency :: string where
  "MsgEmergency = ''emergency''"

definition MsgError :: string where
  "MsgError = ''error''"

definition MsgPong :: string where
  "MsgPong = ''pong''"

definition ClientMsgLocation :: string where
  "ClientMsgLocation = ''loc''"

definition ClientMsgEmergency :: string where
  "ClientMsgEmergency = ''emergency''"

definition ClientMsgPing :: string where
  "ClientMsgPing = ''ping''"

lemmas msg_types = MsgSnapshot_def MsgMemberJoined_def MsgMemberLeft_def MsgMemberPresent_def MsgMemberAbsent_def
  MsgLocation_def MsgMuted_def MsgKicked_def MsgRoomEnded_def MsgRoomRenamed_def MsgOwnerChanged_def
  MsgDestination_def MsgStops_def MsgChat_def MsgEmergency_def MsgError_def MsgPong_def
  ClientMsgLocation_def ClientMsgEmergency_def ClientMsgPing_def

definition pack :: "string \<Rightarrow> payload \<Rightarrow> frame" where
  "pack t payload = Envelope t payload"

lemma pack_inject [simp]: "pack t p = pack t' p' \<longleftrightarrow> t = t' \<and> p = p'"
  by (simp add: pack_def)

lemma pack_simps [simp]: "env_type (pack t p) = t" "env_payload (pack t p) = p"
  by (simp_all add: pack_def)

end
