(* ===== verification/Hub.thy ===== *)
theory Hub
  imports RoomService Messages
begin

text \<open>
  \<open>internal/realtime/client.go\<close> and \<open>hub.go\<close>: sockets, the per-room
  state and the broadcasts.  Clients are pointers in the source (the hub
  compares them with \<open>==\<close> and closes them from several places), so they live
  in a heap and the rooms hold their addresses.  A Go map is an association
  list with distinct keys; the order of iteration over a map is not specified
  by the language, and no theorem depends on it.  Every method here runs under
  the locks the source takes; the sections between two locks are split in
  \<open>HubRace\<close>.
\<close>

section \<open>A client\<close>

datatype pump = Running | Draining | Stopped

text \<open>
  \<open>cl_send\<close> is the buffered channel, \<open>cl_closed\<close> and \<open>cl_reason\<close> what
  \<open>closeOnce\<close> guards, \<open>cl_written\<close> the frames written to the connection,
  \<open>cl_shutdown\<close> the reason given to \<open>conn.Close\<close>, \<open>cl_pump\<close> where
  \<open>writePump\<close> is.
\<close>

record client =
  cl_user :: uuid
  cl_room :: uuid
  cl_send :: "frame list"
  cl_closed :: bool
  cl_reason :: string
  cl_written :: "frame list"
  cl_pump :: pump
  cl_shutdown :: "string option"

definition sendBuffer :: nat where
  "sendBuffer = 32"

definition newClient :: "uuid \<Rightarrow> uuid \<Rightarrow> client" where
  "newClient user roomID = \<lparr>cl_user = user, cl_room = roomID, cl_send = [], cl_closed = False, cl_reason = [],
     cl_written = [], cl_pump = Running, cl_shutdown = None\<rparr>"

definition close :: "string \<Rightarrow> client \<Rightarrow> client" where
  "close reason c = (if cl_closed c then c else c\<lparr>cl_closed := True, cl_reason := reason\<rparr>)"

definition enqueue :: "frame \<Rightarrow> client \<Rightarrow> client" where
  "enqueue b c =
     (if length (cl_send c) < sendBuffer then c\<lparr>cl_send := cl_send c @ [b]\<rparr>
      else close ''send buffer full'' c)"

text \<open>The deferred function of \<open>writePump\<close>.\<close>

definition shutdown :: "client \<Rightarrow> client" where
  "shutdown c = c\<lparr>cl_pump := Stopped,
     cl_shutdown := Some (if cl_reason c = [] then ''closed'' else cl_reason c)\<rparr>"

text \<open>The method \<open>write\<close> with the result of \<open>conn.Write\<close>.\<close>

definition client_write :: "bool \<Rightarrow> frame \<Rightarrow> client \<Rightarrow> bool \<times> client" where
  "client_write sent msg c =
     (if sent then (True, c\<lparr>cl_written := cl_written c @ [msg]\<rparr>) else (False, close ''write error'' c))"

text \<open>
  One turn of the \<open>select\<close> of \<open>writePump\<close>, or of \<open>drainSend\<close> once it
  was entered.  The event says which ready case was taken and how the
  connection answered; \<open>None\<close> means that the case is not ready.
\<close>

datatype pump_event = CtxDone | ClosedReady | SendReady bool | PingTick bool | DrainNext bool | DrainEmpty

fun writePump_step :: "pump_event \<Rightarrow> client \<Rightarrow> client option" where
  "writePump_step CtxDone c = (if cl_pump c = Running then Some (shutdown c) else None)"
| "writePump_step ClosedReady c =
     (if cl_pump c = Running \<and> cl_closed c then Some (c\<lparr>cl_pump := Draining\<rparr>) else None)"
| "writePump_step (SendReady sent) c =
     (if cl_pump c = Running then
        (case cl_send c of [] \<Rightarrow> None
         | msg # rest \<Rightarrow>
           (case client_write sent msg (c\<lparr>cl_send := rest\<rparr>) of
              (True, c') \<Rightarrow> Some c' | (False, c') \<Rightarrow> Some (shutdown c')))
      else None)"
| "writePump_step (PingTick alive) c =
     (if cl_pump c = Running then Some (if alive then c else shutdown (close ''ping failed'' c)) else None)"
| "writePump_step (DrainNext sent) c =
     (if cl_pump c = Draining then
        (case cl_send c of [] \<Rightarrow> None
         | msg # rest \<Rightarrow>
           (case client_write sent msg (c\<lparr>cl_send := rest\<rparr>) of
              (True, c') \<Rightarrow> Some c' | (False, c') \<Rightarrow> Some (shutdown c')))
      else None)"
| "writePump_step DrainEmpty c =
     (if cl_pump c = Draining \<and> cl_send c = [] then Some (shutdown c) else None)"

section \<open>The hub\<close>

type_synonym cid = nat

record roomState =
  rs_clients :: "(uuid \<times> cid) list"
  rs_locations :: "(uuid \<times> LocationEvent) list"
  rs_emergencies :: "uuid list"

definition newRoomState :: roomState where
  "newRoomState = \<lparr>rs_clients = [], rs_locations = [], rs_emergencies = []\<rparr>"

record hub =
  h_rooms :: "uuid \<Rightarrow> roomState option"
  h_heap :: "cid \<Rightarrow> client"
  h_next :: cid

definition NewHub :: hub where
  "NewHub = \<lparr>h_rooms = (\<lambda>_. None), h_heap = (\<lambda>_. newClient 0 0), h_next = 0\<rparr>"

definition alloc_client :: "uuid \<Rightarrow> uuid \<Rightarrow> hub \<Rightarrow> cid \<times> hub" where
  "alloc_client user roomID h =
     (h_next h, h\<lparr>h_heap := (h_heap h)(h_next h := newClient user roomID), h_next := Suc (h_next h)\<rparr>)"

definition on_client :: "cid \<Rightarrow> (client \<Rightarrow> client) \<Rightarrow> hub \<Rightarrow> hub" where
  "on_client c f h = h\<lparr>h_heap := (h_heap h)(c := f (h_heap h c))\<rparr>"

definition put_room :: "uuid \<Rightarrow> roomState \<Rightarrow> hub \<Rightarrow> hub" where
  "put_room roomID rs h = h\<lparr>h_rooms := (h_rooms h)(roomID := Some rs)\<rparr>"

text \<open>\<open>roomFor(id, true)\<close> creates the room; \<open>roomFor(id, false)\<close> is the lookup \<open>h_rooms h id\<close>.\<close>

definition roomFor :: "uuid \<Rightarrow> hub \<Rightarrow> roomState \<times> hub" where
  "roomFor roomID h =
     (case h_rooms h roomID of Some rs \<Rightarrow> (rs, h) | None \<Rightarrow> (newRoomState, put_room roomID newRoomState h))"

definition join :: "uuid \<Rightarrow> cid \<Rightarrow> hub \<Rightarrow> bool \<times> hub" where
  "join roomID c h =
     (let (rs, h1) = roomFor roomID h;
          uid = cl_user (h_heap h c);
          existing = map_of (rs_clients rs) uid;
          h2 = (case existing of None \<Rightarrow> h1 | Some e \<Rightarrow> on_client e (close ''replaced by new connection'') h1)
      in (existing = None, put_room roomID (rs\<lparr>rs_clients := AList.update uid c (rs_clients rs)\<rparr>) h2))"

definition leave :: "uuid \<Rightarrow> cid \<Rightarrow> hub \<Rightarrow> (bool \<times> bool) \<times> hub" where
  "leave roomID c h =
     (case h_rooms h roomID of
        None \<Rightarrow> ((False, False), h)
      | Some rs \<Rightarrow>
        (let uid = cl_user (h_heap h c);
             current = map_of (rs_clients rs) uid = Some c;
             clearedEmergency = (current \<and> uid \<in> set (rs_emergencies rs));
             rs' = (if current
                    then rs\<lparr>rs_clients := AList.delete uid (rs_clients rs),
                            rs_locations := AList.delete uid (rs_locations rs),
                            rs_emergencies := removeAll uid (rs_emergencies rs)\<rparr>
                    else rs);
             h1 = put_room roomID rs' h;
             h2 = (if rs_clients rs' = [] then h1\<lparr>h_rooms := (h_rooms h1)(roomID := None)\<rparr> else h1)
         in ((current, clearedEmergency), h2)))"

definition SetEmergency :: "uuid \<Rightarrow> uuid \<Rightarrow> bool \<Rightarrow> hub \<Rightarrow> bool \<times> hub" where
  "SetEmergency roomID userID active h =
     (let (rs, h1) = roomFor roomID h; has = userID \<in> set (rs_emergencies rs)
      in if active \<and> \<not> has
         then (True, put_room roomID (rs\<lparr>rs_emergencies := userID # rs_emergencies rs\<rparr>) h1)
         else if \<not> active \<and> has
         then (True, put_room roomID (rs\<lparr>rs_emergencies := removeAll userID (rs_emergencies rs)\<rparr>) h1)
         else (False, h1))"

definition EmergencyUserIDs :: "uuid \<Rightarrow> hub \<Rightarrow> uuid list" where
  "EmergencyUserIDs roomID h = (case h_rooms h roomID of None \<Rightarrow> [] | Some rs \<Rightarrow> rs_emergencies rs)"

definition PresentUserIDs :: "uuid \<Rightarrow> hub \<Rightarrow> uuid list" where
  "PresentUserIDs roomID h = (case h_rooms h roomID of None \<Rightarrow> [] | Some rs \<Rightarrow> map fst (rs_clients rs))"

definition PresentCount :: "uuid \<Rightarrow> hub \<Rightarrow> int" where
  "PresentCount roomID h = (case h_rooms h roomID of None \<Rightarrow> 0 | Some rs \<Rightarrow> int (length (rs_clients rs)))"

definition IsPresent :: "uuid \<Rightarrow> uuid \<Rightarrow> hub \<Rightarrow> bool" where
  "IsPresent roomID userID h =
     (case h_rooms h roomID of None \<Rightarrow> False | Some rs \<Rightarrow> map_of (rs_clients rs) userID \<noteq> None)"

definition recordLocation :: "uuid \<Rightarrow> LocationEvent \<Rightarrow> hub \<Rightarrow> hub" where
  "recordLocation roomID ev h =
     (let (rs, h1) = roomFor roomID h
      in put_room roomID (rs\<lparr>rs_locations := AList.update (LevUserID ev) ev (rs_locations rs)\<rparr>) h1)"

text \<open>The targets of a broadcast and the sends to each of them.\<close>

definition targets :: "uuid option \<Rightarrow> roomState \<Rightarrow> cid list" where
  "targets exclude rs = map snd (filter (\<lambda>(uid, c). exclude \<noteq> Some uid) (rs_clients rs))"

definition to_all :: "(client \<Rightarrow> client) \<Rightarrow> cid list \<Rightarrow> hub \<Rightarrow> hub" where
  "to_all f cs h = fold (\<lambda>c. on_client c f) cs h"

definition broadcast :: "uuid \<Rightarrow> string \<Rightarrow> payload \<Rightarrow> uuid option \<Rightarrow> hub \<Rightarrow> hub" where
  "broadcast roomID t payload exclude h =
     (case h_rooms h roomID of None \<Rightarrow> h
      | Some rs \<Rightarrow> to_all (enqueue (pack t payload)) (targets exclude rs) h)"

definition sendTo :: "cid \<Rightarrow> string \<Rightarrow> payload \<Rightarrow> hub \<Rightarrow> hub" where
  "sendTo c t payload h = on_client c (enqueue (pack t payload)) h"

definition BroadcastMemberJoined :: "uuid \<Rightarrow> Member \<Rightarrow> hub \<Rightarrow> hub" where
  "BroadcastMemberJoined roomID member h = broadcast roomID MsgMemberJoined (PMemberJoined member) None h"

definition BroadcastMemberLeft :: "uuid \<Rightarrow> uuid \<Rightarrow> hub \<Rightarrow> hub" where
  "BroadcastMemberLeft roomID userID h = broadcast roomID MsgMemberLeft (PMemberLeft userID) None h"

definition BroadcastMemberPresent :: "uuid \<Rightarrow> uuid \<Rightarrow> hub \<Rightarrow> hub" where
  "BroadcastMemberPresent roomID userID h =
     broadcast roomID MsgMemberPresent (PMemberPresent userID) (Some userID) h"

definition BroadcastMemberAbsent :: "uuid \<Rightarrow> uuid \<Rightarrow> hub \<Rightarrow> hub" where
  "BroadcastMemberAbsent roomID userID h =
     broadcast roomID MsgMemberAbsent (PMemberAbsent userID) (Some userID) h"

definition BroadcastEmergency :: "uuid \<Rightarrow> uuid \<Rightarrow> bool \<Rightarrow> hub \<Rightarrow> hub" where
  "BroadcastEmergency roomID userID active h = broadcast roomID MsgEmergency (PEmergency userID active) None h"

definition close_user :: "uuid \<Rightarrow> string \<Rightarrow> roomState \<Rightarrow> hub \<Rightarrow> hub" where
  "close_user userID reason rs h =
     (case map_of (rs_clients rs) userID of None \<Rightarrow> h | Some c \<Rightarrow> on_client c (close reason) h)"

definition DisconnectUser :: "uuid \<Rightarrow> uuid \<Rightarrow> hub \<Rightarrow> hub" where
  "DisconnectUser roomID userID h =
     (case h_rooms h roomID of None \<Rightarrow> h | Some rs \<Rightarrow> close_user userID ''left room'' rs h)"

definition BroadcastMute :: "uuid \<Rightarrow> uuid \<Rightarrow> bool \<Rightarrow> uuid \<Rightarrow> hub \<Rightarrow> hub" where
  "BroadcastMute roomID userID muted byID h = broadcast roomID MsgMuted (PMuted userID muted byID) None h"

definition KickConnection :: "uuid \<Rightarrow> uuid \<Rightarrow> uuid \<Rightarrow> hub \<Rightarrow> hub" where
  "KickConnection roomID userID byID h =
     (let h1 = broadcast roomID MsgKicked (PKicked userID byID) (Some userID) h
      in case h_rooms h1 roomID of None \<Rightarrow> h1
      | Some rs \<Rightarrow>
        (case map_of (rs_clients rs) userID of None \<Rightarrow> h1
         | Some c \<Rightarrow> on_client c (close ''kicked'') (sendTo c MsgKicked (PKicked userID byID) h1)))"

definition BroadcastDestination :: "uuid \<Rightarrow> Destination option \<Rightarrow> hub \<Rightarrow> hub" where
  "BroadcastDestination roomID dest h = broadcast roomID MsgDestination (PDestination dest) None h"

definition BroadcastStops :: "uuid \<Rightarrow> Stop list \<Rightarrow> hub \<Rightarrow> hub" where
  "BroadcastStops roomID stops h = broadcast roomID MsgStops (PStops stops) None h"

definition BroadcastRoomRenamed :: "uuid \<Rightarrow> string option \<Rightarrow> hub \<Rightarrow> hub" where
  "BroadcastRoomRenamed roomID name h = broadcast roomID MsgRoomRenamed (PRoomRenamed name) None h"

definition BroadcastOwnerChanged :: "uuid \<Rightarrow> uuid \<Rightarrow> uuid \<Rightarrow> hub \<Rightarrow> hub" where
  "BroadcastOwnerChanged roomID newOwnerID oldOwnerID h =
     broadcast roomID MsgOwnerChanged (POwnerChanged newOwnerID oldOwnerID) None h"

definition BroadcastChatMessage :: "uuid \<Rightarrow> Message \<Rightarrow> hub \<Rightarrow> hub" where
  "BroadcastChatMessage roomID msg h = broadcast roomID MsgChat (PChat msg) (Some (MessageUserID msg)) h"

definition BroadcastRoomEnded :: "uuid \<Rightarrow> hub \<Rightarrow> hub" where
  "BroadcastRoomEnded roomID h =
     (case h_rooms h roomID of None \<Rightarrow> h
      | Some rs \<Rightarrow>
        (let conns = map snd (rs_clients rs)
         in to_all (close ''room ended'') conns (to_all (enqueue (pack MsgRoomEnded NoPayload)) conns h)))"

text \<open>The hub as the service's \<open>Broadcaster\<close> (\<open>cmd/server/main.go\<close> passes it to \<open>NewService\<close>).\<close>

definition hub_broadcaster :: "hub Broadcaster" where
  "hub_broadcaster = \<lparr>
     bc_MemberJoined = BroadcastMemberJoined, bc_MemberLeft = BroadcastMemberLeft, bc_Mute = BroadcastMute,
     bc_KickConnection = KickConnection, bc_RoomEnded = BroadcastRoomEnded, bc_Destination = BroadcastDestination,
     bc_Stops = BroadcastStops, bc_OwnerChanged = BroadcastOwnerChanged, bc_RoomRenamed = BroadcastRoomRenamed,
     bc_ChatMessage = BroadcastChatMessage, bc_DisconnectUser = DisconnectUser,
     bc_PresentUserIDs = PresentUserIDs, bc_PresentCount = PresentCount, bc_EmergencyUserIDs = EmergencyUserIDs\<rparr>"

definition hub_service :: "hub Service" where
  "hub_service = \<lparr>svc_rt = Some hub_broadcaster\<rparr>"

section \<open>Frames from a client\<close>

text \<open>
  An inbound frame as JSON decoding presents it: not an envelope, or an envelope
  with its type and what its payload gives when decoded as a \<open>Location\<close> and
  as \<open>{ active }\<close> (\<open>None\<close> when decoding fails).
\<close>

datatype inbound = BadFrame | InFrame string "Location option" "bool option"

definition location_event :: "uuid \<Rightarrow> Location \<Rightarrow> int \<Rightarrow> LocationEvent" where
  "location_event userID loc ts = \<lparr>LevUserID = userID, LevLat = LocLat loc, LevLng = LocLng loc,
     LevHeading = LocHeading loc, LevSpeed = LocSpeed loc, LevTS = ts\<rparr>"

text \<open>The body of the loop of \<open>readPump\<close>, for a frame read at the time \<open>ts\<close>.\<close>

fun readPump_frame :: "int \<Rightarrow> cid \<Rightarrow> inbound \<Rightarrow> hub \<Rightarrow> hub" where
  "readPump_frame ts c BadFrame h = sendTo c MsgError (PError ''invalid frame'') h"
| "readPump_frame ts c (InFrame t loc act) h =
     (let self = cl_user (h_heap h c); roomID = cl_room (h_heap h c) in
      if t = ClientMsgPing then sendTo c MsgPong NoPayload h
      else if t = ClientMsgLocation then
        (case loc of None \<Rightarrow> sendTo c MsgError (PError ''invalid location'') h
         | Some l \<Rightarrow>
           (let ev = location_event self l ts
            in broadcast roomID MsgLocation (PLocation ev) (Some self) (recordLocation roomID ev h)))
      else if t = ClientMsgEmergency then
        (case act of None \<Rightarrow> sendTo c MsgError (PError ''invalid emergency'') h
         | Some active \<Rightarrow>
           (case SetEmergency roomID self active h of
              (changed, h1) \<Rightarrow> if changed then BroadcastEmergency roomID self active h1 else h1))
      else sendTo c MsgError (PError ''unknown message type'') h)"

end
