(* ===== verification/HubInvariant.thy ===== *)
theory HubInvariant
  imports Hub
begin

text \<open>
  The invariant of the hub and the effect of each of its methods on the rooms
  and on every client of the heap.
\<close>

section \<open>The invariant\<close>

definition room_ok :: "uuid \<Rightarrow> hub \<Rightarrow> roomState \<Rightarrow> bool" where
  "room_ok roomID h rs \<longleftrightarrow>
     distinct (map fst (rs_clients rs)) \<and> distinct (map fst (rs_locations rs)) \<and> distinct (rs_emergencies rs) \<and>
     (\<forall>(uid, c) \<in> set (rs_clients rs). c < h_next h \<and> cl_user (h_heap h c) = uid \<and> cl_room (h_heap h c) = roomID) \<and>
     (\<forall>(uid, ev) \<in> set (rs_locations rs). LevUserID ev = uid)"

text \<open>A client: the buffer never exceeds its capacity, and only a closed client drains.\<close>

definition client_ok :: "client \<Rightarrow> bool" where
  "client_ok c \<longleftrightarrow> length (cl_send c) \<le> sendBuffer \<and> (cl_pump c = Draining \<longrightarrow> cl_closed c) \<and>
     (cl_shutdown c \<noteq> None \<longleftrightarrow> cl_pump c = Stopped)"

definition hub_ok :: "hub \<Rightarrow> bool" where
  "hub_ok h \<longleftrightarrow> (\<forall>roomID rs. h_rooms h roomID = Some rs \<longrightarrow> room_ok roomID h rs) \<and> (\<forall>c. client_ok (h_heap h c))"

lemma hub_okD:
  assumes "hub_ok h"
  shows "h_rooms h roomID = Some rs \<Longrightarrow> room_ok roomID h rs" "client_ok (h_heap h c)"
  using assms by (auto simp: hub_ok_def)

text \<open>What never changes about a client once it exists.\<close>

definition same_owner :: "(client \<Rightarrow> client) \<Rightarrow> bool" where
  "same_owner f \<longleftrightarrow> (\<forall>c. cl_user (f c) = cl_user c \<and> cl_room (f c) = cl_room c \<and> (client_ok c \<longrightarrow> client_ok (f c)))"

lemma close_simps [simp]:
  "cl_user (close r c) = cl_user c" "cl_room (close r c) = cl_room c" "cl_send (close r c) = cl_send c"
  "cl_written (close r c) = cl_written c" "cl_closed (close r c)" "cl_pump (close r c) = cl_pump c"
  "cl_shutdown (close r c) = cl_shutdown c"
  by (simp_all add: close_def)

lemma close_close [simp]: "close r (close r' c) = close r' c"
  by (simp add: close_def)

lemma close_reason: "cl_reason (close r c) = (if cl_closed c then cl_reason c else r)"
  by (simp add: close_def)

lemma enqueue_simps [simp]:
  "cl_user (enqueue b c) = cl_user c" "cl_room (enqueue b c) = cl_room c" "cl_written (enqueue b c) = cl_written c"
  "cl_pump (enqueue b c) = cl_pump c" "cl_shutdown (enqueue b c) = cl_shutdown c"
  by (simp_all add: enqueue_def)

lemma same_owner_close [simp]: "same_owner (close r)"
  by (simp add: same_owner_def client_ok_def)

lemma same_owner_enqueue [simp]: "same_owner (enqueue b)"
  by (simp add: same_owner_def client_ok_def enqueue_def)

section \<open>Heap and rooms\<close>

lemma on_client_simps [simp]:
  "h_rooms (on_client c f h) = h_rooms h" "h_next (on_client c f h) = h_next h"
  "h_heap (on_client c f h) = (h_heap h)(c := f (h_heap h c))"
  by (simp_all add: on_client_def)

lemma put_room_simps [simp]:
  "h_rooms (put_room r rs h) = (h_rooms h)(r := Some rs)" "h_next (put_room r rs h) = h_next h"
  "h_heap (put_room r rs h) = h_heap h"
  by (simp_all add: put_room_def)

lemma to_all_frame [simp]: "h_rooms (to_all f cs h) = h_rooms h" "h_next (to_all f cs h) = h_next h"
  by (induction cs arbitrary: h) (simp_all add: to_all_def)

lemma to_all_heap:
  "distinct cs \<Longrightarrow> h_heap (to_all f cs h) = (\<lambda>c. if c \<in> set cs then f (h_heap h c) else h_heap h c)"
proof (induction cs arbitrary: h)
  case (Cons c cs)
  then have "h_heap (to_all f (c # cs) h) = h_heap (to_all f cs (on_client c f h))" by (simp add: to_all_def)
  also have "\<dots> = (\<lambda>x. if x \<in> set cs then f (h_heap (on_client c f h) x) else h_heap (on_client c f h) x)"
    using Cons by simp
  finally show ?case using Cons.prems by (auto simp: fun_eq_iff)
qed (simp add: to_all_def)

lemma distinct_clients:
  assumes "room_ok r h rs"
  shows "distinct (map snd (rs_clients rs))"
proof -
  have user: "fst x = cl_user (h_heap h (snd x))" if "x \<in> set (rs_clients rs)" for x
    using assms that by (cases x) (auto simp: room_ok_def)
  have "inj_on snd (set (rs_clients rs))"
    by (rule inj_onI) (metis user prod.expand)
  then show ?thesis using assms by (auto simp: room_ok_def distinct_map)
qed

lemma distinct_targets: "room_ok r h rs \<Longrightarrow> distinct (targets ex rs)"
  unfolding targets_def by (rule distinct_map_filter) (rule distinct_clients)

lemma set_targets: "c \<in> set (targets ex rs) \<longleftrightarrow> (\<exists>uid. (uid, c) \<in> set (rs_clients rs) \<and> ex \<noteq> Some uid)"
  by (force simp: targets_def)

lemma in_clients: "room_ok r h rs \<Longrightarrow> (u, c) \<in> set (rs_clients rs) \<longleftrightarrow> map_of (rs_clients rs) u = Some c"
  by (simp add: room_ok_def)

section \<open>Every change of one client or of one room keeps the invariant\<close>

lemma room_ok_heap:
  assumes "room_ok r h rs" "h_next h \<le> h_next h'"
    and "\<And>c. c < h_next h \<Longrightarrow> cl_user (h_heap h' c) = cl_user (h_heap h c) \<and> cl_room (h_heap h' c) = cl_room (h_heap h c)"
  shows "room_ok r h' rs"
  using assms by (fastforce simp: room_ok_def)

lemma hub_ok_change:
  assumes h: "hub_ok h" and nxt: "h_next h \<le> h_next h'"
    and owner: "\<And>c. c < h_next h \<Longrightarrow> cl_user (h_heap h' c) = cl_user (h_heap h c) \<and> cl_room (h_heap h' c) = cl_room (h_heap h c)"
    and client: "\<And>c. client_ok (h_heap h' c)"
    and room: "\<And>r rs. h_rooms h' r = Some rs \<Longrightarrow> h_rooms h r = Some rs \<or> room_ok r h' rs"
  shows "hub_ok h'"
  using client room room_ok_heap [OF hub_okD(1)[OF h] nxt owner] unfolding hub_ok_def by blast

lemma hub_ok_on_client: "hub_ok h \<Longrightarrow> same_owner f \<Longrightarrow> hub_ok (on_client c f h)"
  by (rule hub_ok_change [of h]) (simp_all add: same_owner_def hub_okD)

lemma hub_ok_to_all: "hub_ok h \<Longrightarrow> same_owner f \<Longrightarrow> hub_ok (to_all f cs h)"
  by (induction cs arbitrary: h) (simp_all add: to_all_def hub_ok_on_client)

lemma room_ok_cong: "h_next h' = h_next h \<Longrightarrow> h_heap h' = h_heap h \<Longrightarrow> room_ok r h' rs = room_ok r h rs"
  by (simp add: room_ok_def)

lemma hub_ok_put_room: "hub_ok h \<Longrightarrow> room_ok r h rs \<Longrightarrow> hub_ok (put_room r rs h)"
  by (rule hub_ok_change [of h]) (auto simp: hub_okD room_ok_cong [of "put_room r rs h" h] split: if_splits)

lemma hub_ok_drop_room: "hub_ok h \<Longrightarrow> hub_ok (h\<lparr>h_rooms := (h_rooms h)(r := None)\<rparr>)"
  by (rule hub_ok_change [of h]) (auto simp: hub_okD split: if_splits)

lemma room_ok_new [simp]: "room_ok r h newRoomState"
  by (simp add: room_ok_def newRoomState_def)

lemma hub_ok_NewHub: "hub_ok NewHub"
  by (simp add: hub_ok_def NewHub_def client_ok_def newClient_def)

lemma hub_ok_alloc: "hub_ok h \<Longrightarrow> hub_ok (snd (alloc_client u r h))"
  by (rule hub_ok_change [of h]) (simp_all add: alloc_client_def hub_okD, simp add: client_ok_def newClient_def)

lemma roomFor_ok:
  assumes "hub_ok h" "roomFor r h = (rs, h')"
  shows "room_ok r h' rs" "hub_ok h'" "h_heap h' = h_heap h" "h_next h' = h_next h" "h_rooms h' = (h_rooms h)(r := Some rs)"
  using assms by (auto simp: roomFor_def hub_ok_put_room dest: hub_okD split: option.splits)

lemma hub_ok_broadcast: "hub_ok h \<Longrightarrow> hub_ok (broadcast r t p ex h)"
  by (simp add: broadcast_def hub_ok_to_all split: option.splits)

lemma broadcast_frame [simp]: "h_rooms (broadcast r t p ex h) = h_rooms h" "h_next (broadcast r t p ex h) = h_next h"
  by (simp_all add: broadcast_def split: option.splits)

lemma broadcast_heap:
  assumes "hub_ok h"
  shows "h_heap (broadcast r t p ex h) c =
    (if \<exists>rs uid. h_rooms h r = Some rs \<and> (uid, c) \<in> set (rs_clients rs) \<and> ex \<noteq> Some uid
     then enqueue (pack t p) (h_heap h c) else h_heap h c)"
proof (cases "h_rooms h r")
  case (Some rs)
  with to_all_heap [OF distinct_targets [OF hub_okD(1)[OF assms Some]]] show ?thesis
    by (simp add: broadcast_def set_targets)
qed (simp add: broadcast_def)


section \<open>Methods that change a room\<close>

lemma room_ok_update_client:
  assumes "room_ok r h rs" "c < h_next h" "cl_user (h_heap h c) = u" "cl_room (h_heap h c) = r"
  shows "room_ok r h (rs\<lparr>rs_clients := AList.update u c (rs_clients rs)\<rparr>)"
proof -
  have d: "distinct (map fst (rs_clients rs))" using assms(1) by (simp add: room_ok_def)
  with assms show ?thesis by (auto simp: room_ok_def distinct_update in_alist_update split: if_splits)
qed

lemma room_ok_drop_client:
  "room_ok r h rs \<Longrightarrow> room_ok r h (rs\<lparr>rs_clients := AList.delete u (rs_clients rs),
     rs_locations := AList.delete u (rs_locations rs), rs_emergencies := removeAll u (rs_emergencies rs)\<rparr>)"
  by (auto simp: room_ok_def distinct_delete in_alist_delete distinct_removeAll)

lemma hub_ok_join:
  assumes h: "hub_ok h" and c: "c < h_next h" "cl_room (h_heap h c) = r"
  shows "hub_ok (snd (join r c h))"
proof -
  obtain rs h1 where r: "roomFor r h = (rs, h1)" by force
  note rf = roomFor_ok [OF h r]
  let ?u = "cl_user (h_heap h c)"
  define h2 where "h2 = (case map_of (rs_clients rs) ?u of None \<Rightarrow> h1
    | Some e \<Rightarrow> on_client e (close ''replaced by new connection'') h1)"
  have h2: "hub_ok h2" "h_next h2 = h_next h" "\<And>c. cl_user (h_heap h2 c) = cl_user (h_heap h c)"
      "\<And>c. cl_room (h_heap h2 c) = cl_room (h_heap h c)"
    using rf by (auto simp: h2_def hub_ok_on_client split: option.splits)
  then have "room_ok r h2 rs" using rf by (intro room_ok_heap [OF rf(1)]) simp_all
  then have "room_ok r h2 (rs\<lparr>rs_clients := AList.update ?u c (rs_clients rs)\<rparr>)"
    by (rule room_ok_update_client) (use h2 c in simp_all)
  with h2(1) r show ?thesis by (simp add: join_def Let_def h2_def [symmetric] hub_ok_put_room)
qed

lemma hub_ok_leave:
  assumes "hub_ok h"
  shows "hub_ok (snd (leave r c h))"
proof (cases "h_rooms h r")
  case (Some rs)
  then have rs: "room_ok r h rs" using assms by (rule hub_okD(1) [rotated])
  with assms have "hub_ok (put_room r (if b then rs\<lparr>rs_clients := AList.delete u (rs_clients rs),
     rs_locations := AList.delete u (rs_locations rs), rs_emergencies := removeAll u (rs_emergencies rs)\<rparr> else rs) h)" for b u
    by (simp add: hub_ok_put_room room_ok_drop_client)
  with Some show ?thesis by (simp add: leave_def Let_def hub_ok_drop_room del: put_room_simps)
qed (simp add: leave_def assms)

lemma hub_ok_SetEmergency:
  assumes "hub_ok h"
  shows "hub_ok (snd (SetEmergency r u a h))"
proof -
  obtain rs h1 where r: "roomFor r h = (rs, h1)" by force
  with roomFor_ok [OF assms r] show ?thesis
    by (auto simp: SetEmergency_def Let_def intro!: hub_ok_put_room) (auto simp: room_ok_def distinct_removeAll)
qed

lemma hub_ok_recordLocation:
  assumes "hub_ok h"
  shows "hub_ok (recordLocation r ev h)"
proof -
  obtain rs h1 where r: "roomFor r h = (rs, h1)" by force
  note rf = roomFor_ok [OF assms r]
  then have d: "distinct (map fst (rs_locations rs))" by (simp add: room_ok_def)
  with rf r show ?thesis
    by (auto simp: recordLocation_def intro!: hub_ok_put_room)
      (auto simp: room_ok_def distinct_update in_alist_update split: if_splits)
qed

lemma hub_ok_sendTo: "hub_ok h \<Longrightarrow> hub_ok (sendTo c t p h)"
  by (simp add: sendTo_def hub_ok_on_client)

lemma hub_ok_close_user: "hub_ok h \<Longrightarrow> hub_ok (close_user u reason rs h)"
  by (simp add: close_user_def hub_ok_on_client split: option.splits)

lemma hub_ok_KickConnection: "hub_ok h \<Longrightarrow> hub_ok (KickConnection r u b h)"
  by (simp add: KickConnection_def Let_def hub_ok_broadcast hub_ok_on_client hub_ok_sendTo split: option.splits)

lemma hub_ok_RoomEnded: "hub_ok h \<Longrightarrow> hub_ok (BroadcastRoomEnded r h)"
  by (simp add: BroadcastRoomEnded_def Let_def hub_ok_to_all split: option.splits)

lemma hub_ok_DisconnectUser: "hub_ok h \<Longrightarrow> hub_ok (DisconnectUser r u h)"
  by (simp add: DisconnectUser_def hub_ok_close_user split: option.splits)

lemmas hub_broadcasts = BroadcastMemberJoined_def BroadcastMemberLeft_def BroadcastMemberPresent_def
  BroadcastMemberAbsent_def BroadcastEmergency_def BroadcastMute_def BroadcastDestination_def BroadcastStops_def
  BroadcastRoomRenamed_def BroadcastOwnerChanged_def BroadcastChatMessage_def

lemmas hub_ok_intros = hub_ok_broadcast hub_ok_sendTo hub_ok_KickConnection hub_ok_RoomEnded hub_ok_DisconnectUser
  hub_ok_recordLocation hub_ok_SetEmergency hub_ok_leave hub_ok_join hub_ok_alloc

lemma hub_ok_readPump: "hub_ok h \<Longrightarrow> hub_ok (readPump_frame ts c f h)"
proof (cases f)
  case (InFrame t loc act)
  assume h: "hub_ok h"
  have "hub_ok h1" if "SetEmergency r u a h = (b, h1)" for r u a b h1
    using hub_ok_SetEmergency [OF h, of r u a] that by simp
  with h InFrame show ?thesis
    by (auto simp: Let_def hub_ok_intros hub_broadcasts split: option.splits prod.splits)
qed (simp add: hub_ok_sendTo)

lemma writePump_owner:
  "writePump_step e c = Some c' \<Longrightarrow> cl_user c' = cl_user c \<and> cl_room c' = cl_room c"
  by (cases e) (auto simp: shutdown_def client_write_def split: if_splits list.splits)

lemma writePump_client_ok: "writePump_step e c = Some c' \<Longrightarrow> client_ok c \<Longrightarrow> client_ok c'"
  by (cases e) (auto simp: shutdown_def client_write_def client_ok_def split: if_splits list.splits)

lemma hub_ok_pump:
  assumes "hub_ok h" "writePump_step e (h_heap h c) = Some c'"
  shows "hub_ok (on_client c (\<lambda>_. c') h)"
  by (rule hub_ok_change [OF assms(1)])
    (use assms hub_okD [OF assms(1)] writePump_owner [OF assms(2)] writePump_client_ok [OF assms(2)] in auto)

end
