(* ===== verification/Realtime.thy ===== *)
theory Realtime
  imports HubInvariant Auth
begin

text \<open>
  \<open>internal/realtime/handler.go\<close>: the WebSocket endpoint, from the checks
  before the upgrade to the teardown, and the snapshot it sends
  (\<open>Hub.snapshot\<close>).
\<close>

section \<open>Snapshot\<close>

definition Hub_snapshot :: "uuid \<Rightarrow> uuid \<Rightarrow> (hub, SnapshotPayload) svc" where
  "Hub_snapshot roomID selfID =
     andThen (Store_ListMembers roomID) (\<lambda>members.
     andThen (Store_GetDestination roomID) (\<lambda>dest.
     andThen (Store_ListStops roomID) (\<lambda>stops.
     andThen (effect (\<lambda>w. w\<lparr>w_rt := snd (roomFor roomID (w_rt w))\<rparr>)) (\<lambda>_.
     asks (\<lambda>w. let rs = fst (roomFor roomID (w_rt w)) in
       \<lparr>SnapSelf = selfID, SnapMembers = members, SnapLocations = rs_locations rs, SnapDestination = dest,
        SnapStops = stops, SnapPresentUserIDs = map fst (rs_clients rs), SnapEmergencyUserIDs = rs_emergencies rs\<rparr>)))))"

section \<open>The endpoint\<close>

text \<open>
  What the handler answers: an error page, a failed upgrade (the library has
  answered), or an open socket served by a client.
\<close>

datatype ws_answer = WsError nat string | WsNoUpgrade | WsOpen cid

text \<open>
  Lines 30 to 89: the checks, the upgrade (\<open>accepted\<close> is the result of
  \<open>websocket.Accept\<close>), and what happens before the pumps start.
\<close>

definition ws_admit ::
  "libs \<Rightarrow> AuthService \<Rightarrow> timestamp \<Rightarrow> string \<Rightarrow> string \<Rightarrow> hub rworld \<Rightarrow> (ws_answer + uuid \<times> User) \<times> hub rworld" where
  "ws_admit L s now room token w =
     (case uuid_Parse L room of
        Inl _ \<Rightarrow> (Inl (WsError 400 ''invalid room''), w)
      | Inr roomID \<Rightarrow>
     (case Verify L s now token of
        Inl _ \<Rightarrow> (Inl (WsError 401 ''unauthorized''), w)
      | Inr userID \<Rightarrow>
     (case Store_GetByID roomID w of
        (Inl e, w1) \<Rightarrow>
          (Inl (if e = ErrNotFound then WsError 404 ''room not found'' else WsError 500 ''server error''), w1)
      | (Inr r, w1) \<Rightarrow>
        if RoomEndedAt r \<noteq> None then (Inl (WsError 410 ''room ended''), w1) else
     (case Store_ActiveMembership roomID userID w1 of
        (Inl _, w2) \<Rightarrow> (Inl (WsError 403 ''forbidden''), w2)
      | (Inr _, w2) \<Rightarrow>
     (case LoadUser userID w2 of
        (Inl _, w3) \<Rightarrow> (Inl (WsError 500 ''server error''), w3)
      | (Inr user, w3) \<Rightarrow> (Inr (roomID, user), w3))))))"

definition ws_start :: "uuid \<Rightarrow> uuid \<Rightarrow> hub rworld \<Rightarrow> cid \<times> hub rworld" where
  "ws_start roomID userID w =
     (let (c, h1) = alloc_client userID roomID (w_rt w);
          (becamePresent, h2) = join roomID c h1;
          (snap, w1) = Hub_snapshot roomID userID (w\<lparr>w_rt := h2\<rparr>);
          h3 = (case snap of Inl _ \<Rightarrow> w_rt w1 | Inr sp \<Rightarrow> sendTo c MsgSnapshot (PSnapshot sp) (w_rt w1));
          h4 = (if becamePresent then BroadcastMemberPresent roomID userID h3 else h3)
      in (c, w1\<lparr>w_rt := h4\<rparr>))"

definition ServeHTTP_open ::
  "libs \<Rightarrow> AuthService \<Rightarrow> timestamp \<Rightarrow> string \<Rightarrow> string \<Rightarrow> bool \<Rightarrow> hub rworld \<Rightarrow> ws_answer \<times> hub rworld" where
  "ServeHTTP_open L s now room token accepted w =
     (case ws_admit L s now room token w of
        (Inl answer, w1) \<Rightarrow> (answer, w1)
      | (Inr (roomID, user), w1) \<Rightarrow>
        if \<not> accepted then (WsNoUpgrade, w1)
        else (case ws_start roomID (UserID user) w1 of (c, w2) \<Rightarrow> (WsOpen c, w2)))"

text \<open>Lines 93 to 111, once \<open>readPump\<close> has returned: its deferred close, then the departure.\<close>

definition ServeHTTP_close :: "cid \<Rightarrow> hub \<Rightarrow> hub" where
  "ServeHTTP_close c h =
     (let roomID = cl_room (h_heap h c); userID = cl_user (h_heap h c);
          h1 = on_client c (close ''read loop ended'') h;
          ((wasPresent, clearedEmergency), h2) = leave roomID c h1
      in if wasPresent
         then BroadcastMemberAbsent roomID userID
                (if clearedEmergency then BroadcastEmergency roomID userID False h2 else h2)
         else h2)"

end
