(* ===== verification/Demo.thy ===== *)
theory Demo
  imports RoomHandlers Realtime
begin

text \<open>
  A small concrete state used to show that the theorems apply: three users, a
  convoy \<open>10\<close> with code \<open>123456\<close> owned by user 1 with member 2, a
  destination, two stops and three chat lines; no faults, a clock that ticks one
  microsecond per statement, fresh identifiers from 100 to 999.
\<close>

definition demo_user :: "uuid \<Rightarrow> string \<Rightarrow> user_row" where
  "demo_user u name = new_user u name None None 0"

definition demo_room :: room_row where
  "demo_room = (new_room 10 ''123456'' (Some ''Trip'') 1 5)
     \<lparr>r_dest_lat := Some 30, r_dest_lng := Some 31, r_dest_name := Some ''Lake'', r_dest_set_at := Some 6, r_dest_set_by := Some 1\<rparr>"

definition demo_stop :: "uuid \<Rightarrow> int \<Rightarrow> stop_row" where
  "demo_stop i pos = \<lparr>st_id = i, st_room_id = 10, st_lat = 30, st_lng = 30, st_label = None, st_position = pos,
     st_created_by = Some 1, st_created_at = 7\<rparr>"

definition demo_message :: "uuid \<Rightarrow> uuid \<Rightarrow> timestamp \<Rightarrow> message_row" where
  "demo_message i u t = \<lparr>ms_id = i, ms_room_id = 10, ms_user_id = u, ms_body = ''hi'', ms_created_at = t\<rparr>"

definition demo_db :: db where
  "demo_db = (init_db 0)
     \<lparr>t_users := [demo_user 1 ''Ann'', demo_user 2 ''Bob'', demo_user 3 ''Cid''],
      t_rooms := [demo_room],
      t_room_members := [new_member 10 1 RoleOwner 5, new_member 10 2 RoleMember 6],
      t_room_stops := [demo_stop 20 0, demo_stop 21 1],
      t_messages := [demo_message 30 1 8, demo_message 31 2 9, demo_message 32 1 9]\<rparr>"

definition demo_tick :: "nat \<Rightarrow> tick" where
  "demo_tick i = \<lparr>tk_fault = None, tk_now = 1000 + int i, tk_uuid = of_nat (100 + i mod 900)\<rparr>"

definition demo_world :: "'h \<Rightarrow> 'h rworld" where
  "demo_world h = \<lparr>w_db = demo_db, w_sched = demo_tick, w_pos = 0, w_aborted = False, w_rt = h,
     w_rand = (\<lambda>i. Inr (i + 3)), w_rand_pos = 0\<rparr>"

definition silent :: "'h Service" where
  "silent = \<lparr>svc_rt = None\<rparr>"

lemma demo_calm [simp]: "calm (demo_world h)"
  by (simp add: calm_def demo_world_def demo_tick_def)

lemma demo_world_simps [simp]:
  "w_db (demo_world h) = demo_db" "w_rt (demo_world h) = h" "w_sched (demo_world h) = demo_tick"
  "w_pos (demo_world h) = 0" "w_rand (demo_world h) = (\<lambda>i. Inr (i + 3))" "w_rand_pos (demo_world h) = 0"
  by (simp_all add: demo_world_def)

lemmas demo_defs = demo_db_def demo_room_def demo_user_def demo_stop_def demo_message_def init_db_def new_user_def
  new_room_def new_member_def RoleOwner_def RoleMember_def

lemma demo_db_ok: "db_ok demo_db"
  by (simp add: db_ok_def keys_ok_def codes_ok_def refs_ok_def owners_ok_def members_ok_def stops_ok_def stop_ok_def
      dest_ok_def room_exists_def user_exists_def demo_defs room_active_def inj_on_def)

lemma demo_owner: "is_owner demo_db 10 u \<longleftrightarrow> u = 1"
  by (auto simp: is_owner_def active_member_def joined_def is_membership_def demo_defs)

lemma demo_member: "is_member demo_db 10 u \<longleftrightarrow> u = 1 \<or> u = 2"
  by (auto simp: is_member_def active_member_def joined_def is_membership_def demo_defs)


lemma demo_uuid: "unat (tk_uuid (demo_tick i)) = 100 + i mod 900"
proof -
  have "100 + i mod 900 < 2 ^ LENGTH(128)" by (rule less_trans [of _ 1000]) simp_all
  then show ?thesis by (simp add: demo_tick_def unat_of_nat del: of_nat_add)
qed

lemma demo_uuid_fresh: "unat u < 100 \<Longrightarrow> tk_uuid (demo_tick i) \<noteq> u"
  using demo_uuid [of i] by auto


lemma demo_user_exists [simp]: "user_exists demo_db u \<longleftrightarrow> u = 1 \<or> u = 2 \<or> u = 3"
  by (auto simp: user_exists_def demo_defs)

lemma demo_room_exists [simp]: "room_exists demo_db r \<longleftrightarrow> r = 10"
  by (auto simp: room_exists_def demo_defs)

lemma demo_rooms [simp]: "t_rooms demo_db = [demo_room]"
  by (simp add: demo_db_def)

lemma demo_room_simps [simp]:
  "r_id demo_room = 10" "r_code demo_room = ''123456''" "r_owner_id demo_room = 1" "room_active demo_room"
  by (simp_all add: demo_room_def new_room_def room_active_def)

section \<open>Concrete libraries\<close>

text \<open>
  An instance of \<open>libs\<close>: identifiers in unary, and tokens that carry the key,
  the subject and the expiry in the clear and are refused under another key or
  after their expiry.
\<close>

definition demo_enc :: "string \<Rightarrow> string" where
  "demo_enc s = replicate (length s) CHR ''1'' @ CHR ''0'' # s"

definition demo_dec :: "string \<Rightarrow> string \<times> string" where
  "demo_dec t = (let n = length (takeWhile ((=) CHR ''1'') t) in (take n (drop (Suc n) t), drop n (drop (Suc n) t)))"

definition demo_sign :: "string \<Rightarrow> MapClaims \<Rightarrow> string + string" where
  "demo_sign key claims = Inr (demo_enc key @ demo_enc (claim_str claims ''sub'') @
     (case claims ''exp'' of Some (CNum e) \<Rightarrow> replicate (nat e) CHR ''x'' | _ \<Rightarrow> []))"

definition demo_parse :: "timestamp \<Rightarrow> (bool \<Rightarrow> string + string) \<Rightarrow> string \<Rightarrow> string + bool \<times> MapClaims" where
  "demo_parse now keyfunc tok =
     (let (key, r1) = demo_dec tok; (sub, r2) = demo_dec r1 in
      case keyfunc True of Inl msg \<Rightarrow> Inl msg
      | Inr k \<Rightarrow> if k \<noteq> key then Inl ''signature is invalid''
        else if now \<ge> int (length r2) * 1000000 then Inl ''token is expired''
        else Inr (True, [''sub'' \<mapsto> CStr sub, ''exp'' \<mapsto> CNum (int (length r2))]))"

definition demo_libs :: libs where
  "demo_libs = \<lparr>jwt_Parse = demo_parse, jwt_ParseWithClaims = (\<lambda>now methods tok. Inl ''no key set''),
     jwt_SignedString = demo_sign,
     uuid_Parse = (\<lambda>s. if set s \<subseteq> {CHR ''u''} then Inr (of_nat (length s)) else Inl ''invalid UUID''),
     uuid_String = (\<lambda>u. replicate (unat u) CHR ''u'')\<rparr>"

lemma demo_dec_enc [simp]: "demo_dec (demo_enc s @ r) = (s, r)"
  by (simp add: demo_dec_def demo_enc_def takeWhile_append)

lemma demo_uuid_roundtrip [simp]: "uuid_Parse demo_libs (uuid_String demo_libs u) = Inr u"
  by (auto simp: demo_libs_def)

end
