(* ===== verification/RoomGuards.thy ===== *)
theory RoomGuards
  imports RoomSafety
begin

text \<open>
  Who may do what.  A guard is a check that runs before anything else and lets
  only some users through; a guarded operation changes nothing for the others.
  The service has two guards, \<open>requireOwner\<close> and \<open>AssertMember\<close>.
\<close>

section \<open>Guards as an interface\<close>

locale guard =
  fixes check :: "uuid \<Rightarrow> uuid \<Rightarrow> ('h, 'g) svc"
    and allowed :: "db \<Rightarrow> uuid \<Rightarrow> uuid \<Rightarrow> bool"
  assumes check_allowed: "check roomID u w = (Inr x, w') \<Longrightarrow> allowed (w_db w) roomID u"
    and check_same: "check roomID u w = (res, w') \<Longrightarrow> same_state w w'"
    and check_refuses: "calm w \<Longrightarrow> \<not> allowed (w_db w) roomID u \<Longrightarrow> check roomID u w = (Inl ErrForbidden, advance w)"
    and check_passes: "calm w \<Longrightarrow> allowed (w_db w) roomID u \<Longrightarrow> \<exists>x. check roomID u w = (Inr x, advance w)"

locale guarded_op = guard check allowed
  for check :: "uuid \<Rightarrow> uuid \<Rightarrow> ('h, 'g) svc" and allowed :: "db \<Rightarrow> uuid \<Rightarrow> uuid \<Rightarrow> bool" +
  fixes op :: "uuid \<Rightarrow> uuid \<Rightarrow> ('h, 'a) svc"
  assumes guarded: "\<exists>k. op roomID u = andThen (check roomID u) k"
begin

lemma refused:
  assumes "\<not> allowed (w_db w) roomID u"
  shows "\<exists>e w'. op roomID u w = (Inl e, w') \<and> same_state w w'"
proof -
  obtain k where op: "op roomID u = andThen (check roomID u) k" using guarded by blast
  obtain res w' where c: "check roomID u w = (res, w')" by force
  with assms check_allowed obtain e where "res = Inl e" by (cases res) auto
  with op c check_same [OF c] show ?thesis by (simp add: andThen_Inl)
qed

lemma forbidden:
  assumes "calm w" "\<not> allowed (w_db w) roomID u"
  shows "op roomID u w = (Inl ErrForbidden, advance w)"
proof -
  obtain k where "op roomID u = andThen (check roomID u) k" using guarded by blast
  then show ?thesis by (simp add: andThen_Inl check_refuses assms)
qed

lemma outcome_refused:
  assumes "\<not> allowed (w_db w) roomID u"
  shows "fst (outcome (op roomID u w)) \<noteq> None \<and> same_state w (snd (outcome (op roomID u w))) \<and>
    (calm w \<longrightarrow> fst (outcome (op roomID u w)) = Some ErrForbidden)"
proof -
  obtain e w' where "op roomID u w = (Inl e, w')" "same_state w w'" using refused [OF assms] by blast
  moreover have "calm w \<Longrightarrow> fst (outcome (op roomID u w)) = Some ErrForbidden"
    using forbidden [OF _ assms] by (simp add: outcome_def)
  ultimately show ?thesis by (simp add: outcome_def)
qed

text \<open>A call that succeeded was made by an allowed user.\<close>

lemma succeeded: "op roomID u w = (Inr x, w') \<Longrightarrow> allowed (w_db w) roomID u"
  using refused by fastforce

end

section \<open>The two guards of the service\<close>

interpretation owner_guard: guard requireOwner is_owner
proof unfold_locales
  fix roomID u and w :: "'h rworld" and x w' res
  show "requireOwner roomID u w = (Inr x, w') \<Longrightarrow> is_owner (w_db w) roomID u"
    by (cases x) (auto dest: requireOwner_InrD)
  show "requireOwner roomID u w = (res, w') \<Longrightarrow> same_state w w'"
    by (cases res) (auto dest: requireOwner_InrD requireOwner_InlD)
qed (simp_all add: requireOwner_calm)

interpretation member_guard: guard AssertMember is_member
proof unfold_locales
  fix roomID u and w :: "'h rworld" and x w' res
  show "AssertMember roomID u w = (Inr x, w') \<Longrightarrow> is_member (w_db w) roomID u"
    by (auto dest: AssertMember_InrD)
  show "AssertMember roomID u w = (res, w') \<Longrightarrow> same_state w w'"
    by (cases res) (auto dest: AssertMember_InrD AssertMember_InlD)
qed (auto simp: AssertMember_calm is_member_def find_None_iff split: option.splits dest: find_SomeD)

interpretation set_destination: guarded_op requireOwner is_owner "\<lambda>r u. Service_SetDestination s r u lat lng name notes"
  for s :: "'h Service" and lat lng name "notes"
  by unfold_locales (auto simp: Service_SetDestination_def)

interpretation update_destination_meta: guarded_op requireOwner is_owner "\<lambda>r u. Service_UpdateDestinationMeta s r u name notes"
  for s :: "'h Service" and name "notes"
  by unfold_locales (auto simp: Service_UpdateDestinationMeta_def)

interpretation clear_destination: guarded_op requireOwner is_owner "Service_ClearDestination s"
  for s :: "'h Service"
  by unfold_locales (auto simp: Service_ClearDestination_def)

interpretation add_stop: guarded_op requireOwner is_owner "\<lambda>r u. Service_AddStop s r u lat lng label"
  for s :: "'h Service" and lat lng label
  by unfold_locales (auto simp: Service_AddStop_def)

interpretation update_stop_label: guarded_op requireOwner is_owner "\<lambda>r u. Service_UpdateStopLabel s r u stopID label"
  for s :: "'h Service" and stopID label
  by unfold_locales (auto simp: Service_UpdateStopLabel_def)

interpretation remove_stop: guarded_op requireOwner is_owner "\<lambda>r u. Service_RemoveStop s r u stopID"
  for s :: "'h Service" and stopID
  by unfold_locales (auto simp: Service_RemoveStop_def)

interpretation clear_stops: guarded_op requireOwner is_owner "Service_ClearStops s"
  for s :: "'h Service"
  by unfold_locales (auto simp: Service_ClearStops_def)

interpretation rename: guarded_op requireOwner is_owner "\<lambda>r u. Service_Rename s r u name"
  for s :: "'h Service" and name
  by unfold_locales (auto simp: Service_Rename_def)

interpretation transfer: guarded_op requireOwner is_owner "\<lambda>r u. Service_TransferOwnership s r u targetID"
  for s :: "'h Service" and targetID
  by unfold_locales (auto simp: Service_TransferOwnership_def)

interpretation mute: guarded_op requireOwner is_owner "\<lambda>r u. Service_Mute s r u targetID muted"
  for s :: "'h Service" and targetID muted
  by unfold_locales (auto simp: Service_Mute_def)

interpretation kick: guarded_op requireOwner is_owner "\<lambda>r u. Service_Kick s r u targetID"
  for s :: "'h Service" and targetID
  by unfold_locales (auto simp: Service_Kick_def)

interpretation end_room: guarded_op requireOwner is_owner "Service_End s"
  for s :: "'h Service"
  by unfold_locales (auto simp: Service_End_def)

interpretation set_marker: guarded_op AssertMember is_member "\<lambda>r u. Service_SetPersonalMarker r u lat lng label"
  for lat lng label
  by unfold_locales (auto simp: Service_SetPersonalMarker_def)

interpretation clear_marker: guarded_op AssertMember is_member Service_ClearPersonalMarker
  by unfold_locales (auto simp: Service_ClearPersonalMarker_def)

interpretation post_message: guarded_op AssertMember is_member "\<lambda>r u. Service_PostMessage s r u body"
  for s :: "'h Service" and body
  by unfold_locales (auto simp: Service_PostMessage_def)

interpretation list_messages: guarded_op AssertMember is_member "\<lambda>r u. Service_ListMessages r u before limit"
  for before limit
  by unfold_locales (auto simp: Service_ListMessages_def)

text \<open>Which requests act on which room, and who may make them.\<close>

fun owner_only :: "room_op \<Rightarrow> uuid option" where
  "owner_only (OpSetDestination r lat lng name notes) = Some r"
| "owner_only (OpUpdateDestinationMeta r name notes) = Some r"
| "owner_only (OpClearDestination r) = Some r"
| "owner_only (OpAddStop r lat lng label) = Some r"
| "owner_only (OpUpdateStopLabel r st label) = Some r"
| "owner_only (OpRemoveStop r st) = Some r"
| "owner_only (OpClearStops r) = Some r"
| "owner_only (OpRename r name) = Some r"
| "owner_only (OpTransferOwnership r t) = Some r"
| "owner_only (OpMute r t muted) = Some r"
| "owner_only (OpKick r t) = Some r"
| "owner_only (OpEnd r) = Some r"
| "owner_only _ = None"

fun members_only :: "room_op \<Rightarrow> uuid option" where
  "members_only (OpSetPersonalMarker r lat lng label) = Some r"
| "members_only (OpClearPersonalMarker r) = Some r"
| "members_only (OpPostMessage r body) = Some r"
| "members_only (OpListMessages r before limit) = Some r"
| "members_only _ = None"

lemmas owner_refusals =
  set_destination.outcome_refused update_destination_meta.outcome_refused clear_destination.outcome_refused
  add_stop.outcome_refused update_stop_label.outcome_refused remove_stop.outcome_refused
  clear_stops.outcome_refused rename.outcome_refused transfer.outcome_refused mute.outcome_refused
  kick.outcome_refused end_room.outcome_refused

lemmas member_refusals =
  set_marker.outcome_refused clear_marker.outcome_refused post_message.outcome_refused list_messages.outcome_refused

end
