(* ===== verification/CreateJoin.thy ===== *)
theory CreateJoin
  imports Demo RoomGuards
begin

text \<open>
  Creating a convoy and joining it by its code: the transaction of
  \<open>CreateRoom\<close>, the retry loop over random codes, and the round trip from
  the code back to the room.
\<close>

section \<open>Codes\<close>

lemma rand_Int_cases:
  assumes "rand_Int b w = (r, w')"
  shows "w' = w\<lparr>w_rand_pos := Suc (w_rand_pos w)\<rparr>"
    "r = (case w_rand w (w_rand_pos w) of Inl m \<Rightarrow> Inl (OtherError m) | Inr n \<Rightarrow> Inr (n mod b))"
  using assms by (auto simp: rand_Int_def split: sum.splits)

lemma codeAlphabet_digit: "n < length codeAlphabet \<Longrightarrow> digit (codeAlphabet ! n)"
proof -
  have "list_all digit codeAlphabet" by (simp add: codeAlphabet_def digit_def)
  then show "n < length codeAlphabet \<Longrightarrow> digit (codeAlphabet ! n)" by (simp add: list_all_length)
qed

text \<open>The digits drawn from a given position of the random source.\<close>

definition digits_at :: "'h rworld \<Rightarrow> nat \<Rightarrow> nat \<Rightarrow> string" where
  "digits_at w p n = map (\<lambda>i. codeAlphabet ! (projr (w_rand w (p + i)) mod length codeAlphabet)) [0..<n]"

lemma digits_at_Suc:
  "digits_at w p (Suc n) = (codeAlphabet ! (projr (w_rand w p) mod length codeAlphabet)) # digits_at w (Suc p) n"
  by (simp add: digits_at_def upt_conv_Cons map_Suc_upt [symmetric] del: upt_Suc)

lemma length_codeAlphabet [simp]: "length codeAlphabet = 10"
  by (simp add: codeAlphabet_def)

lemma digits_at_digits: "list_all digit (digits_at w p n)" "length (digits_at w p n) = n"
  by (simp_all add: digits_at_def list_all_iff codeAlphabet_digit)

lemma generate_digits_Inr:
  "generate_digits n w = (Inr code, w') \<Longrightarrow>
     code = digits_at w (w_rand_pos w) n \<and> w' = w\<lparr>w_rand_pos := w_rand_pos w + n\<rparr>"
proof (induction n arbitrary: w code w')
  case (Suc n)
  from Suc.prems obtain d v rest where v: "rand_Int (length codeAlphabet) w = (Inr d, v)"
    and rest: "generate_digits n v = (Inr rest, w')" "code = codeAlphabet ! d # rest"
    by (auto simp: ok_def elim!: andThen_InrE)
  from rand_Int_cases [OF v] have "v = w\<lparr>w_rand_pos := Suc (w_rand_pos w)\<rparr>"
    "d = projr (w_rand w (w_rand_pos w)) mod length codeAlphabet"
    by (auto split: sum.splits)
  with Suc.IH [OF rest(1)] rest(2) show ?case by (simp add: digits_at_Suc) (simp add: digits_at_def)
qed (simp add: ok_def digits_at_def)

lemma generate_digits_total:
  "(\<And>i. \<exists>n. w_rand w i = Inr n) \<Longrightarrow>
     generate_digits n w = (Inr (digits_at w (w_rand_pos w) n), w\<lparr>w_rand_pos := w_rand_pos w + n\<rparr>)"
proof (induction n arbitrary: w)
  case (Suc n)
  let ?v = "w\<lparr>w_rand_pos := Suc (w_rand_pos w)\<rparr>"
  from Suc.prems [of "w_rand_pos w"] obtain k where k: "w_rand w (w_rand_pos w) = Inr k" by blast
  then have "rand_Int (length codeAlphabet) w = (Inr (k mod length codeAlphabet), ?v)" by (simp add: rand_Int_def)
  moreover have "generate_digits n ?v = (Inr (digits_at ?v (w_rand_pos ?v) n), ?v\<lparr>w_rand_pos := w_rand_pos ?v + n\<rparr>)"
    by (rule Suc.IH) (simp add: Suc.prems)
  ultimately show ?case using k
    by (simp add: andThen_Inr ok_run digits_at_Suc) (simp add: digits_at_def)
qed (simp add: ok_def digits_at_def)

section \<open>The transaction of \<open>CreateRoom\<close>\<close>

definition with_room :: "uuid \<Rightarrow> string \<Rightarrow> string option \<Rightarrow> uuid \<Rightarrow> timestamp \<Rightarrow> db \<Rightarrow> db" where
  "with_room uid code name ownerID now d =
     d\<lparr>t_rooms := t_rooms d @ [new_room uid code name ownerID now],
       t_room_members := t_room_members d @ [new_member uid ownerID RoleOwner now]\<rparr>"

definition code_free :: "string \<Rightarrow> db \<Rightarrow> bool" where
  "code_free code d \<longleftrightarrow> (\<forall>r \<in> set (t_rooms d). r_code r = code \<longrightarrow> \<not> room_active r)"

lemma CreateRoom_Inr:
  assumes "Store_CreateRoom ownerID code name w = (Inr room, w')"
  obtains uid now where "w_db w' = with_room uid code name ownerID now (w_db w)"
    "room = scan_room (new_room uid code name ownerID now)" "code_free code (w_db w)" "\<not> room_exists (w_db w) uid"
proof -
  from assms obtain now v v1 v2 x where "w_db w' = w_db v"
      "tx_stmt now (insert_room code name ownerID) ((advance w)\<lparr>w_aborted := False\<rparr>) = (Inr room, v1)"
      "tx_stmt now (insert_member (RoomID room) ownerID RoleOwner) v1 = (Inr x, v2)" "v = v2"
    unfolding Store_CreateRoom_def by (auto simp: ok_def elim!: andThen_InrE dest!: tx_InrD)
  then show thesis
    by (auto simp: insert_room_def insert_member_def with_room_def code_free_def scan_room_def new_room_def
        dest!: tx_stmt_InrD flip_db
        split: if_splits intro!: that)
qed


lemma CreateRoom_Inl: "Store_CreateRoom ownerID code name w = (Inl e, w') \<Longrightarrow> w_db w' = w_db w"
  unfolding Store_CreateRoom_def by (rule tx_atomic)

text \<open>One attempt without faults: it creates the room exactly when the code is free.\<close>

lemma tx_stmt_calm:
  "calm w \<Longrightarrow> \<not> w_aborted w \<Longrightarrow> tx_stmt now q w =
     (case q now (tk_uuid (tick_of w)) (w_db w) of
        Inl e \<Rightarrow> (Inl e, (advance w)\<lparr>w_aborted := e \<noteq> ErrNoRows\<rparr>)
      | Inr (x, d) \<Rightarrow> (Inr x, (advance w)\<lparr>w_db := d\<rparr>))"
  by (simp add: tx_stmt_def calm_tick)

lemma CreateRoom_taken:
  assumes "calm w" "pg_text code" "pg_text_opt name" "\<not> code_free code (w_db w)"
  shows "\<exists>w'. Store_CreateRoom ownerID code name w = (Inl unique_violation, w') \<and> w_db w' = w_db w \<and>
    w_sched w' = w_sched w \<and> world.more w' = world.more w"
proof -
  let ?w = "(advance w)\<lparr>w_aborted := False\<rparr>"
  have "tx_stmt now (insert_room code name ownerID) ?w = (Inl unique_violation, (advance ?w)\<lparr>w_aborted := True\<rparr>)" for now
    using assms by (auto simp: tx_stmt_calm insert_room_def code_free_def)
  with assms(1) show ?thesis
    by (simp add: Store_CreateRoom_def tx_def calm_tick andThen_Inl)
qed

lemma CreateRoom_free:
  assumes w: "calm w" "pg_text code" "pg_text_opt name" "code_free code (w_db w)" "user_exists (w_db w) ownerID"
    and fresh: "\<And>i. \<not> room_exists (w_db w) (tk_uuid (w_sched w i))"
    and ok: "db_ok (w_db w)"
  shows "\<exists>room w'. Store_CreateRoom ownerID code name w = (Inr room, w') \<and> RoomCode room = code"
proof -
  let ?w = "(advance w)\<lparr>w_aborted := False\<rparr>" and ?now = "tk_now (tick_of w)"
  let ?u = "tk_uuid (tick_of ?w)"
  let ?r = "new_room ?u code name ownerID ?now"
  let ?v = "(advance ?w)\<lparr>w_db := (w_db w)\<lparr>t_rooms := t_rooms (w_db w) @ [?r]\<rparr>\<rparr>"
  have f: "\<not> room_exists (w_db w) ?u" using fresh by (simp add: tick_of_def)
  then have one: "tx_stmt ?now (insert_room code name ownerID) ?w = (Inr (scan_room ?r), ?v)"
    using w by (simp add: tx_stmt_calm insert_room_def code_free_def advance_def)
  have "\<forall>m \<in> set (t_room_members (w_db w)). \<not> is_membership ?u ownerID m"
    using refs_okD(4)[OF ok] f unfolding is_membership_def by metis
  then have two: "tx_stmt ?now (insert_member ?u ownerID RoleOwner) ?v =
      (Inr (), (advance ?v)\<lparr>w_db := (w_db ?v)\<lparr>t_room_members := t_room_members (w_db ?v) @ [new_member ?u ownerID RoleOwner ?now]\<rparr>\<rparr>)"
    using w by (auto simp: tx_stmt_calm insert_member_def room_exists_def new_room_def advance_def)
  have id: "RoomID (scan_room ?r) = ?u" "RoomCode (scan_room ?r) = code" by (simp_all add: scan_room_def new_room_def)
  from w(1) one two show ?thesis
    by (simp add: Store_CreateRoom_def tx_def calm_tick andThen_Inr ok_run id)
qed

section \<open>The retry loop\<close>

lemma create_loop_Inl: "create_loop k ownerID name w = (Inl e, w') \<Longrightarrow> w_db w' = w_db w"
proof (induction k arbitrary: w)
  case (Suc k)
  obtain g v where g: "generateCode w = (g, v)" by force
  have v: "w_db v = w_db w" using keepsD [OF keeps_generateCode, of "\<lambda>d. d = w_db w" w] g by simp
  show ?case
  proof (cases g)
    case (Inl e')
    with g Suc.prems v show ?thesis by (simp add: andThen_Inl)
  next
    case (Inr code)
    obtain r v' where cr: "Store_CreateRoom ownerID code name v = (r, v')" by force
    with g Inr Suc.prems obtain e' where e': "r = Inl e'"
        "(if e' = unique_violation then create_loop k ownerID name else fail e') v' = (Inl e, w')"
      by (cases r) (simp_all add: andThen_Inr onErr_def ok_def)
    moreover have "w_db v' = w_db w" using CreateRoom_Inl [OF cr [unfolded e'(1)]] v by simp
    ultimately show ?thesis using Suc.IH by (auto simp: fail_def split: if_splits)
  qed
qed (simp add: fail_def)

lemma create_loop_Inr:
  "create_loop k ownerID name w = (Inr room, w') \<Longrightarrow>
     \<exists>uid code now. w_db w' = with_room uid code name ownerID now (w_db w) \<and>
       room = scan_room (new_room uid code name ownerID now) \<and> code_free code (w_db w) \<and> \<not> room_exists (w_db w) uid \<and>
       length code = 6 \<and> list_all digit code"
proof (induction k arbitrary: w)
  case (Suc k)
  from Suc.prems obtain code v where g: "generateCode w = (Inr code, v)" and
      c: "onErr (Store_CreateRoom ownerID code name)
       (\<lambda>err. if err = unique_violation then create_loop k ownerID name else fail err) ok v = (Inr room, w')"
    by (auto elim!: andThen_InrE)
  from generate_digits_Inr [OF g [unfolded generateCode_def]]
  have code: "length code = 6" "list_all digit code" "w_db v = w_db w" by (auto simp: digits_at_digits)
  obtain r v' where cr: "Store_CreateRoom ownerID code name v = (r, v')" by force
  show ?case
  proof (cases r)
    case (Inr x)
    with cr c have "Store_CreateRoom ownerID code name v = (Inr room, w')" by (simp add: onErr_def ok_def)
    then show ?thesis by (rule CreateRoom_Inr) (use code in auto)
  next
    case (Inl e)
    with cr c have "create_loop k ownerID name v' = (Inr room, w')"
      by (auto simp: onErr_def fail_def split: if_splits)
    moreover have "w_db v' = w_db w" using CreateRoom_Inl [OF cr [unfolded Inl]] code(3) by simp
    ultimately show ?thesis using Suc.IH by metis
  qed
qed (simp add: fail_def)


definition attempt_code :: "'h rworld \<Rightarrow> nat \<Rightarrow> string" where
  "attempt_code w i = digits_at w (w_rand_pos w + 6 * i) 6"

lemma pg_text_digits: "list_all digit s \<Longrightarrow> pg_text s"
proof -
  assume "list_all digit s"
  moreover from this have "CHR 0x00 \<notin> set s" by (auto simp: list_all_iff digit_def)
  ultimately show ?thesis by (simp add: pg_text_def valid_utf8_ascii digits_ascii)
qed

lemma rworld_more_rand:
  "world.more w' = world.more w \<Longrightarrow> w_rand w' = w_rand w \<and> w_rand_pos w' = w_rand_pos w"
  for w w' :: "'h rworld"
  by (cases w; cases w') (simp add: world.defs)

text \<open>A taken code costs one attempt and six random digits, and leaves everything else.\<close>

lemma create_loop_taken:
  fixes w :: "'h rworld"
  assumes "calm w" "\<And>i. \<exists>n. w_rand w i = Inr n" "pg_text_opt name" "\<not> code_free (attempt_code w 0) (w_db w)"
  obtains w1 :: "'h rworld" where "create_loop (Suc k) ownerID name w = create_loop k ownerID name w1"
    "w_db w1 = w_db w" "w_sched w1 = w_sched w" "w_rand w1 = w_rand w" "\<And>i. attempt_code w1 i = attempt_code w (Suc i)"
proof -
  let ?v = "w\<lparr>w_rand_pos := w_rand_pos w + 6\<rparr>"
  have g: "generateCode w = (Inr (attempt_code w 0), ?v)"
    using generate_digits_total [OF assms(2), of 6] by (simp add: generateCode_def attempt_code_def)
  have "list_all digit (attempt_code w 0)" by (simp add: attempt_code_def digits_at_digits)
  then obtain w1 where w1: "Store_CreateRoom ownerID (attempt_code w 0) name ?v = (Inl unique_violation, w1)"
      "w_db w1 = w_db ?v" "w_sched w1 = w_sched ?v" "world.more w1 = world.more ?v"
    using CreateRoom_taken [of ?v "attempt_code w 0" name ownerID] assms by (auto simp: pg_text_digits)
  note more = rworld_more_rand [OF w1(4)]
  have "attempt_code w1 i = attempt_code w (Suc i)" for i
    using more by (simp add: attempt_code_def digits_at_def add.assoc)
  moreover have "create_loop (Suc k) ownerID name w = create_loop k ownerID name w1"
    using g w1(1) by (simp add: andThen_Inr onErr_def)
  ultimately show thesis using w1 more by (intro that [of w1]) simp_all
qed

lemma create_loop_finds:
  fixes w :: "'h rworld"
  assumes "calm w" "\<And>i. \<exists>n. w_rand w i = Inr n" "pg_text_opt name" "user_exists (w_db w) ownerID" "db_ok (w_db w)"
    and "\<And>i. \<not> room_exists (w_db w) (tk_uuid (w_sched w i))"
    and "j < k" "\<And>i. i < j \<Longrightarrow> \<not> code_free (attempt_code w i) (w_db w)" "code_free (attempt_code w j) (w_db w)"
  shows "\<exists>room w'. create_loop k ownerID name w = (Inr room, w') \<and> RoomCode room = attempt_code w j"
  using assms
proof (induction k arbitrary: w j)
  case (Suc k)
  show ?case
  proof (cases j)
    case 0
    let ?v = "w\<lparr>w_rand_pos := w_rand_pos w + 6\<rparr>"
    have g: "generateCode w = (Inr (attempt_code w 0), ?v)"
      using generate_digits_total [OF Suc.prems(2), of 6] by (simp add: generateCode_def attempt_code_def)
    have "list_all digit (attempt_code w 0)" by (simp add: attempt_code_def digits_at_digits)
    then obtain room w' where "Store_CreateRoom ownerID (attempt_code w 0) name ?v = (Inr room, w')"
        "RoomCode room = attempt_code w 0"
      using CreateRoom_free [of ?v "attempt_code w 0" name ownerID] Suc.prems 0 by (auto simp: pg_text_digits)
    with g 0 show ?thesis by (simp add: andThen_Inr onErr_def ok_def)
  next
    case (Suc j')
    with Suc.prems(8)[of 0] have taken: "\<not> code_free (attempt_code w 0) (w_db w)" by simp
    obtain w1 :: "'h rworld" where w1: "create_loop (Suc k) ownerID name w = create_loop k ownerID name w1"
        "w_db w1 = w_db w" "w_sched w1 = w_sched w" "w_rand w1 = w_rand w" "\<And>i. attempt_code w1 i = attempt_code w (Suc i)"
      using create_loop_taken [OF Suc.prems(1-3) taken, of k ownerID] by blast
    have "\<exists>room w'. create_loop k ownerID name w1 = (Inr room, w') \<and> RoomCode room = attempt_code w1 j'"
      by (rule Suc.IH) (use Suc.prems Suc w1(2-5) in \<open>auto simp: calm_def\<close>)
    with w1(1,5) Suc show ?thesis by simp
  qed
qed simp

lemma create_loop_exhausted:
  fixes w :: "'h rworld"
  assumes "calm w" "\<And>i. \<exists>n. w_rand w i = Inr n" "pg_text_opt name"
    and "\<And>i. i < k \<Longrightarrow> \<not> code_free (attempt_code w i) (w_db w)"
  shows "fst (create_loop k ownerID name w) = Inl (OtherError ''failed to allocate room code'')"
  using assms
proof (induction k arbitrary: w)
  case (Suc k)
  from Suc.prems(4)[of 0] have taken: "\<not> code_free (attempt_code w 0) (w_db w)" by simp
  obtain w1 :: "'h rworld" where w1: "create_loop (Suc k) ownerID name w = create_loop k ownerID name w1"
      "w_db w1 = w_db w" "w_sched w1 = w_sched w" "w_rand w1 = w_rand w" "\<And>i. attempt_code w1 i = attempt_code w (Suc i)"
    using create_loop_taken [OF Suc.prems(1-3) taken, of k ownerID] by blast
  have "fst (create_loop k ownerID name w1) = Inl (OtherError ''failed to allocate room code'')"
    by (rule Suc.IH) (use Suc.prems w1(2-5) in \<open>auto simp: calm_def\<close>)
  with w1(1) show ?case by simp
qed (simp add: fail_def)


section \<open>Joining\<close>

definition rejoin :: "uuid \<Rightarrow> uuid \<Rightarrow> timestamp \<Rightarrow> db \<Rightarrow> db" where
  "rejoin roomID userID now d =
     d\<lparr>t_room_members :=
        (if \<exists>m \<in> set (t_room_members d). is_membership roomID userID m
         then update_where (is_membership roomID userID) (\<lambda>m. m\<lparr>rm_left_at := None, rm_kicked := False\<rparr>) (t_room_members d)
         else t_room_members d @ [new_member roomID userID RoleMember now])\<rparr>"

lemma upsert_member_rejoin:
  "upsert_member roomID userID now uid d = Inr (x, d') \<Longrightarrow> d' = rejoin roomID userID now d"
  by (auto simp: upsert_member_def insert_member_def rejoin_def RoleMember_def RoleOwner_def split: if_splits)

lemma GetActiveByCode_cases:
  fixes w :: "'h rworld"
  assumes "Store_GetActiveByCode code w = (r, w')"
  obtains (found) row where "r = Inr (scan_room row)" "List.find (\<lambda>r. r_code r = code \<and> room_active r) (t_rooms (w_db w)) = Some row"
      "w_db w' = w_db w"
  | (failed) e where "r = Inl e" "w_db w' = w_db w"
proof (cases r)
  case (Inl e)
  with assms failed show ?thesis
    by (auto simp: Store_GetActiveByCode_def dest!: map_err_InlD stmt_InlD)
next
  case (Inr x)
  with assms found show ?thesis
    by (auto simp: Store_GetActiveByCode_def sql_row_def split: if_splits option.splits dest!: map_err_InrD stmt_InrD)
qed

lemma after_upsert:
  fixes w :: "'h rworld" and room :: Room
  assumes "(case svc_rt s of None \<Rightarrow> ok room | Some rt \<Rightarrow> onErr (Store_GetMember (RoomID room) userID) (\<lambda>_. ok room)
         (\<lambda>member. andThen (notify s (\<lambda>rt. bc_MemberJoined rt (RoomID room) member)) (\<lambda>_. ok room))) w = (r, w')"
  shows "r = Inr room" "w_db w' = w_db w"
proof -
  let ?m = "(case svc_rt s of None \<Rightarrow> ok room | Some rt \<Rightarrow> onErr (Store_GetMember (RoomID room) userID) (\<lambda>_. ok room)
         (\<lambda>member. andThen (notify s (\<lambda>rt. bc_MemberJoined rt (RoomID room) member)) (\<lambda>_. ok room))) :: ('h, Room) svc"
  show "r = Inr room" using assms
    by (auto simp: ok_def onErr_def notify_def effect_def andThen_def split: option.splits prod.splits sum.splits)
  have "keeps (\<lambda>v. w_db v = w_db w) ?m" by (intro keeps_intros keeps_reads [of "\<lambda>d. d = w_db w"] keeps_notify [of "\<lambda>d. d = w_db w"])
  from keepsD [OF this, of w] assms show "w_db w' = w_db w" by simp
qed

lemma Service_Join_cases:
  fixes w :: "'h rworld"
  shows "case Service_Join tab s userID code w of
    (Inl e, w') \<Rightarrow> w_db w' = w_db w
  | (Inr room, w') \<Rightarrow> \<exists>row now. row \<in> set (t_rooms (w_db w)) \<and> room_active row \<and>
       r_code row = ToUpper tab (TrimSpace code) \<and> room = scan_room row \<and>
       w_db w' = rejoin (r_id row) userID now (w_db w)"
proof -
  obtain r w1 where g: "Store_GetActiveByCode (ToUpper tab (TrimSpace code)) w = (r, w1)" by force
  from g show ?thesis
  proof (cases rule: GetActiveByCode_cases)
    case (failed e)
    with g show ?thesis
      by (simp add: Service_Join_def andThen_def onErr_def map_err_def fail_def ok_def)
  next
    case (found row)
    have row: "row \<in> set (t_rooms (w_db w))" "room_active row" "r_code row = ToUpper tab (TrimSpace code)"
      using found(2) by (auto dest: find_SomeD)
    have id: "RoomID (scan_room row) = r_id row" by (simp add: scan_room_def)
    obtain u w2 where up: "Store_UpsertMember (r_id row) userID w1 = (u, w2)" by force
    obtain q w3 where fin: "(case svc_rt s of None \<Rightarrow> ok (scan_room row) | Some rt \<Rightarrow> onErr (Store_GetMember (RoomID (scan_room row)) userID) (\<lambda>_. ok (scan_room row))
         (\<lambda>member. andThen (notify s (\<lambda>rt. bc_MemberJoined rt (RoomID (scan_room row)) member)) (\<lambda>_. ok (scan_room row)))) w2 = (q, w3)"
      by force
    have j: "Service_Join tab s userID code w = (case u of Inl e \<Rightarrow> (Inl e, w2) | Inr _ \<Rightarrow> (q, w3))"
      unfolding Service_Join_def using g found(1) up fin
      by (simp add: andThen_def onErr_def map_err_def fail_def ok_def id split: sum.splits)
    show ?thesis
    proof (cases u)
      case (Inl e)
      with up j found(3) show ?thesis by (auto simp: Store_UpsertMember_def dest: stmt_InlD)
    next
      case (Inr x)
      with up obtain now where "w_db w2 = rejoin (r_id row) userID now (w_db w1)"
        by (auto simp: Store_UpsertMember_def dest!: stmt_InrD dest: upsert_member_rejoin)
      with after_upsert [OF fin] j Inr row found(3) show ?thesis by auto
    qed
  qed
qed

lemma rejoin_member: "is_member (rejoin roomID userID now d) roomID userID"
proof (cases "\<exists>m \<in> set (t_room_members d). is_membership roomID userID m")
  case True
  then show ?thesis
    by (simp add: rejoin_def is_member_def bex_update_where) (auto simp: active_member_def joined_def is_membership_def)
next
  case False
  then show ?thesis
    by (auto simp: rejoin_def is_member_def active_member_def joined_def is_membership_def new_member_def)
qed


lemma find_active_code:
  assumes d: "db_ok d" and r: "r \<in> set (t_rooms d)" "room_active r"
  shows "List.find (\<lambda>x. r_code x = r_code r \<and> room_active x) (t_rooms d) = Some r"
proof (cases "List.find (\<lambda>x. r_code x = r_code r \<and> room_active x) (t_rooms d)")
  case None
  with r show ?thesis by (simp add: find_None_iff)
next
  case (Some x)
  then have "x \<in> set (t_rooms d)" "r_code x = r_code r" "room_active x" by (auto dest: find_SomeD)
  with r have "x = r" by (intro inj_onD [OF db_okD(2)[OF d, unfolded codes_ok_def]]) simp_all
  with Some show ?thesis by simp
qed

lemma UpsertMember_calm:
  assumes "calm w" "room_exists (w_db w) roomID" "user_exists (w_db w) userID"
  shows "\<exists>w'. Store_UpsertMember roomID userID w = (Inr (), w')"
  using assms by (simp add: Store_UpsertMember_def stmt_calm calm_tick upsert_member_def insert_member_def RoleOwner_def RoleMember_def)

section \<open>Properties\<close>

text \<open>
  C22: \<open>Service.Create\<close> is all or nothing.  When it succeeds, the database has
  gained exactly one active room and the owner's membership, under a code of six
  digits that no other active room has and an identifier that no room had; on
  every error the tables are unchanged.
\<close>
theorem create_room_effect:
  "case Service_Create ownerID name w of
     (Inl e, w') \<Rightarrow> w_db w' = w_db w
   | (Inr room, w') \<Rightarrow> \<exists>uid code now.
        w_db w' = (w_db w)\<lparr>t_rooms := t_rooms (w_db w) @ [new_room uid code name ownerID now],
          t_room_members := t_room_members (w_db w) @ [new_member uid ownerID RoleOwner now]\<rparr> \<and>
        room = scan_room (new_room uid code name ownerID now) \<and> code_free code (w_db w) \<and>
        \<not> room_exists (w_db w) uid \<and> length code = 6 \<and> list_all digit code"
proof -
  obtain r w' where c: "create_loop maxCodeAttempts ownerID name w = (r, w')" by force
  then show ?thesis
    by (cases r) (use create_loop_Inl [of maxCodeAttempts ownerID name w] create_loop_Inr [of maxCodeAttempts ownerID name w]
      in \<open>auto simp: Service_Create_def with_room_def\<close>)
qed

text \<open>
  C35: the retry loop of \<open>Service.Create\<close> works.  Without faults, an existing
  user gets a room under the first of the eight drawn codes that no active room
  holds, whatever the earlier ones collided with.
\<close>
theorem create_retries_until_free:
  fixes w :: "'h rworld"
  assumes "calm w" "\<forall>i. \<exists>n. w_rand w i = Inr n" "pg_text_opt name" "user_exists (w_db w) ownerID" "db_ok (w_db w)"
    and "\<forall>i. \<not> room_exists (w_db w) (tk_uuid (w_sched w i))"
    and "j < maxCodeAttempts" "\<forall>i < j. \<not> code_free (attempt_code w i) (w_db w)" "code_free (attempt_code w j) (w_db w)"
  shows "\<exists>room w'. Service_Create ownerID name w = (Inr room, w') \<and> RoomCode room = attempt_code w j"
  using create_loop_finds [of w name ownerID j maxCodeAttempts] assms by (simp add: Service_Create_def)

text \<open>A state in which the first draw is the code of the demo room and the second is free.\<close>

definition collision_world :: "unit rworld" where
  "collision_world = (demo_world ())\<lparr>w_rand := (\<lambda>i. Inr (if i < 6 then i + 1 else i))\<rparr>"

lemma collision_codes: "attempt_code collision_world 0 = ''123456''" "attempt_code collision_world 1 = ''678901''"
  by (simp_all add: attempt_code_def digits_at_def collision_world_def codeAlphabet_def upt_conv_Cons)

lemma collision_simps [simp]:
  "w_db collision_world = demo_db" "w_sched collision_world = demo_tick" "calm collision_world"
  "w_rand collision_world = (\<lambda>i. Inr (if i < 6 then i + 1 else i))"
  by (simp_all add: collision_world_def calm_def demo_tick_def)

lemma collision_free: "\<not> code_free ''123456'' demo_db" "code_free ''678901'' demo_db"
  by (simp_all add: code_free_def)

theorem create_retries_until_free_witness:
  "\<exists>room w'. Service_Create 2 None collision_world = (Inr room, w') \<and> RoomCode room = ''678901''"
  using create_retries_until_free [of collision_world None 2 1]
  by (simp add: collision_codes [unfolded One_nat_def] collision_free demo_db_ok maxCodeAttempts_def pg_text_opt_def demo_uuid_fresh)

text \<open>
  C36: eight taken codes end the loop of \<open>Service.Create\<close> with the error of
  the source, and no more than eight are tried.
\<close>
theorem create_gives_up:
  fixes w :: "'h rworld"
  assumes "calm w" "\<forall>i. \<exists>n. w_rand w i = Inr n" "pg_text_opt name"
    and "\<forall>i < maxCodeAttempts. \<not> code_free (attempt_code w i) (w_db w)"
  shows "fst (Service_Create ownerID name w) = Inl (OtherError ''failed to allocate room code'')"
  using create_loop_exhausted [of w name maxCodeAttempts ownerID] assms by (simp add: Service_Create_def)

definition crowded_world :: "unit rworld" where
  "crowded_world = (demo_world ())\<lparr>w_rand := (\<lambda>i. Inr (i mod 6 + 1))\<rparr>"

lemma crowded_simps [simp]:
  "w_db crowded_world = demo_db" "calm crowded_world" "w_rand crowded_world = (\<lambda>i. Inr (i mod 6 + 1))"
  by (simp_all add: crowded_world_def calm_def demo_tick_def)

lemma crowded_codes: "attempt_code crowded_world i = ''123456''"
  by (simp add: attempt_code_def digits_at_def crowded_world_def codeAlphabet_def upt_conv_Cons mod_add_left_eq [symmetric])

theorem create_gives_up_witness:
  "fst (Service_Create 2 None crowded_world) = Inl (OtherError ''failed to allocate room code'')"
  using create_gives_up [of crowded_world None 2] by (simp add: crowded_codes collision_free pg_text_opt_def)

text \<open>
  C28: what \<open>Service.Join\<close> does.  On success it has found an active room under
  the normalised code and the only change to the tables is the caller's
  membership: a new one with the member role, or the old one back in force with
  its role, mute flag and join date kept and the kick forgotten; on every error
  the tables are unchanged.
\<close>
theorem join_effect:
  "case Service_Join tab s userID code w of
     (Inl e, w') \<Rightarrow> w_db w' = w_db w
   | (Inr room, w') \<Rightarrow> \<exists>row now. row \<in> set (t_rooms (w_db w)) \<and> room_active row \<and>
        r_code row = ToUpper tab (TrimSpace code) \<and> room = scan_room row \<and>
        is_member (w_db w') (r_id row) userID \<and>
        w_db w' = (w_db w)\<lparr>t_room_members :=
          (if \<exists>m \<in> set (t_room_members (w_db w)). is_membership (r_id row) userID m
           then update_where (is_membership (r_id row) userID) (\<lambda>m. m\<lparr>rm_left_at := None, rm_kicked := False\<rparr>)
                  (t_room_members (w_db w))
           else t_room_members (w_db w) @ [new_member (r_id row) userID RoleMember now])\<rparr>"
proof -
  obtain r w' where j: "Service_Join tab s userID code w = (r, w')" by force
  note c = Service_Join_cases [where w = w and tab = tab and s = s and userID = userID and code = code, unfolded j]
  show ?thesis
  proof (cases r)
    case (Inr room)
    with c obtain row now where "row \<in> set (t_rooms (w_db w))" "room_active row" "r_code row = ToUpper tab (TrimSpace code)"
        "room = scan_room row" "w_db w' = rejoin (r_id row) userID now (w_db w)" by auto
    then show ?thesis unfolding j Inr rejoin_def [symmetric] by (auto simp: rejoin_member)
  qed (use c j in simp)
qed

text \<open>
  C37: round trip of the code.  Without faults, a user who types the code of an
  active room, with any white space around it, joins that room and no other.
\<close>
theorem join_by_code:
  fixes w :: "'h rworld"
  assumes "calm w" "db_ok (w_db w)" "r \<in> set (t_rooms (w_db w))" "room_active r" "list_all digit (r_code r)"
    and "TrimSpace typed = r_code r" "user_exists (w_db w) userID"
  shows "\<exists>w'. Service_Join tab s userID typed w = (Inr (scan_room r), w') \<and> is_member (w_db w') (r_id r) userID"
proof -
  let ?c = "ToUpper tab (TrimSpace typed)"
  have code: "?c = r_code r" using assms by (simp add: ToUpper_digits)
  have g: "Store_GetActiveByCode ?c w = (Inr (scan_room r), advance w)"
    using assms(1,5) find_active_code [OF assms(2-4)]
    by (simp add: Store_GetActiveByCode_def map_err_run stmt_calm calm_tick code pg_text_digits sql_row_def advance_def)
  obtain w2 where u: "Store_UpsertMember (r_id r) userID (advance w) = (Inr (), w2)"
    using UpsertMember_calm [of "advance w" "r_id r" userID] assms by (auto simp: room_exists_def)
  obtain q w3 where fin: "(case svc_rt s of None \<Rightarrow> ok (scan_room r) | Some rt \<Rightarrow> onErr (Store_GetMember (RoomID (scan_room r)) userID) (\<lambda>_. ok (scan_room r))
       (\<lambda>member. andThen (notify s (\<lambda>rt. bc_MemberJoined rt (RoomID (scan_room r)) member)) (\<lambda>_. ok (scan_room r)))) w2 = (q, w3)"
    by force
  have id: "RoomID (scan_room r) = r_id r" by (simp add: scan_room_def)
  have j: "Service_Join tab s userID typed w = (Inr (scan_room r), w3)"
    unfolding Service_Join_def using g u fin after_upsert(1)[OF fin]
    by (simp add: andThen_def onErr_def map_err_def fail_def ok_def id)
  from u obtain now where "w_db w2 = rejoin (r_id r) userID now (w_db w)"
    by (auto simp: Store_UpsertMember_def dest!: stmt_InrD dest: upsert_member_rejoin)
  with j after_upsert(2)[OF fin] rejoin_member show ?thesis by simp
qed

theorem join_by_code_witness:
  "\<exists>w'. Service_Join id silent 3 '' 123456 '' (demo_world ()) = (Inr (scan_room demo_room), w') \<and>
     is_member (w_db w') 10 3"
  using join_by_code [of "demo_world ()" demo_room "'' 123456 ''" 3 id silent]
  by (simp add: demo_db_ok digit_def TrimSpace_def trim_left.simps trim_right.simps decode_last_rune_def IsSpace_def)

end
