(* ===== verification/Membership.thy ===== *)
theory Membership
  imports Demo RoomGuards
begin

text \<open>
  Memberships and ownership: leaving, kicking, muting, renaming, ending and
  handing a room over, each on all of its branches.
\<close>

section \<open>Running a guarded operation\<close>

lemma requireOwner_then:
  assumes "andThen (requireOwner roomID u) k w = (res, w')"
  obtains (refused) e where "res = Inl e" "same_state w w'"
  | (allowed) v where "is_owner (w_db w) roomID u" "same_state w v" "k () v = (res, w')"
proof -
  obtain g v where g: "requireOwner roomID u w = (g, v)" by force
  show thesis
  proof (cases g)
    case (Inl e)
    with assms g refused requireOwner_InlD [of roomID u w e v] show ?thesis by (auto simp: andThen_Inl)
  next
    case (Inr x)
    with assms g allowed requireOwner_InrD [of roomID u w v] show ?thesis by (auto simp: andThen_Inr)
  qed
qed

lemma AssertMember_then:
  assumes "andThen (AssertMember roomID u) k w = (res, w')"
  obtains (refused) e where "res = Inl e" "same_state w w'"
  | (allowed) v role where "is_member (w_db w) roomID u" "same_state w v" "k role v = (res, w')"
proof -
  obtain g v where g: "AssertMember roomID u w = (g, v)" by force
  show thesis
  proof (cases g)
    case (Inl e)
    with assms g refused AssertMember_InlD [of roomID u w e v] show ?thesis by (auto simp: andThen_Inl)
  next
    case (Inr x)
    with assms g allowed AssertMember_InrD [of roomID u w x v] show ?thesis by (auto simp: andThen_Inr)
  qed
qed

text \<open>A statement whose zero rows mean \<open>ErrNotFound\<close>.\<close>

lemma rows_stmt_cases:
  fixes w :: "'h rworld"
  assumes "andThen (stmt q) rows_or_not_found w = (res, w')"
    and zero: "\<And>now uid d d'. q now uid d = Inr (0, d') \<Longrightarrow> d' = d"
  obtains (changed) now uid n where "res = Inr ()" "q now uid (w_db w) = Inr (Suc n, w_db w')" "w_rt w' = w_rt w"
  | (failed) e where "res = Inl e" "same_state w w'"
proof -
  obtain r v where s: "stmt q w = (r, v)" by force
  have rt: "w_rt v = w_rt w" using stmt_rt [of q w] s by simp
  show thesis
  proof (cases r)
    case (Inl e)
    with s assms failed rt stmt_InlD [of q w e v] show ?thesis by (auto simp: andThen_Inl)
  next
    case (Inr n)
    with s obtain now uid where q: "q now uid (w_db w) = Inr (n, w_db v)" by (auto dest!: stmt_InrD)
    have "(if n = 0 then (Inl ErrNotFound, v) else (Inr (), v)) = (res, w')"
      using assms(1) s Inr by (simp add: andThen_Inr rows_or_not_found_def fail_def ok_def split: if_splits)
    with q rt zero show ?thesis
      by (cases n) (auto intro: failed changed)
  qed
qed

lemma members_stmt_cases [consumes 1, case_names changed failed]:
  fixes w :: "'h rworld"
  assumes "andThen (stmt (update_members p f)) rows_or_not_found w = (res, w')"
  obtains now where "res = Inr ()" "\<exists>m \<in> set (t_room_members (w_db w)). p m"
      "w_db w' = (w_db w)\<lparr>t_room_members := update_where p (f now) (t_room_members (w_db w))\<rparr>" "w_rt w' = w_rt w"
  | e where "res = Inl e" "same_state w w'"
  by (rule rows_stmt_cases [OF assms])
    (auto simp: update_members_def update_where_none rows_where_pos [symmetric] simp del: rows_where_pos intro: that
      dest!: flip_db)

lemma rooms_stmt_cases [consumes 1, case_names changed failed]:
  fixes w :: "'h rworld"
  assumes "andThen (stmt (update_rooms p f)) rows_or_not_found w = (res, w')"
  obtains now where "res = Inr ()" "\<exists>r \<in> set (t_rooms (w_db w)). p r"
      "w_db w' = (w_db w)\<lparr>t_rooms := update_where p (f now) (t_rooms (w_db w))\<rparr>" "w_rt w' = w_rt w"
  | e where "res = Inl e" "same_state w w'"
  by (rule rows_stmt_cases [OF assms])
    (auto simp: update_rooms_def update_where_none rows_where_pos [symmetric] simp del: rows_where_pos intro: that
      dest!: flip_db)

text \<open>A store call followed by one announcement, with a value or without.\<close>

lemma store_notify_cases [consumes 1, case_names failed changed]:
  assumes "andThen st (\<lambda>x. andThen (notify s (f x)) (\<lambda>_. ok (g x))) w = (res, w')"
  obtains e where "res = Inl e" "st w = (Inl e, w')"
  | x v where "st w = (Inr x, v)" "res = Inr (g x)" "w' = v\<lparr>w_rt := told s (f x) (w_rt v)\<rparr>"
proof (cases "st w")
  case (Pair r v)
  with assms that show ?thesis by (cases r) (auto simp: andThen_Inl andThen_Inr andThen_notify ok_def)
qed

lemma store_notify_unit_cases [consumes 1, case_names failed changed]:
  assumes "andThen st (\<lambda>x. notify s (f x)) w = (res, w')"
  obtains e where "res = Inl e" "st w = (Inl e, w')"
  | x v where "st w = (Inr x, v)" "res = Inr ()" "w' = v\<lparr>w_rt := told s (f x) (w_rt v)\<rparr>"
proof (cases "st w")
  case (Pair r v)
  with assms that show ?thesis by (cases r) (auto simp: andThen_Inl andThen_Inr notify_run)
qed

section \<open>Kick, leave and end\<close>

text \<open>What is left of a membership after \<open>kick\<close> or \<open>leave\<close> cannot pass \<open>AssertMember\<close>.\<close>

lemma gone_not_member:
  assumes "\<And>m. rm_left_at (f m) \<noteq> None"
  shows "\<not> is_member (d\<lparr>t_room_members := update_where (joined roomID u) f (t_room_members d)\<rparr>) roomID u"
  using assms by (simp add: is_member_def bex_update_where) (auto simp: active_member_def joined_def)

text \<open>
  C25: \<open>Service.Kick\<close> revokes exactly the target's membership.  When it reports
  success the caller was the owner and not the target, the target is no longer a
  member of the room, every other membership is as it was and the broadcaster
  was told; on an error nothing changed, neither in the tables nor on any socket.
\<close>
theorem kick_effect:
  "case Service_Kick s roomID actorID targetID w of
     (Inl e, w') \<Rightarrow> w_db w' = w_db w \<and> w_rt w' = w_rt w
   | (Inr x, w') \<Rightarrow> is_owner (w_db w) roomID actorID \<and> actorID \<noteq> targetID \<and>
       \<not> is_member (w_db w') roomID targetID \<and>
       (\<exists>now. w_db w' = (w_db w)\<lparr>t_room_members := update_where (joined roomID targetID)
          (\<lambda>m. m\<lparr>rm_kicked := True, rm_left_at := Some now\<rparr>) (t_room_members (w_db w))\<rparr>) \<and>
       w_rt w' = told s (\<lambda>rt. bc_KickConnection rt roomID targetID actorID) (w_rt w)"
proof -
  obtain res w' where k: "Service_Kick s roomID actorID targetID w = (res, w')" by force
  from k [unfolded Service_Kick_def] show ?thesis
  proof (cases rule: requireOwner_then)
    case (allowed v)
    show ?thesis
    proof (cases "actorID = targetID")
      case False
      with allowed(3) have "andThen (Store_Kick roomID targetID)
          (\<lambda>_. notify s (\<lambda>rt. bc_KickConnection rt roomID targetID actorID)) v = (res, w')" by simp
      then show ?thesis
      proof (cases rule: store_notify_unit_cases)
        case (changed x v')
        from changed(1) [unfolded Store_Kick_def] show ?thesis
          by (cases rule: members_stmt_cases)
            (use k allowed(1,2) changed(2,3) False gone_not_member in \<open>auto simp: \<close>)
      qed (use k allowed(2) in \<open>auto simp: Store_Kick_def elim!: members_stmt_cases\<close>)
    qed (use k allowed in \<open>auto simp: fail_def\<close>)
  qed (use k in simp)
qed

text \<open>
  \<open>Service.Leave\<close> ends the caller's own membership and no other, tells the
  room and disconnects the caller's socket; when it reports an error nothing
  changed.
\<close>
theorem leave_effect:
  "case Service_Leave s roomID userID w of
     (Inl e, w') \<Rightarrow> w_db w' = w_db w \<and> w_rt w' = w_rt w
   | (Inr x, w') \<Rightarrow> \<not> is_member (w_db w') roomID userID \<and>
       (\<exists>now. w_db w' = (w_db w)\<lparr>t_room_members := update_where (joined roomID userID)
          (\<lambda>m. m\<lparr>rm_left_at := Some now\<rparr>) (t_room_members (w_db w))\<rparr>) \<and>
       w_rt w' = told s (\<lambda>rt. bc_DisconnectUser rt roomID userID) (told s (\<lambda>rt. bc_MemberLeft rt roomID userID) (w_rt w))"
proof -
  let ?q = "update_members (joined roomID userID) (\<lambda>now m. m\<lparr>rm_left_at := Some now\<rparr>)"
  obtain r v where q: "stmt ?q w = (r, v)" by force
  have rt: "w_rt v = w_rt w" using stmt_rt [of ?q w] q by simp
  show ?thesis
  proof (cases r)
    case (Inl e)
    with q rt show ?thesis
      by (auto simp: Service_Leave_def Store_MarkLeft_def andThen_Inl dest: stmt_InlD)
  next
    case (Inr n)
    with q obtain now where v: "w_db v = (w_db w)\<lparr>t_room_members := update_where (joined roomID userID)
        (\<lambda>m. m\<lparr>rm_left_at := Some now\<rparr>) (t_room_members (w_db w))\<rparr>"
      by (auto simp: update_members_def dest!: stmt_InrD flip_db)
    from q Inr have "Service_Leave s roomID userID w = (Inr (), v\<lparr>w_rt :=
        told s (\<lambda>rt. bc_DisconnectUser rt roomID userID) (told s (\<lambda>rt. bc_MemberLeft rt roomID userID) (w_rt v))\<rparr>)"
      by (simp add: Service_Leave_def Store_MarkLeft_def andThen_Inr andThen_notify notify_run ok_def)
    with v rt show ?thesis using gone_not_member by auto
  qed
qed


lemma ended_not_active:
  "\<not> (r \<in> set (update_where (\<lambda>r. r_id r = roomID \<and> room_active r) (\<lambda>r. r\<lparr>r_ended_at := Some now\<rparr>) rs) \<and>
      r_id r = roomID \<and> room_active r)"
proof
  assume r: "r \<in> set (update_where (\<lambda>r. r_id r = roomID \<and> room_active r) (\<lambda>r. r\<lparr>r_ended_at := Some now\<rparr>) rs) \<and>
      r_id r = roomID \<and> room_active r"
  then obtain q where "r = (if r_id q = roomID \<and> room_active q then q\<lparr>r_ended_at := Some now\<rparr> else q)"
    by (auto simp only: in_update_where)
  with r show False by (cases "r_id q = roomID \<and> room_active q") (auto simp: room_active_def)
qed


section \<open>Handing a room over\<close>

lemma find_map: "List.find P (map f xs) = map_option f (List.find (\<lambda>x. P (f x)) xs)"
  by (induction xs) auto

lemma active_member_role [simp]: "active_member r u (m\<lparr>rm_role := x\<rparr>) = active_member r u m"
  by (simp add: active_member_def joined_def is_membership_def)

lemma find_hand_over:
  "old \<noteq> new \<Longrightarrow> List.find (active_member r u) (t_room_members (hand_over roomID old new d)) =
     map_option (\<lambda>m. m\<lparr>rm_role := if is_membership roomID new m then RoleOwner
                          else if is_membership roomID old m then RoleMember else rm_role m\<rparr>)
       (List.find (active_member r u) (t_room_members d))"
  by (simp add: hand_over_members find_map)

lemma find_active_key: "List.find (active_member r u) ms = Some m \<Longrightarrow> is_membership r u m"
  by (auto simp: active_member_def joined_def dest: find_SomeD)

lemma hand_over_roles:
  assumes "old \<noteq> new" "is_member d roomID new" "is_member d roomID old"
  shows "is_owner (hand_over roomID old new d) roomID new" "\<not> is_owner (hand_over roomID old new d) roomID old"
    "is_member (hand_over roomID old new d) roomID old"
proof -
  have found: "\<exists>m. List.find (active_member roomID u) (t_room_members d) = Some m \<and> is_membership roomID u m"
    if "is_member d roomID u" for u
    using that find_active_key by (cases "List.find (active_member roomID u) (t_room_members d)")
      (auto simp: is_member_def find_None_iff)
  from found [OF assms(2)] show "is_owner (hand_over roomID old new d) roomID new"
    using assms(1) by (auto simp: is_owner_def find_hand_over)
  from found [OF assms(3)] obtain m where m: "List.find (active_member roomID old) (t_room_members d) = Some m" "is_membership roomID old m"
    by blast
  then show "\<not> is_owner (hand_over roomID old new d) roomID old"
    using assms(1) by (auto simp: is_owner_def find_hand_over is_membership_def RoleOwner_def RoleMember_def)
  from m have "List.find (active_member roomID old) (t_room_members (hand_over roomID old new d)) \<noteq> None"
    using assms(1) by (simp add: find_hand_over)
  then show "is_member (hand_over roomID old new d) roomID old" by (auto simp: is_member_def find_None_iff)
qed

lemma is_owner_member: "is_owner d roomID u \<Longrightarrow> is_member d roomID u"
  by (auto simp: is_owner_def is_member_def split: option.splits dest: find_SomeD)

text \<open>The two tables ownership lives in, and the rest of the step before the transaction.\<close>

lemma demote_destination_frame:
  fixes w :: "'h rworld"
  assumes "demote_destination roomID actorID w = (res, w')"
  shows "t_rooms (w_db w') = t_rooms (w_db w)" "t_room_members (w_db w') = t_room_members (w_db w)" "w_rt w' = w_rt w" "res = Inr ()"
proof -
  define same :: "db \<Rightarrow> bool" where "same d \<longleftrightarrow> t_rooms d = t_rooms (w_db w) \<and> t_room_members d = t_room_members (w_db w)" for d
  have up: "keeps (\<lambda>w. same (w_db w)) (Store_UpsertPersonalMarker roomID actorID lat lng label)" for lat lng label
    unfolding Store_UpsertPersonalMarker_def
    by (rule keeps_stmt) (auto simp: same_def upsert_marker_def Let_def split: if_splits)
  have "keeps (\<lambda>w. same (w_db w)) (demote_destination roomID actorID)"
    unfolding demote_destination_def by (intro keeps_intros up)
  from keepsD [OF this, of w] assms show "t_rooms (w_db w') = t_rooms (w_db w)" "t_room_members (w_db w') = t_room_members (w_db w)"
    by (simp_all add: same_def)
  have "keeps (\<lambda>v. w_rt v = w_rt w) (demote_destination roomID actorID)"
    unfolding demote_destination_def Store_GetDestination_def Store_UpsertPersonalMarker_def by (intro keeps_intros)
  from keepsD [OF this, of w] assms show "w_rt w' = w_rt w" by simp
  show "res = Inr ()" using assms
    by (auto simp: demote_destination_def onErr_def ok_def split: prod.splits sum.splits option.splits)
qed

lemma TransferOwnership_rt [simp]: "w_rt (snd (Store_TransferOwnership roomID old new w)) = w_rt w"
  for w :: "'h rworld"
proof -
  have "keeps (\<lambda>v :: 'h rworld. w_rt v = w_rt w) (Store_TransferOwnership roomID old new)"
    unfolding Store_TransferOwnership_def by (intro keeps_intros)
  from keepsD [OF this, of w] show ?thesis by simp
qed

text \<open>
  C26: \<open>Service.TransferOwnership\<close>.  On success the caller was the owner, the
  target is now the owner and the caller an ordinary member who stays in the
  room, and every active row of the room names the target as owner; on an error
  rooms and memberships are unchanged and nothing was announced.
\<close>
theorem transfer_effect:
  "case Service_TransferOwnership s roomID actorID targetID w of
     (Inl e, w') \<Rightarrow> t_rooms (w_db w') = t_rooms (w_db w) \<and> t_room_members (w_db w') = t_room_members (w_db w) \<and>
       w_rt w' = w_rt w
   | (Inr x, w') \<Rightarrow> is_owner (w_db w) roomID actorID \<and> actorID \<noteq> targetID \<and>
       is_owner (w_db w') roomID targetID \<and> \<not> is_owner (w_db w') roomID actorID \<and> is_member (w_db w') roomID actorID \<and>
       t_rooms (w_db w') = update_where (\<lambda>r. r_id r = roomID \<and> room_active r) (\<lambda>r. r\<lparr>r_owner_id := targetID\<rparr>) (t_rooms (w_db w)) \<and>
       w_rt w' = told s (\<lambda>rt. bc_OwnerChanged rt roomID targetID actorID) (w_rt w)"
proof -
  obtain res w' where k: "Service_TransferOwnership s roomID actorID targetID w = (res, w')" by force
  from k [unfolded Service_TransferOwnership_def] show ?thesis
  proof (cases rule: requireOwner_then)
    case (allowed v)
    note owner = allowed(1,2)
    show ?thesis
    proof (cases "actorID = targetID")
      case False
      with allowed(3) have "andThen (AssertMember roomID targetID) (\<lambda>_. andThen (demote_destination roomID actorID) (\<lambda>_.
          andThen (Store_TransferOwnership roomID actorID targetID) (\<lambda>_.
          notify s (\<lambda>rt. bc_OwnerChanged rt roomID targetID actorID)))) v = (res, w')" by simp
      then show ?thesis
      proof (cases rule: AssertMember_then)
        case (allowed v1 role)
        obtain r v2 where "demote_destination roomID actorID v1 = (r, v2)" by force
        note d = this demote_destination_frame [OF this]
        with allowed(3) have "andThen (Store_TransferOwnership roomID actorID targetID) (\<lambda>_.
          notify s (\<lambda>rt. bc_OwnerChanged rt roomID targetID actorID)) v2 = (res, w')" by (simp add: andThen_Inr)
        then show ?thesis
        proof (cases rule: store_notify_unit_cases)
          case (failed e)
          with TransferOwnership_rt [of roomID actorID targetID v2] have "w_db w' = w_db v2" "w_rt w' = w_rt v2"
            by (simp_all add: Store_TransferOwnership_def tx_atomic)
          with failed(1) k owner allowed(2) d show ?thesis by simp
        next
          case (changed x v3)
          with TransferOwnership_rt [of roomID actorID targetID v2] have rt: "w_rt v3 = w_rt v2" by simp
          from changed(1) have "Store_TransferOwnership roomID actorID targetID v2 = (Inr (), v3)" by simp
          then have db: "w_db v3 = hand_over roomID actorID targetID (w_db v2)" "is_member (w_db v2) roomID targetID"
            by (auto elim: Store_TransferOwnership_Inr simp: is_member_def)
          have "is_member (w_db v2) roomID actorID"
            using is_owner_member [OF owner(1)] d allowed(2) owner(2) by (simp add: is_member_def)
          with hand_over_roles [OF False db(2)] db(1) rt changed(2,3) k owner allowed(2) d False show ?thesis
            by (simp add: hand_over_def)
        qed
      qed (use k allowed(2) in auto)
    qed (use k allowed in \<open>auto simp: fail_def\<close>)
  qed (use k in simp)
qed


section \<open>The room's name\<close>

text \<open>\<open>UPDATE rooms \<dots> RETURNING\<close> outside a transaction.\<close>

lemma returning_cases [consumes 2, case_names changed failed]:
  fixes w :: "'h rworld"
  assumes "map_err g (stmt q) w = (res, w')"
    and "\<forall>now uid d x d'. q now uid d = Inr (x, d') \<longrightarrow>
      update_room_returning texts p f now uid d = Inr (x, d') \<and> ok_by d"
  obtains now r where "res = Inr (f now r)" "List.find p (t_rooms (w_db w)) = Some r" "ok_by (w_db w)"
      "w_db w' = (w_db w)\<lparr>t_rooms := update_where p (f now) (t_rooms (w_db w))\<rparr>" "w_rt w' = w_rt w"
  | e where "res = Inl e" "same_state w w'"
proof (cases res)
  case (Inl e)
  with assms(1) obtain e' where "stmt q w = (Inl e', w')" by (auto dest: map_err_InlD)
  then have "same_state w w'" using stmt_rt [of q w] by (auto dest: stmt_InlD)
  with Inl that(2) show ?thesis by blast
next
  case (Inr x)
  with assms(1) have st: "stmt q w = (Inr x, w')" by (auto dest: map_err_InrD)
  then obtain now uid where "q now uid (w_db w) = Inr (x, w_db w')" by (auto dest!: stmt_InrD)
  from assms(2)[rule_format, OF this] obtain r where "List.find p (t_rooms (w_db w)) = Some r" "x = f now r"
      "w_db w' = (w_db w)\<lparr>t_rooms := update_where p (f now) (t_rooms (w_db w))\<rparr>" "ok_by (w_db w)"
    by (auto simp: update_room_returning_def split: if_splits option.splits)
  moreover have "w_rt w' = w_rt w" using stmt_rt [of q w] st by simp
  ultimately show ?thesis using that(1) Inr by blast
qed

lemma update_returning_cases [consumes 1, case_names changed failed]:
  fixes w :: "'h rworld"
  assumes "map_err g (stmt (update_room_returning texts p f)) w = (res, w')"
  obtains now r where "res = Inr (f now r)" "List.find p (t_rooms (w_db w)) = Some r"
      "w_db w' = (w_db w)\<lparr>t_rooms := update_where p (f now) (t_rooms (w_db w))\<rparr>" "w_rt w' = w_rt w"
  | e where "res = Inl e" "same_state w w'"
  by (rule returning_cases [OF assms, of texts p f "\<lambda>_. True"]) (auto intro: that)

text \<open>
  \<open>Service.Rename\<close> stores a name of 1 to 40 characters (runes, after
  trimming) on an active room for its owner and announces it; every other call
  reports an error and changes nothing.
\<close>
theorem rename_effect:
  "case Service_Rename s roomID actorID name w of
     (Inl e, w') \<Rightarrow> w_db w' = w_db w \<and> w_rt w' = w_rt w
   | (Inr room, w') \<Rightarrow> is_owner (w_db w) roomID actorID \<and>
       1 \<le> RuneCountInString (TrimSpace name) \<and> RuneCountInString (TrimSpace name) \<le> 40 \<and>
       RoomName room = Some (TrimSpace name) \<and> RoomEndedAt room = None \<and>
       w_db w' = (w_db w)\<lparr>t_rooms := update_where (\<lambda>r. r_id r = roomID \<and> room_active r)
         (\<lambda>r. r\<lparr>r_name := Some (TrimSpace name)\<rparr>) (t_rooms (w_db w))\<rparr> \<and>
       w_rt w' = told s (\<lambda>rt. bc_RoomRenamed rt roomID (Some (TrimSpace name))) (w_rt w)"
proof -
  let ?n = "TrimSpace name"
  obtain res w' where k: "Service_Rename s roomID actorID name w = (res, w')" by force
  from k [unfolded Service_Rename_def] show ?thesis
  proof (cases rule: requireOwner_then)
    case (allowed v)
    show ?thesis
    proof (cases "RuneCountInString ?n < minRoomNameLen \<or> RuneCountInString ?n > maxRoomNameLen")
      case False
      with allowed(3) have "andThen (Store_UpdateName roomID (Some ?n)) (\<lambda>room.
          andThen (notify s (\<lambda>rt. bc_RoomRenamed rt roomID (RoomName room))) (\<lambda>_. ok room)) v = (res, w')"
        by (simp add: Let_def)
      then show ?thesis
      proof (cases rule: store_notify_cases)
        case (failed e)
        then show ?thesis using k allowed(2)
          by (auto simp: Store_UpdateName_def ok_def dest!: andThen_InlD elim: update_returning_cases)
      next
        case (changed x v')
        then obtain row where r: "map_err (no_rows_as ErrNotFound) (stmt (update_room_returning [Some ?n]
            (\<lambda>r. r_id r = roomID \<and> room_active r) (\<lambda>now r. r\<lparr>r_name := Some ?n\<rparr>))) v = (Inr row, v')" "x = scan_room row"
          by (auto simp: Store_UpdateName_def ok_def elim!: andThen_InrE)
        from r(1) show ?thesis
          by (cases rule: update_returning_cases)
            (use k allowed(1,2) changed(2,3) r(2) False in
              \<open>auto simp: scan_room_def minRoomNameLen_def maxRoomNameLen_def room_active_def dest!: find_SomeD\<close>)
      qed
    qed (use k allowed in \<open>auto simp: fail_def Let_def\<close>)
  qed (use k in simp)
qed

end
