(* ===== verification/Route.thy ===== *)
theory Route
  imports Membership "HOL-Library.Multiset"
begin

text \<open>
  The planned route of a room: labels and notes, the shared destination and the
  ordered stops.
\<close>

section \<open>Labels and notes\<close>

text \<open>Both normalisations are one function of the cap.\<close>

definition trim_to :: "nat \<Rightarrow> string option \<Rightarrow> string option" where
  "trim_to n label =
     (case label of None \<Rightarrow> None
      | Some l \<Rightarrow> (let v = TrimSpace l in
          if v = [] then None
          else if RuneCountInString v > n then Some (string_of_runes (take n (runes v))) else Some v))"

lemma trimLabel_trim_to: "trimLabel = trim_to maxMarkerLabelLen"
  by (simp add: fun_eq_iff trimLabel_def trim_to_def)

lemma trimNotes_trim_to: "trimNotes = trim_to maxDestNotesLen"
  by (simp add: fun_eq_iff trimNotes_def trim_to_def)

lemma trim_to_spec:
  "case trim_to n (Some l) of None \<Rightarrow> TrimSpace l = []
   | Some v \<Rightarrow> TrimSpace l \<noteq> [] \<and> runes v = take n (runes (TrimSpace l))"
  using list_all_take [OF runes_valid, of n "TrimSpace l"]
  by (auto simp: trim_to_def Let_def RuneCountInString_def runes_string_of_runes)

text \<open>
  C40: \<open>trimLabel\<close> and \<open>trimNotes\<close> keep exactly the first 120 (500)
  characters of the trimmed text, counted in runes and never cutting one in
  half, and give no label when nothing is left after trimming.
\<close>
theorem trim_label_spec:
  "trimLabel None = None \<and> trimNotes None = None \<and>
   (case trimLabel (Some l) of None \<Rightarrow> TrimSpace l = []
    | Some v \<Rightarrow> TrimSpace l \<noteq> [] \<and> runes v = take 120 (runes (TrimSpace l))) \<and>
   (case trimNotes (Some l) of None \<Rightarrow> TrimSpace l = []
    | Some v \<Rightarrow> TrimSpace l \<noteq> [] \<and> runes v = take 500 (runes (TrimSpace l)))"
  using trim_to_spec [where n = 120 and l = l] trim_to_spec [where n = 500 and l = l]
  by (simp add: trimLabel_trim_to trimNotes_trim_to maxMarkerLabelLen_def maxDestNotesLen_def) (simp add: trim_to_def)

section \<open>The destination\<close>

lemma set_destination_returning:
  "set_destination roomID setBy lat lng name notes now uid d = Inr (x, d') \<Longrightarrow>
   update_room_returning [name, notes] (\<lambda>r. r_id r = roomID \<and> room_active r)
     (\<lambda>now r. r\<lparr>r_dest_lat := Some lat, r_dest_lng := Some lng, r_dest_name := name, r_dest_notes := notes,
        r_dest_set_at := Some now, r_dest_set_by := Some setBy\<rparr>) now uid d = Inr (x, d') \<and> list_all pg_text_opt [name, notes]"
  by (auto simp: set_destination_def update_room_returning_def split: if_splits)

definition placed :: "float64 \<Rightarrow> float64 \<Rightarrow> string option \<Rightarrow> string option \<Rightarrow> uuid \<Rightarrow> timestamp \<Rightarrow> room_row \<Rightarrow> room_row" where
  "placed lat lng name notes u now r =
     r\<lparr>r_dest_lat := Some lat, r_dest_lng := Some lng, r_dest_name := name, r_dest_notes := notes,
       r_dest_set_at := Some now, r_dest_set_by := Some u\<rparr>"

lemma Store_SetDestination_cases [consumes 1, case_names changed failed]:
  fixes w :: "'h rworld"
  assumes "Store_SetDestination roomID u lat lng name notes w = (res, w')"
  obtains now where "res = Inr \<lparr>DestLat = lat, DestLng = lng, DestName = name, DestNotes = notes, DestSetAt = now, DestSetBy = u\<rparr>"
      "\<exists>r \<in> set (t_rooms (w_db w)). r_id r = roomID \<and> room_active r" "w_rt w' = w_rt w"
      "w_db w' = (w_db w)\<lparr>t_rooms := update_where (\<lambda>r. r_id r = roomID \<and> room_active r) (placed lat lng name notes u now) (t_rooms (w_db w))\<rparr>"
  | e where "res = Inl e" "same_state w w'"
proof -
  obtain r v where st: "map_err (no_rows_as ErrNotFound) (stmt (set_destination roomID u lat lng name notes)) w = (r, v)" by force
  have ret: "\<forall>now uid d x d'. set_destination roomID u lat lng name notes now uid d = Inr (x, d') \<longrightarrow>
     update_room_returning [name, notes] (\<lambda>r. r_id r = roomID \<and> room_active r)
       (placed lat lng name notes u) now uid d = Inr (x, d') \<and> list_all pg_text_opt [name, notes]"
    using set_destination_returning by (auto simp: placed_def [abs_def])
  from st ret show ?thesis
  proof (cases rule: returning_cases [where ok_by = "\<lambda>_. list_all pg_text_opt [name, notes]"])
    case (changed now row)
    with assms st that(1) show ?thesis
      by (auto simp: Store_SetDestination_def andThen_Inr result_def scan_destination_def scan_uuid_def placed_def
          dest!: find_SomeD)
  next
    case (failed e)
    with assms st that(2) show ?thesis by (auto simp: Store_SetDestination_def andThen_Inl)
  qed
qed

lemma Service_SetDestination_cases [consumes 1, case_names changed failed]:
  assumes "Service_SetDestination s roomID u lat lng name notes w = (res, w')"
  obtains now d where "res = Inr d" "is_owner (w_db w) roomID u" "\<not> bad_coords lat lng"
      "d = \<lparr>DestLat = lat, DestLng = lng, DestName = trimLabel name, DestNotes = trimNotes notes, DestSetAt = now, DestSetBy = u\<rparr>"
      "\<exists>r \<in> set (t_rooms (w_db w)). r_id r = roomID \<and> room_active r"
      "w_db w' = (w_db w)\<lparr>t_rooms := update_where (\<lambda>r. r_id r = roomID \<and> room_active r)
          (placed lat lng (trimLabel name) (trimNotes notes) u now) (t_rooms (w_db w))\<rparr>"
      "w_rt w' = told s (\<lambda>rt. bc_Destination rt roomID (Some d)) (w_rt w)"
  | e where "res = Inl e" "same_state w w'"
  using assms [unfolded Service_SetDestination_def]
proof (cases rule: requireOwner_then)
  case (allowed v)
  show ?thesis
  proof (cases "bad_coords lat lng")
    case False
    with allowed(3) have "andThen (Store_SetDestination roomID u lat lng (trimLabel name) (trimNotes notes)) (\<lambda>d.
        andThen (notify s (\<lambda>rt. bc_Destination rt roomID (Some d))) (\<lambda>_. ok d)) v = (res, w')" by simp
    then show ?thesis
    proof (cases rule: store_notify_cases)
      case (failed e)
      from failed(2) show ?thesis
        by (cases rule: Store_SetDestination_cases) (use failed(1) allowed(2) that(2) in auto)
    next
      case (changed x v')
      from changed(1) show ?thesis
        by (cases rule: Store_SetDestination_cases) (use allowed(1,2) changed(2,3) False that(1) in auto)
    qed
  qed (use allowed that(2) in \<open>auto simp: fail_def\<close>)
qed (use that(2) in blast)

text \<open>
  \<open>Service.SetDestination\<close> on all branches.  On success the caller was the
  owner, the coordinates were on the globe, the active room now holds exactly
  the returned destination with the trimmed name and notes, and it was
  announced; on an error nothing changed.
\<close>
theorem set_destination_effect:
  "case Service_SetDestination s roomID actorID lat lng name notes w of
     (Inl e, w') \<Rightarrow> w_db w' = w_db w \<and> w_rt w' = w_rt w
   | (Inr d, w') \<Rightarrow> is_owner (w_db w) roomID actorID \<and> -90 \<le> lat \<and> lat \<le> 90 \<and> -180 \<le> lng \<and> lng \<le> 180 \<and>
       (\<exists>now. d = \<lparr>DestLat = lat, DestLng = lng, DestName = trimLabel name, DestNotes = trimNotes notes, DestSetAt = now, DestSetBy = actorID\<rparr> \<and>
         w_db w' = (w_db w)\<lparr>t_rooms := update_where (\<lambda>r. r_id r = roomID \<and> room_active r)
           (\<lambda>r. r\<lparr>r_dest_lat := Some lat, r_dest_lng := Some lng, r_dest_name := trimLabel name, r_dest_notes := trimNotes notes,
              r_dest_set_at := Some now, r_dest_set_by := Some actorID\<rparr>) (t_rooms (w_db w))\<rparr>) \<and>
       w_rt w' = told s (\<lambda>rt. bc_Destination rt roomID (Some d)) (w_rt w)"
proof -
  obtain res w' where k: "Service_SetDestination s roomID actorID lat lng name notes w = (res, w')" by force
  then show ?thesis
    by (cases rule: Service_SetDestination_cases) (use k in \<open>auto simp: bad_coords_def placed_def [abs_def]\<close>)
qed

lemma find_placed:
  assumes "db_ok d" "\<exists>r \<in> set (t_rooms d). r_id r = roomID \<and> room_active r"
  shows "\<exists>r. List.find (\<lambda>r. r_id r = roomID \<and> dest_set r)
    (update_where (\<lambda>r. r_id r = roomID \<and> room_active r) (placed lat lng name notes u now) (t_rooms d)) =
      Some (placed lat lng name notes u now r)"
proof -
  let ?rs = "update_where (\<lambda>r. r_id r = roomID \<and> room_active r) (placed lat lng name notes u now) (t_rooms d)"
  from assms(2) obtain r where r: "r \<in> set (t_rooms d)" "r_id r = roomID" "room_active r" by blast
  have "distinct (map r_id ?rs)"
    using keys_okD(2)[OF assms(1)] by (simp add: map_update_where placed_def)
  moreover have "placed lat lng name notes u now r \<in> set ?rs" using r by (auto simp: set_update_where)
  ultimately have "List.find (\<lambda>r. r_id r = roomID \<and> dest_set r) ?rs = Some (placed lat lng name notes u now r)"
    by (rule find_unique) (use r in \<open>auto simp: placed_def dest_set_def\<close>)
  then show ?thesis by blast
qed



lemma demo_set_destination:
  "\<exists>d w'. Service_SetDestination silent 10 1 45 90 None None (demo_world ()) = (Inr d, w') \<and> calm w' \<and> DestLat d = 45"
proof -
  have "requireOwner 10 1 (demo_world ()) = (Inr (), advance (demo_world ()))"
    by (simp add: requireOwner_calm demo_owner)
  then show ?thesis
    by (simp add: Service_SetDestination_def andThen_Inr bad_coords_def Store_SetDestination_def map_err_run stmt_calm calm_tick
        set_destination_def update_room_returning_def trimLabel_def trimNotes_def pg_text_opt_def result_def
        scan_destination_def andThen_notify ok_def told_def silent_def)
qed


text \<open>
  \<open>Service.UpdateDestinationMeta\<close> never moves or revives a pin.  On
  success the active room had a destination and only its name and notes were
  replaced (by the trimmed ones); without a destination, or for anybody but the
  owner, it reports an error and changes nothing.
\<close>
theorem update_meta_effect:
  assumes "db_ok (w_db w)"
  shows "case Service_UpdateDestinationMeta s roomID actorID name notes w of
     (Inl e, w') \<Rightarrow> w_db w' = w_db w \<and> w_rt w' = w_rt w
   | (Inr d, w') \<Rightarrow> is_owner (w_db w) roomID actorID \<and>
       (\<exists>r \<in> set (t_rooms (w_db w)). r_id r = roomID \<and> room_active r \<and>
          r_dest_lat r = Some (DestLat d) \<and> r_dest_lng r = Some (DestLng d) \<and> r_dest_set_at r = Some (DestSetAt d)) \<and>
       DestName d = trimLabel name \<and> DestNotes d = trimNotes notes \<and>
       w_db w' = (w_db w)\<lparr>t_rooms := update_where (\<lambda>r. r_id r = roomID \<and> room_active r \<and> dest_set r)
          (\<lambda>r. r\<lparr>r_dest_name := trimLabel name, r_dest_notes := trimNotes notes\<rparr>) (t_rooms (w_db w))\<rparr> \<and>
       w_rt w' = told s (\<lambda>rt. bc_Destination rt roomID (Some d)) (w_rt w)"
proof -
  let ?p = "\<lambda>r. r_id r = roomID \<and> room_active r \<and> dest_set r"
    and ?f = "\<lambda>(now :: timestamp) r. r\<lparr>r_dest_name := trimLabel name, r_dest_notes := trimNotes notes\<rparr>"
  obtain res w' where k: "Service_UpdateDestinationMeta s roomID actorID name notes w = (res, w')" by force
  from k [unfolded Service_UpdateDestinationMeta_def] show ?thesis
  proof (cases rule: requireOwner_then)
    case (allowed v)
    obtain r v' where st: "map_err (no_rows_as ErrNotFound)
        (stmt (update_room_returning [trimLabel name, trimNotes notes] ?p ?f)) v = (r, v')" by force
    from st show ?thesis
    proof (cases rule: update_returning_cases)
      case (changed now row)
      then have row: "row \<in> set (t_rooms (w_db v))" "?p row" by (auto dest: find_SomeD)
      have m: "Store_UpdateDestinationMeta roomID (trimLabel name) (trimNotes notes) v = (scan_destination (?f now row), v')"
        using st changed(1) by (simp add: Store_UpdateDestinationMeta_def andThen_Inr result_def)
      show ?thesis
      proof (cases "scan_destination (?f now row)")
        case (Inl e)
        then have "\<not> dest_ok row" using row
          by (auto simp: scan_destination_def dest_set_def dest_ok_def split: option.splits)
        then show ?thesis using db_okD(6)[OF assms, of row] row(1) allowed(2) by simp
      next
        case (Inr d)
        with m allowed(3) have "res = Inr d" "w' = v'\<lparr>w_rt := told s (\<lambda>rt. bc_Destination rt roomID (Some d)) (w_rt v')\<rparr>"
          by (simp_all add: andThen_Inr andThen_notify ok_def)
        with k changed row allowed(1,2) Inr show ?thesis
          by (auto simp: scan_destination_def split: option.splits)
      qed
    next
      case (failed e)
      with k st allowed show ?thesis by (auto simp: Store_UpdateDestinationMeta_def andThen_Inl)
    qed
  qed (use k in simp)
qed


theorem update_meta_effect_witness:
  "case Service_UpdateDestinationMeta silent 10 1 (Some ''Pier'') None (demo_world ()) of
     (Inl e, w') \<Rightarrow> w_db w' = demo_db
   | (Inr d, w') \<Rightarrow> DestName d = trimLabel (Some ''Pier'') \<and> DestLat d = 30"
  using update_meta_effect [where w = "demo_world ()" and s = silent and roomID = 10 and actorID = 1 and
      name = "Some ''Pier''" and ?notes = None]
  by (auto simp: demo_db_ok demo_room_def split: sum.splits prod.splits)


text \<open>The two statements of \<open>ClearDestination\<close>.\<close>

lemma Store_ClearStops_cases [consumes 1, case_names changed failed]:
  fixes w :: "'h rworld"
  assumes "Store_ClearStops roomID w = (res, w')"
  obtains "res = Inr ()" "w_db w' = (w_db w)\<lparr>t_room_stops := delete_where (\<lambda>s. st_room_id s = roomID) (t_room_stops (w_db w))\<rparr>"
      "w_rt w' = w_rt w"
  | e where "res = Inl e" "same_state w w'"
proof -
  have "w_rt (snd (Store_ClearStops roomID w)) = w_rt w" by (simp add: Store_ClearStops_def)
  with assms have rt: "w_rt w' = w_rt w" by simp
  with assms that show ?thesis unfolding Store_ClearStops_def
    by (cases res) (auto dest!: stmt_InrD flip_db dest: stmt_InlD)
qed

definition unplaced :: "room_row \<Rightarrow> room_row" where
  "unplaced r = r\<lparr>r_dest_lat := None, r_dest_lng := None, r_dest_set_at := None, r_dest_set_by := None\<rparr>"

text \<open>
  \<open>Service.ClearDestination\<close> removes the destination and all stops of the
  room and announces both, in this order; it is not one transaction: when it
  reports an error, nothing was announced and no stop was removed, but the
  destination may already be gone.
\<close>
theorem clear_destination_effect:
  "case Service_ClearDestination s roomID actorID w of
     (Inl e, w') \<Rightarrow> w_rt w' = w_rt w \<and> t_room_stops (w_db w') = t_room_stops (w_db w) \<and>
       (w_db w' = w_db w \<or> w_db w' = (w_db w)\<lparr>t_rooms := update_where (\<lambda>r. r_id r = roomID \<and> room_active r) unplaced (t_rooms (w_db w))\<rparr>)
   | (Inr x, w') \<Rightarrow> is_owner (w_db w) roomID actorID \<and> stops_of roomID (w_db w') = [] \<and>
       w_db w' = (w_db w)\<lparr>t_rooms := update_where (\<lambda>r. r_id r = roomID \<and> room_active r) unplaced (t_rooms (w_db w)),
         t_room_stops := filter (\<lambda>s. st_room_id s \<noteq> roomID) (t_room_stops (w_db w))\<rparr> \<and>
       w_rt w' = told s (\<lambda>rt. bc_Stops rt roomID []) (told s (\<lambda>rt. bc_Destination rt roomID None) (w_rt w))"
proof -
  obtain res w' where k: "Service_ClearDestination s roomID actorID w = (res, w')" by force
  from k [unfolded Service_ClearDestination_def] show ?thesis
  proof (cases rule: requireOwner_then)
    case (allowed v)
    obtain r1 v1 where c1: "Store_ClearDestination roomID v = (r1, v1)" by force
    from c1 [unfolded Store_ClearDestination_def, folded unplaced_def] show ?thesis
    proof (cases rule: rooms_stmt_cases)
      case (changed now)
      obtain r2 v2 where c2: "Store_ClearStops roomID v1 = (r2, v2)" by force
      then show ?thesis
      proof (cases rule: Store_ClearStops_cases)
        case changed2: changed
        with c1 c2 changed allowed k show ?thesis
          by (auto simp: andThen_Inr andThen_notify notify_run delete_where_def stops_of_def)
      next
        case (failed e)
        with c1 c2 changed allowed k show ?thesis by (auto simp: andThen_Inr andThen_Inl)
      qed
    next
      case (failed e)
      with c1 allowed k show ?thesis by (auto simp: andThen_Inl)
    qed
  qed (use k in simp)
qed


section \<open>Stops\<close>

lemma sort_key_snoc:
  assumes "\<And>y. y \<in> set xs \<Longrightarrow> f y < f x"
  shows "sort_key f (xs @ [x]) = sort_key f xs @ [x]"
proof (rule properties_for_sort_key)
  show "mset (sort_key f xs @ [x]) = mset (xs @ [x])" by simp
  show "sorted (map f (sort_key f xs @ [x]))" using assms by (auto simp: sorted_append less_imp_le)
  fix k assume "k \<in> set (sort_key f xs @ [x])"
  show "filter (\<lambda>y. f k = f y) (sort_key f xs @ [x]) = filter (\<lambda>y. f k = f y) (xs @ [x])"
    using sort_key_stable [of f "f k" xs] by (simp add: eq_commute)
qed

lemma broadcastStops_run:
  fixes w :: "'h rworld"
  obtains v where "broadcastStops s roomID w = (Inr (), v)" "w_db v = w_db w"
    "w_rt v = w_rt w \<or> w_rt v = told s (\<lambda>rt. bc_Stops rt roomID (map scan_stop (stops_of roomID (w_db w)))) (w_rt w)"
proof (cases "svc_rt s")
  case None
  with that show ?thesis by (simp add: broadcastStops_def ok_def)
next
  case (Some rt)
  obtain r v where l: "Store_ListStops roomID w = (r, v)" by force
  then have v: "w_db v = w_db w" "w_rt v = w_rt w"
    using stmt_rt [of "sql_select (\<lambda>d. map scan_stop (stops_of roomID d))" w]
      keepsD [OF keeps_reads(9), of "\<lambda>d. d = w_db w" w roomID] by (simp_all add: Store_ListStops_def)
  show ?thesis
  proof (cases r)
    case (Inl e)
    with Some l v that show ?thesis by (simp add: broadcastStops_def onErr_def ok_def)
  next
    case (Inr stops)
    with l have "stops = map scan_stop (stops_of roomID (w_db w))"
      by (auto simp: Store_ListStops_def sql_select_def dest!: stmt_InrD)
    with Some l Inr v that show ?thesis by (simp add: broadcastStops_def onErr_def notify_run)
  qed
qed

lemma Store_AddStop_cases [consumes 1, case_names changed failed]:
  fixes w :: "'h rworld"
  assumes "Store_AddStop roomID u lat lng label w = (res, w')"
  obtains row where "res = Inr (scan_stop row)" "st_room_id row = roomID" "st_position row = next_position roomID (w_db w)"
      "st_lat row = lat" "st_lng row = lng" "st_label row = label" "st_created_by row = Some u"
      "w_db w' = (w_db w)\<lparr>t_room_stops := t_room_stops (w_db w) @ [row]\<rparr>" "w_rt w' = w_rt w"
  | e where "res = Inl e" "same_state w w'"
proof -
  have "w_rt (snd (Store_AddStop roomID u lat lng label w)) = w_rt w" by (simp add: Store_AddStop_def)
  with assms have rt: "w_rt w' = w_rt w" by simp
  show ?thesis
  proof (cases res)
    case (Inl e)
    with assms rt that(2) show ?thesis by (auto simp: Store_AddStop_def dest: stmt_InlD)
  next
    case (Inr x)
    with assms obtain now uid where "insert_stop roomID u lat lng label now uid (w_db w) = Inr (x, w_db w')"
      by (auto simp: Store_AddStop_def dest!: stmt_InrD)
    with rt that(1) Inr show ?thesis
      by (auto simp: insert_stop_def Let_def split: if_splits)
  qed
qed

lemma stops_of_snoc:
  assumes "st_room_id row = roomID" "st_position row = next_position roomID d"
  shows "stops_of roomID (d\<lparr>t_room_stops := t_room_stops d @ [row]\<rparr>) = stops_of roomID d @ [row]"
    "r \<noteq> roomID \<Longrightarrow> stops_of r (d\<lparr>t_room_stops := t_room_stops d @ [row]\<rparr>) = stops_of r d"
proof -
  have "(st_position s, st_created_at s) < (st_position row, st_created_at row)"
    if "s \<in> set (filter (\<lambda>s. st_room_id s = roomID) (t_room_stops d))" for s
    using next_position_gt [of s d roomID] that assms(2) by simp
  from sort_key_snoc [of "filter (\<lambda>s. st_room_id s = roomID) (t_room_stops d)" "\<lambda>s. (st_position s, st_created_at s)" row, OF this] assms(1)
  show "stops_of roomID (d\<lparr>t_room_stops := t_room_stops d @ [row]\<rparr>) = stops_of roomID d @ [row]"
    by (simp add: stops_of_def)
  show "r \<noteq> roomID \<Longrightarrow> stops_of r (d\<lparr>t_room_stops := t_room_stops d @ [row]\<rparr>) = stops_of r d"
    using assms(1) by (simp add: stops_of_def)
qed


text \<open>
  \<open>Service.AddStop\<close> appends.  On success the caller was the owner, the
  coordinates were on the globe, the room's ordered list of stops is the old one
  with the returned stop at its end, the lists of all other rooms are the same,
  and the only frame that may have been announced is the complete new list; on
  an error nothing changed.
\<close>
theorem add_stop_appends:
  "case Service_AddStop s roomID actorID lat lng label w of
     (Inl e, w') \<Rightarrow> w_db w' = w_db w \<and> w_rt w' = w_rt w
   | (Inr stop, w') \<Rightarrow> is_owner (w_db w) roomID actorID \<and> -90 \<le> lat \<and> lat \<le> 90 \<and> -180 \<le> lng \<and> lng \<le> 180 \<and>
       map scan_stop (stops_of roomID (w_db w')) = map scan_stop (stops_of roomID (w_db w)) @ [stop] \<and>
       (\<nexists>r. r \<noteq> roomID \<and> stops_of r (w_db w') \<noteq> stops_of r (w_db w)) \<and>
       StopLat stop = lat \<and> StopLng stop = lng \<and> StopLabel stop = trimLabel label \<and> StopCreatedBy stop = actorID \<and>
       (w_rt w' = w_rt w \<or>
        w_rt w' = told s (\<lambda>rt. bc_Stops rt roomID (map scan_stop (stops_of roomID (w_db w')))) (w_rt w))"
proof -
  obtain res w' where k: "Service_AddStop s roomID actorID lat lng label w = (res, w')" by force
  from k [unfolded Service_AddStop_def] show ?thesis
  proof (cases rule: requireOwner_then)
    case (allowed v)
    show ?thesis
    proof (cases "bad_coords lat lng")
      case False
      obtain r v1 where a: "Store_AddStop roomID actorID lat lng (trimLabel label) v = (r, v1)" by force
      then show ?thesis
      proof (cases rule: Store_AddStop_cases)
        case (changed row)
        obtain v2 where v2: "broadcastStops s roomID v1 = (Inr (), v2)" "w_db v2 = w_db v1"
          "w_rt v2 = w_rt v1 \<or> w_rt v2 = told s (\<lambda>rt. bc_Stops rt roomID (map scan_stop (stops_of roomID (w_db v1)))) (w_rt v1)"
          by (rule broadcastStops_run)
        have "res = Inr (scan_stop row)" "w' = v2"
          using allowed(3) a changed(1) v2(1) False by (simp_all add: andThen_Inr ok_def)
        with k allowed(1,2) changed v2 False stops_of_snoc [OF changed(2,3)] show ?thesis
          by (auto simp: bad_coords_def scan_stop_def scan_uuid_def)
      next
        case (failed e)
        with k a allowed False show ?thesis by (auto simp: andThen_Inl)
      qed
    qed (use k allowed in \<open>auto simp: fail_def\<close>)
  qed (use k in simp)
qed

lemma Store_RemoveStop_cases [consumes 1, case_names changed failed]:
  fixes w :: "'h rworld"
  assumes "Store_RemoveStop roomID stopID w = (res, w')"
  obtains "res = Inr ()" "\<exists>st \<in> set (t_room_stops (w_db w)). is_stop roomID stopID st"
      "w_db w' = (w_db w)\<lparr>t_room_stops := delete_where (is_stop roomID stopID) (t_room_stops (w_db w))\<rparr>" "w_rt w' = w_rt w"
  | e where "res = Inl e" "same_state w w'"
  by (rule rows_stmt_cases [OF assms [unfolded Store_RemoveStop_def]])
    (auto simp: delete_where_none rows_where_pos [symmetric] simp del: rows_where_pos intro: that dest!: flip_db)

lemma stops_of_delete:
  "stops_of r (d\<lparr>t_room_stops := delete_where (is_stop roomID stopID) (t_room_stops d)\<rparr>) =
     filter (\<lambda>st. \<not> is_stop roomID stopID st) (stops_of r d)"
  by (simp add: stops_of_def delete_where_def filter_sort conj_commute)

text \<open>
  \<open>Service.RemoveStop\<close> removes the stop with that identifier from that
  room, keeps the order of the others, and cannot touch a stop of another room;
  when there is no such stop in the room it reports an error and changes
  nothing.
\<close>
theorem remove_stop_effect:
  "case Service_RemoveStop s roomID actorID stopID w of
     (Inl e, w') \<Rightarrow> w_db w' = w_db w \<and> w_rt w' = w_rt w
   | (Inr x, w') \<Rightarrow> is_owner (w_db w) roomID actorID \<and>
       (\<exists>st \<in> set (t_room_stops (w_db w)). is_stop roomID stopID st) \<and>
       stops_of roomID (w_db w') = filter (\<lambda>st. st_id st \<noteq> stopID) (stops_of roomID (w_db w)) \<and>
       (\<nexists>r. r \<noteq> roomID \<and> stops_of r (w_db w') \<noteq> stops_of r (w_db w)) \<and>
       (w_rt w' = w_rt w \<or>
        w_rt w' = told s (\<lambda>rt. bc_Stops rt roomID (map scan_stop (stops_of roomID (w_db w')))) (w_rt w))"
proof -
  have here: "filter (\<lambda>st. \<not> is_stop roomID stopID st) (stops_of roomID d) = filter (\<lambda>st. st_id st \<noteq> stopID) (stops_of roomID d)" for d
    by (rule filter_cong) (auto simp: stops_of_def is_stop_def)
  have there: "filter (\<lambda>st. \<not> is_stop roomID stopID st) (stops_of r d) = stops_of r d" if "r \<noteq> roomID" for r d
    using that by (auto simp: stops_of_def is_stop_def filter_id_conv)
  obtain res w' where k: "Service_RemoveStop s roomID actorID stopID w = (res, w')" by force
  from k [unfolded Service_RemoveStop_def] show ?thesis
  proof (cases rule: requireOwner_then)
    case (allowed v)
    obtain r v1 where a: "Store_RemoveStop roomID stopID v = (r, v1)" by force
    then show ?thesis
    proof (cases rule: Store_RemoveStop_cases)
      case changed
      obtain v2 where v2: "broadcastStops s roomID v1 = (Inr (), v2)" "w_db v2 = w_db v1"
        "w_rt v2 = w_rt v1 \<or> w_rt v2 = told s (\<lambda>rt. bc_Stops rt roomID (map scan_stop (stops_of roomID (w_db v1)))) (w_rt v1)"
        by (rule broadcastStops_run)
      have "res = Inr ()" "w' = v2" using allowed(3) a changed(1) v2(1) by (simp_all add: andThen_Inr)
      with k allowed(1,2) changed v2 show ?thesis using there by (auto simp: stops_of_delete here)
    next
      case (failed e)
      with k a allowed show ?thesis by (auto simp: andThen_Inl)
    qed
  qed (use k in simp)
qed

end
