(* ===== verification/Chat.thy ===== *)
theory Chat
  imports Membership
begin

text \<open>
  Chat and private markers: posting, cursor pagination of the history, and that
  a personal marker reaches nobody but its owner.
\<close>

section \<open>Posting\<close>

text \<open>
  \<open>Service.PostMessage\<close> on all branches.  On success the author is an active
  member, the stored body is the trimmed text of 1 to 2000 characters, the only
  change is one new line in that room, and it was announced once; on an error
  nothing was stored or announced.
\<close>
theorem post_message_effect:
  "case Service_PostMessage s roomID userID body w of
     (Inl e, w') \<Rightarrow> w_db w' = w_db w \<and> w_rt w' = w_rt w
   | (Inr msg, w') \<Rightarrow> is_member (w_db w) roomID userID \<and> TrimSpace body \<noteq> [] \<and> RuneCountInString (TrimSpace body) \<le> 2000 \<and>
       MessageBody msg = TrimSpace body \<and> MessageUserID msg = userID \<and> MessageRoomID msg = roomID \<and>
       w_db w' = (w_db w)\<lparr>t_messages := t_messages (w_db w) @
         [\<lparr>ms_id = MessageID msg, ms_room_id = roomID, ms_user_id = userID, ms_body = TrimSpace body,
           ms_created_at = MessageCreatedAt msg\<rparr>]\<rparr> \<and>
       w_rt w' = told s (\<lambda>rt. bc_ChatMessage rt roomID msg) (w_rt w)"
proof -
  let ?b = "TrimSpace body"
  obtain res w' where k: "Service_PostMessage s roomID userID body w = (res, w')" by force
  from k [unfolded Service_PostMessage_def] show ?thesis
  proof (cases rule: AssertMember_then)
    case (allowed v role)
    show ?thesis
    proof (cases "?b = [] \<or> RuneCountInString ?b > maxMessageLen")
      case False
      with allowed(3) have "andThen (Store_CreateMessage roomID userID ?b) (\<lambda>msg.
          andThen (notify s (\<lambda>rt. bc_ChatMessage rt roomID msg)) (\<lambda>_. ok msg)) v = (res, w')"
        by (simp add: Let_def)
      then show ?thesis
      proof (cases rule: store_notify_cases)
        case (failed e)
        have "w_rt w' = w_rt v" using arg_cong [OF failed(2), of "\<lambda>p. w_rt (snd p)"]
          by (simp add: Store_CreateMessage_def)
        with failed k allowed(2) show ?thesis by (auto simp: Store_CreateMessage_def dest: stmt_InlD)
      next
        case (changed msg v')
        have rt: "w_rt v' = w_rt v" using arg_cong [OF changed(1), of "\<lambda>p. w_rt (snd p)"]
          by (simp add: Store_CreateMessage_def)
        from changed(1) obtain now uid where "insert_message roomID userID ?b now uid (w_db v) = Inr (msg, w_db v')"
          by (auto simp: Store_CreateMessage_def dest!: stmt_InrD)
        with k allowed(1,2) changed(2,3) rt False show ?thesis
          by (auto simp: insert_message_def Let_def scan_message_def maxMessageLen_def dest!: flip_db split: if_splits option.splits)
      qed
    qed (use k allowed in \<open>auto simp: fail_def Let_def split: if_splits\<close>)
  qed (use k in simp)
qed

section \<open>Pages of history\<close>

lemma messages_of_sorted:
  assumes "db_ok d"
  shows "sorted_wrt (\<lambda>a b. message_key b < message_key a) (messages_of roomID d)"
proof -
  let ?F = "filter (\<lambda>m. ms_room_id m = roomID \<and> user_exists d (ms_user_id m)) (t_messages d)"
  have ids: "distinct (map ms_id (t_messages d))" using assms by (rule keys_okD)
  then have "inj_on message_key (set (t_messages d))"
    by (auto simp: inj_on_def message_key_def distinct_map)
  then have "inj_on message_key (set ?F)" by (rule inj_on_subset) auto
  moreover have "distinct (sort_key message_key ?F)" using ids by (simp add: distinct_map)
  ultimately have "distinct (map message_key (sort_key message_key ?F))" by (simp add: distinct_map)
  then have "sorted_wrt (<) (map message_key (sort_key message_key ?F))"
    by (simp add: strict_sorted_iff)
  then show ?thesis by (simp add: messages_of_def sorted_wrt_rev sorted_wrt_map)
qed

lemma filter_below:
  fixes f :: "'a \<Rightarrow> 'b :: linorder"
  assumes "sorted_wrt (\<lambda>a b. f b < f a) xs" "n < length xs"
  shows "filter (\<lambda>x. f x < f (xs ! n)) xs = drop (Suc n) xs"
proof -
  let ?a = "take n xs" and ?b = "drop (Suc n) xs"
  have xs: "xs = ?a @ xs ! n # ?b" using assms(2) by (rule id_take_nth_drop)
  then have "sorted_wrt (\<lambda>a b. f b < f a) (?a @ xs ! n # ?b)" using assms(1) by simp
  then have "\<forall>x \<in> set ?a. f (xs ! n) < f x" "\<forall>x \<in> set ?b. f x < f (xs ! n)" by (auto simp: sorted_wrt_append)
  then have "filter (\<lambda>x. f x < f (xs ! n)) ?a = []" "filter (\<lambda>x. f x < f (xs ! n)) ?b = ?b"
    by (auto simp: filter_empty_conv filter_id_conv)
  then show ?thesis by (subst xs) (simp del: append_take_drop_id)
qed

lemma page_after:
  assumes "db_ok d" "n < length (messages_of roomID d)"
  shows "message_page roomID (Some (ms_id (messages_of roomID d ! n))) limit d =
    take (nat limit) (drop (Suc n) (messages_of roomID d))"
proof -
  let ?M = "messages_of roomID d"
  have "?M ! n \<in> set ?M" using assms(2) by simp
  then have c: "?M ! n \<in> set (t_messages d)" by (auto simp: messages_of_def)
  have "List.find (\<lambda>x. ms_id x = ms_id (?M ! n)) (t_messages d) = Some (?M ! n)"
    by (rule find_unique [OF keys_okD(6)[OF assms(1)] c]) simp_all
  then show ?thesis using filter_below [OF messages_of_sorted [OF assms(1)] assms(2)]
    by (simp add: message_page_def before_cursor_def [abs_def])
qed

lemma first_page: "message_page roomID None limit d = take (nat limit) (messages_of roomID d)"
  by (simp add: message_page_def before_cursor_def [abs_def])

text \<open>A client that pages backwards: the cursor of the next request is the oldest line it holds.\<close>

fun scroll :: "uuid \<Rightarrow> int \<Rightarrow> db \<Rightarrow> nat \<Rightarrow> message_row list \<Rightarrow> message_row list" where
  "scroll roomID limit d 0 held = held"
| "scroll roomID limit d (Suc k) held =
     scroll roomID limit d k
       (held @ message_page roomID (if held = [] then None else Some (ms_id (last held))) limit d)"

lemma scroll_take:
  assumes "db_ok d" "0 < limit"
  shows "scroll roomID limit d k (take n (messages_of roomID d)) = take (n + k * nat limit) (messages_of roomID d)"
proof (induction k arbitrary: n)
  case (Suc k)
  let ?M = "messages_of roomID d" and ?l = "nat limit"
  let ?h = "take n ?M"
  have "?h @ message_page roomID (if ?h = [] then None else Some (ms_id (last ?h))) limit d = take (n + ?l) ?M"
  proof (cases "?h = []")
    case True
    then have "n = 0 \<or> ?M = []" by auto
    then show ?thesis using True by (auto simp: first_page)
  next
    case False
    let ?n = "min n (length ?M) - 1"
    have n: "?n < length ?M" "Suc ?n = min n (length ?M)" using False by (auto simp: min_def) 
    have "last ?h = ?M ! ?n" using False by (auto simp: last_conv_nth min_def)
    with False page_after [OF assms(1) n(1), of limit] n(2) show ?thesis
      by (simp add: take_add min_def)
  qed
  then show ?case using Suc.IH [of "n + ?l"] by (simp add: add.assoc add.commute)
qed simp

text \<open>
  C38: cursor pagination neither skips nor repeats a line.  A client that starts
  with the latest page and always asks for the page before its oldest line holds,
  after \<open>k\<close> requests of \<open>limit\<close> lines, exactly the newest
  \<open>k * limit\<close> lines of the room in order, and enough requests give the
  whole history.
\<close>
theorem pagination_complete:
  assumes "db_ok d" "0 < limit"
  shows "scroll roomID limit d k [] = take (k * nat limit) (messages_of roomID d) \<and>
    scroll roomID limit d (length (messages_of roomID d)) [] = messages_of roomID d"
proof -
  have "length (messages_of roomID d) \<le> length (messages_of roomID d) * nat limit" using assms(2) by (cases "nat limit") auto
  then show ?thesis using scroll_take [OF assms, of roomID _ 0] by simp
qed

theorem pagination_complete_witness:
  "map ms_id (scroll 10 2 demo_db 2 []) = [32, 31, 30]"
  using pagination_complete [of demo_db 2 10 2] demo_db_ok
  by (simp add: messages_of_def demo_defs user_exists_def message_key_def)


section \<open>Reading a page\<close>

lemma join_users_all:
  assumes "\<And>r. r \<in> set rs \<Longrightarrow> user_exists d (k r)"
  shows "length (join_users d k f rs) = length rs" "(\<And>r u. g (f r u) = h r) \<Longrightarrow> map g (join_users d k f rs) = map h rs"
proof -
  have ex: "\<exists>u. user_by_id d (k r) = Some u" if "r \<in> set rs" for r
    using assms [OF that] by (cases "user_by_id d (k r)") (auto simp: user_by_id_def user_exists_def find_None_iff)
  then show "length (join_users d k f rs) = length rs"
    by (induction rs) (auto simp: join_users_def map_filter_def)
  from ex show "map g (join_users d k f rs) = map h rs" if "\<And>r u. g (f r u) = h r"
  proof (induction rs)
    case (Cons a rs)
    from Cons.prems(1)[of a] obtain u where "user_by_id d (k a) = Some u" by auto
    with Cons that show ?case by (auto simp: join_users_def map_filter_def)
  qed (simp add: join_users_def map_filter_def)
qed

text \<open>
  \<open>Service.ListMessages\<close> for a member, without faults, returns exactly the
  requested page of the room's history, newest first, with at most 100 lines; a
  limit that is missing, negative or above 100 counts as 50.
\<close>
theorem list_messages_page:
  fixes w :: "'h rworld"
  assumes "calm w" "db_ok (w_db w)" "is_member (w_db w) roomID userID"
  shows "\<exists>msgs. fst (Service_ListMessages roomID userID beforeID limit w) = Inr msgs \<and>
    map MessageID msgs = map ms_id (message_page roomID beforeID (if limit \<le> 0 \<or> limit > 100 then 50 else limit) (w_db w)) \<and>
    length msgs \<le> 100"
proof -
  let ?l = "page_limit limit"
  let ?page = "message_page roomID beforeID ?l (w_db w)"
  have l: "0 < ?l" "?l \<le> 100" "?l = (if limit \<le> 0 \<or> limit > 100 then 50 else limit)"
    by (auto simp: page_limit_def maxMessagePage_def defaultMessagePage_def)
  obtain role where "AssertMember roomID userID w = (Inr role, advance w)"
    using member_guard.check_passes [OF assms(1,3)] by blast
  then have "fst (Service_ListMessages roomID userID beforeID limit w) = Inr (join_users (w_db w) ms_user_id scan_message ?page)"
    using l(1) assms(1) by (simp add: Service_ListMessages_def andThen_Inr Store_ListMessages_def stmt_calm calm_tick sql_select_def)
  moreover have users: "m \<in> set ?page \<Longrightarrow> user_exists (w_db w) (ms_user_id m)" for m
    using refs_okD(3)[OF assms(2)] by (auto simp: message_page_def messages_of_def dest: in_set_takeD)
  moreover have "length ?page \<le> 100" using l by (simp add: message_page_def)
  ultimately show ?thesis
    using join_users_all(1)[of ?page "w_db w" ms_user_id scan_message, OF users]
      join_users_all(2)[of ?page "w_db w" ms_user_id MessageID scan_message ms_id, OF users]
    by (simp add: scan_message_def l(3))
qed

theorem list_messages_page_witness:
  "\<exists>msgs. fst (Service_ListMessages 10 2 (Some 31) 0 (demo_world ())) = Inr msgs \<and> map MessageID msgs = [30]"
  using list_messages_page [of "demo_world ()" 10 2 "Some 31" 0]
  by (simp add: demo_db_ok demo_member) (auto simp: message_page_def before_cursor_def messages_of_def demo_defs user_exists_def message_key_def)

section \<open>Personal markers\<close>

lemma upsert_marker_find:
  assumes "upsert_marker roomID userID lat lng label now uid d = Inr (pm, d')"
  shows "pm = \<lparr>MarkerLat = lat, MarkerLng = lng, MarkerLabel = label, MarkerUpdatedAt = now\<rparr>"
    "map_option scan_marker (List.find (is_marker roomID userID) (t_personal_markers d')) = Some pm"
    "(r, u) \<noteq> (roomID, userID) \<Longrightarrow> filter (is_marker r u) (t_personal_markers d') = filter (is_marker r u) (t_personal_markers d)"
    "\<exists>ps. d' = d\<lparr>t_personal_markers := ps\<rparr>"
proof -
  let ?row = "\<lparr>pm_room_id = roomID, pm_user_id = userID, pm_lat = lat, pm_lng = lng, pm_label = label, pm_updated_at = now\<rparr>"
  let ?ps = "if \<exists>p \<in> set (t_personal_markers d). is_marker roomID userID p
    then update_where (is_marker roomID userID) (\<lambda>p. ?row) (t_personal_markers d) else t_personal_markers d @ [?row]"
  have d': "d' = d\<lparr>t_personal_markers := ?ps\<rparr>" and pm: "pm = scan_marker ?row"
    using assms by (auto simp: upsert_marker_def Let_def split: if_splits)
  show "pm = \<lparr>MarkerLat = lat, MarkerLng = lng, MarkerLabel = label, MarkerUpdatedAt = now\<rparr>"
    by (simp add: pm scan_marker_def)
  have "List.find (is_marker roomID userID) (update_where (is_marker roomID userID) (\<lambda>p. ?row) xs) = Some ?row"
    if "\<exists>p \<in> set xs. is_marker roomID userID p" for xs
    using that by (induction xs) (auto simp: update_where_def is_marker_def)
  moreover have "List.find (is_marker roomID userID) (xs @ [?row]) = Some ?row"
    if "\<not> (\<exists>p \<in> set xs. is_marker roomID userID p)" for xs
    using that by (induction xs) (auto simp: is_marker_def)
  ultimately show "map_option scan_marker (List.find (is_marker roomID userID) (t_personal_markers d')) = Some pm"
    by (simp add: d' pm)
  show "filter (is_marker r u) (t_personal_markers d') = filter (is_marker r u) (t_personal_markers d)" if "(r, u) \<noteq> (roomID, userID)"
    using that by (auto simp: d' is_marker_def intro!: filter_update_where_other)
  show "\<exists>ps. d' = d\<lparr>t_personal_markers := ps\<rparr>" by (auto simp: d')
qed

text \<open>
  \<open>Service.SetPersonalMarker\<close> is private: on success the caller, an active
  member, reads back exactly this marker, the markers of everybody else in every
  room and all other tables are untouched, and no socket hears of it; on an
  error nothing changed.
\<close>
theorem personal_marker_private:
  "case Service_SetPersonalMarker roomID userID lat lng label w of
     (Inl e, w') \<Rightarrow> w_db w' = w_db w \<and> w_rt w' = w_rt w
   | (Inr pm, w') \<Rightarrow> is_member (w_db w) roomID userID \<and> w_rt w' = w_rt w \<and>
       -90 \<le> lat \<and> lat \<le> 90 \<and> -180 \<le> lng \<and> lng \<le> 180 \<and>
       MarkerLat pm = lat \<and> MarkerLng pm = lng \<and> MarkerLabel pm = trimLabel label \<and>
       map_option scan_marker (List.find (is_marker roomID userID) (t_personal_markers (w_db w'))) = Some pm \<and>
       (\<nexists>r u. (r, u) \<noteq> (roomID, userID) \<and>
          filter (is_marker r u) (t_personal_markers (w_db w')) \<noteq> filter (is_marker r u) (t_personal_markers (w_db w))) \<and>
       (\<exists>ps. w_db w' = (w_db w)\<lparr>t_personal_markers := ps\<rparr>)"
proof -
  obtain res w' where k: "Service_SetPersonalMarker roomID userID lat lng label w = (res, w')" by force
  from k [unfolded Service_SetPersonalMarker_def] show ?thesis
  proof (cases rule: AssertMember_then)
    case (allowed v role)
    show ?thesis
    proof (cases "bad_coords lat lng")
      case False
      with allowed(3) have st: "stmt (upsert_marker roomID userID lat lng (trimLabel label)) v = (res, w')"
        by (simp add: Store_UpsertPersonalMarker_def)
      have rt: "w_rt w' = w_rt v" using arg_cong [OF st, of "\<lambda>p. w_rt (snd p)"] by simp
      show ?thesis
      proof (cases res)
        case (Inl e)
        with st rt k allowed(2) show ?thesis by (auto dest: stmt_InlD)
      next
        case (Inr pm)
        with st obtain now uid where "upsert_marker roomID userID lat lng (trimLabel label) now uid (w_db v) = Inr (pm, w_db w')"
          by (auto dest!: stmt_InrD)
        note m = upsert_marker_find [OF this]
        from m(3) have "\<nexists>r u. (r, u) \<noteq> (roomID, userID) \<and>
          filter (is_marker r u) (t_personal_markers (w_db w')) \<noteq> filter (is_marker r u) (t_personal_markers (w_db v))" by blast
        with m(1,2,4) rt k Inr allowed(1,2) False show ?thesis by (simp add: bad_coords_def)
      qed
    qed (use k allowed in \<open>auto simp: fail_def\<close>)
  qed (use k in simp)
qed

end
