(* ===== verification/Authorization.thy ===== *)
theory Authorization
  imports RoomGuards Demo
begin

text \<open>
  Authorisation of whole requests, over the guard interfaces of
  \<open>RoomGuards\<close>, and what the handlers answer when they refuse.
\<close>

section \<open>Requests of the wrong user\<close>

text \<open>
  C23: The twelve owner requests (destination, stops, rename, transfer, mute, kick, end)
  do nothing for anybody else: made by a user who is not the active owner of the
  room they report an error, change neither the tables nor any socket, and without a
  database fault the error is the 403 of the source.
\<close>
theorem owner_only_requests:
  assumes "owner_only op = Some roomID" "\<not> is_owner (w_db w) roomID u"
  shows "fst (serve tab s u op w) \<noteq> None \<and> w_db (snd (serve tab s u op w)) = w_db w \<and>
    w_rt (snd (serve tab s u op w)) = w_rt w \<and> (calm w \<longrightarrow> fst (serve tab s u op w) = Some ErrForbidden)"
  using assms(1) by (cases op) (simp_all add: owner_refusals [OF assms(2)] del: snd_outcome)

theorem owner_only_requests_witness:
  "fst (serve id silent 2 (OpKick 10 1) (demo_world ())) = Some ErrForbidden \<and>
   w_db (snd (serve id silent 2 (OpKick 10 1) (demo_world ()))) = demo_db"
  using owner_only_requests [of "OpKick 10 1" 10 "demo_world ()" 2 id silent] demo_owner [of 2]
  by (simp del: serve.simps)

text \<open>
  C24: Markers and chat are for active members only: the four member requests, made by
  anybody else, report an error and change neither the tables nor any socket, and
  without a database fault the error is the 403 of the source.
\<close>
theorem members_only_requests:
  assumes "members_only op = Some roomID" "\<not> is_member (w_db w) roomID u"
  shows "fst (serve tab s u op w) \<noteq> None \<and> w_db (snd (serve tab s u op w)) = w_db w \<and>
    w_rt (snd (serve tab s u op w)) = w_rt w \<and> (calm w \<longrightarrow> fst (serve tab s u op w) = Some ErrForbidden)"
  using assms(1) by (cases op) (simp_all add: member_refusals [OF assms(2)] del: snd_outcome)

theorem members_only_requests_witness:
  "fst (serve id silent 3 (OpPostMessage 10 ''hi'') (demo_world ())) = Some ErrForbidden \<and>
   w_db (snd (serve id silent 3 (OpPostMessage 10 ''hi'') (demo_world ()))) = demo_db"
  using members_only_requests [of "OpPostMessage 10 ''hi''" 10 "demo_world ()" 3 id silent] demo_member [of 3]
  by (simp del: serve.simps)

section \<open>What the handlers answer\<close>

text \<open>
  A missing target is reported as an internal error: \<open>rooms.ErrNotFound\<close> is not
  an \<open>APIError\<close>, so when the owner kicks somebody who is not in the room, the
  handler answers 500 and changes nothing.
\<close>
theorem kick_missing_target_500:
  assumes "calm w" "uuid_Parse L room = Inr roomID" "uuid_Parse L target = Inr targetID"
    and "is_owner (w_db w) roomID (UserID actor)" "UserID actor \<noteq> targetID"
    and "\<not> (\<exists>m \<in> set (t_room_members (w_db w)). joined roomID targetID m)"
  shows "fst (h_kick L s actor room target w) = WriteErr ErrNotFound \<and>
    resp_status (fst (h_kick L s actor room target w)) = 500 \<and> w_db (snd (h_kick L s actor room target w)) = w_db w"
proof -
  have none: "update_where (joined roomID targetID) f (t_room_members (w_db w)) = t_room_members (w_db w)" for f
    using assms(6) by (simp add: update_where_none)
  have same: "w_db w\<lparr>t_room_members := t_room_members (w_db w)\<rparr> = w_db w" by simp
  have g: "requireOwner roomID (UserID actor) w = (Inr (), advance w)"
    using requireOwner_calm [OF assms(1), of roomID "UserID actor"] assms(4) by simp
  have "stmt (update_members (joined roomID targetID) f) (advance w) = (Inr 0, advance (advance w)\<lparr>w_db := w_db w\<rparr>)" for f
    using assms(1,6) none same by (simp add: stmt_calm calm_tick update_members_def)
  then have k: "Service_Kick s roomID (UserID actor) targetID w = (Inl ErrNotFound, advance (advance w)\<lparr>w_db := w_db w\<rparr>)"
    using assms(5)
    by (simp add: Service_Kick_def g Store_Kick_def andThen_def onErr_def rows_or_not_found_def fail_def)
  show ?thesis using assms(2,3) k
    by (simp add: h_kick_def respond_def path_id_def andThen_def onErr_def result_def fail_def error_json_def)
qed

theorem kick_missing_target_500_witness:
  "resp_status (fst (h_kick demo_libs silent (scan_user (demo_user 1 ''Ann'')) (replicate 10 CHR ''u'') ''uuu'' (demo_world ()))) = 500"
proof -
  have "\<not> (\<exists>m \<in> set (t_room_members (w_db (demo_world ()))). joined 10 3 m)"
    by (simp add: demo_defs joined_def is_membership_def)
  then show ?thesis
    using kick_missing_target_500 [of "demo_world ()" demo_libs "replicate 10 CHR ''u''" 10 "''uuu''" 3 "scan_user (demo_user 1 ''Ann'')" silent]
      demo_owner [of 1]
    by (simp add: demo_libs_def scan_user_def demo_user_def new_user_def error_json_def)
qed

end
