(* ===== verification/BroadcasterSpec.thy ===== *)
theory BroadcasterSpec
  imports RoomSafety
begin

text \<open>
  What the room service relies on from a \<open>Broadcaster\<close>, as an interface with
  laws, and what it gives in return: announcements never change who is present,
  the two presence reports agree, and after a kick, a departure or the end of a
  room no socket of the people concerned is left open.
\<close>

section \<open>The calls of the service\<close>

inductive bc_call :: "'h Broadcaster \<Rightarrow> ('h \<Rightarrow> 'h) \<Rightarrow> bool" for B where
  joined: "bc_call B (bc_MemberJoined B r m)"
| left: "bc_call B (bc_MemberLeft B r u)"
| mute: "bc_call B (bc_Mute B r u b by')"
| kick: "bc_call B (bc_KickConnection B r u by')"
| ended: "bc_call B (bc_RoomEnded B r)"
| destination: "bc_call B (bc_Destination B r d)"
| stops: "bc_call B (bc_Stops B r ss)"
| owner: "bc_call B (bc_OwnerChanged B r u v)"
| renamed: "bc_call B (bc_RoomRenamed B r n)"
| chat: "bc_call B (bc_ChatMessage B r msg)"
| disconnect: "bc_call B (bc_DisconnectUser B r u)"

lemma keeps_notify_rt:
  assumes "\<And>rt h. svc_rt s = Some rt \<Longrightarrow> I h \<Longrightarrow> I (f rt h)"
  shows "keeps (\<lambda>w :: 'h rworld. I (w_rt w)) (notify s f)"
  by (rule keepsI) (auto simp: notify_run told_def assms split: option.splits)

lemma keeps_rand_Int_rt [keeps_intros]: "keeps (\<lambda>w :: 'h rworld. I (w_rt w)) (rand_Int n)"
  by (rule keepsI) (simp add: rand_Int_def split: sum.splits)

lemmas store_methods = Store_CreateRoom_def Store_GetByID_def Store_GetActiveByCode_def Store_UpsertMember_def
  Store_MarkLeft_def Store_SetMuted_def Store_Kick_def Store_EndRoom_def Store_GetMember_def Store_ListMembers_def
  Store_ActiveMembership_def Store_UpdateName_def Store_TransferOwnership_def Store_ListActiveRoomsForUser_def
  Store_GetDestination_def Store_SetDestination_def Store_UpdateDestinationMeta_def Store_ClearDestination_def
  Store_GetPersonalMarker_def Store_UpsertPersonalMarker_def Store_DeletePersonalMarker_def Store_ListStops_def
  Store_AddStop_def Store_ClearStops_def Store_RemoveStop_def Store_UpdateStopLabel_def Store_CreateMessage_def
  Store_ListMessages_def

lemmas service_methods = Service_Create_def Service_Join_def Service_Detail_def Service_ListActiveForUser_def
  Service_SetDestination_def Service_UpdateDestinationMeta_def Service_ClearDestination_def
  Service_SetPersonalMarker_def Service_ClearPersonalMarker_def Service_AddStop_def Service_UpdateStopLabel_def
  Service_RemoveStop_def Service_ClearStops_def Service_Rename_def Service_TransferOwnership_def Service_Leave_def
  Service_Mute_def Service_Kick_def Service_End_def Service_PostMessage_def Service_ListMessages_def
  requireOwner_def AssertMember_def broadcastStops_def demote_destination_def

lemma keeps_generate_digits_rt [keeps_intros]: "keeps (\<lambda>w :: 'h rworld. I (w_rt w)) (generate_digits n)"
  by (induction n) (simp_all add: keeps_intros)

lemma keeps_create_loop_rt [keeps_intros]: "keeps (\<lambda>w :: 'h rworld. I (w_rt w)) (create_loop k ownerID name)"
proof (induction k)
  case (Suc k)
  show ?case unfolding create_loop.simps generateCode_def store_methods
    by (intro keeps_intros Suc.IH)
qed (simp add: keeps_intros)

text \<open>A property of the realtime state that every call keeps is kept by every method of the service.\<close>

definition calls_keep :: "'h Service \<Rightarrow> ('h \<Rightarrow> bool) \<Rightarrow> bool" where
  "calls_keep s I \<longleftrightarrow> (\<forall>rt f h. svc_rt s = Some rt \<longrightarrow> bc_call rt f \<longrightarrow> I h \<longrightarrow> I (f h))"

lemma keeps_call_rt:
  assumes "calls_keep s I"
  shows "keeps (\<lambda>w. I (w_rt w)) (notify s (\<lambda>rt. bc_MemberJoined rt r m))"
    "keeps (\<lambda>w. I (w_rt w)) (notify s (\<lambda>rt. bc_MemberLeft rt r u))"
    "keeps (\<lambda>w. I (w_rt w)) (notify s (\<lambda>rt. bc_Mute rt r u b by'))"
    "keeps (\<lambda>w. I (w_rt w)) (notify s (\<lambda>rt. bc_KickConnection rt r u by'))"
    "keeps (\<lambda>w. I (w_rt w)) (notify s (\<lambda>rt. bc_RoomEnded rt r))"
    "keeps (\<lambda>w. I (w_rt w)) (notify s (\<lambda>rt. bc_Destination rt r d))"
    "keeps (\<lambda>w. I (w_rt w)) (notify s (\<lambda>rt. bc_Stops rt r ss))"
    "keeps (\<lambda>w. I (w_rt w)) (notify s (\<lambda>rt. bc_OwnerChanged rt r u v))"
    "keeps (\<lambda>w. I (w_rt w)) (notify s (\<lambda>rt. bc_RoomRenamed rt r n))"
    "keeps (\<lambda>w. I (w_rt w)) (notify s (\<lambda>rt. bc_ChatMessage rt r msg))"
    "keeps (\<lambda>w. I (w_rt w)) (notify s (\<lambda>rt. bc_DisconnectUser rt r u))"
  by (rule keeps_notify_rt; use assms in \<open>auto simp: calls_keep_def intro: bc_call.intros\<close>)+

lemma keeps_service_rt:
  fixes s :: "'h Service"
  assumes "calls_keep s I"
  shows "keeps (\<lambda>w :: 'h rworld. I (w_rt w)) (Service_Create u name)"
    "keeps (\<lambda>w. I (w_rt w)) (Service_Join tab s u code)"
    "keeps (\<lambda>w. I (w_rt w)) (Service_Detail s r u)"
    "keeps (\<lambda>w. I (w_rt w)) (Service_ListActiveForUser s u)"
    "keeps (\<lambda>w. I (w_rt w)) (Service_SetDestination s r u lat lng name notes)"
    "keeps (\<lambda>w. I (w_rt w)) (Service_UpdateDestinationMeta s r u name notes)"
    "keeps (\<lambda>w. I (w_rt w)) (Service_ClearDestination s r u)"
    "keeps (\<lambda>w :: 'h rworld. I (w_rt w)) (Service_SetPersonalMarker r u lat lng label)"
    "keeps (\<lambda>w :: 'h rworld. I (w_rt w)) (Service_ClearPersonalMarker r u)"
    "keeps (\<lambda>w. I (w_rt w)) (Service_AddStop s r u lat lng label)"
    "keeps (\<lambda>w. I (w_rt w)) (Service_UpdateStopLabel s r u st label)"
    "keeps (\<lambda>w. I (w_rt w)) (Service_RemoveStop s r u st)"
    "keeps (\<lambda>w. I (w_rt w)) (Service_ClearStops s r u)"
    "keeps (\<lambda>w. I (w_rt w)) (Service_Rename s r u rname)"
    "keeps (\<lambda>w. I (w_rt w)) (Service_Leave s r u)"
    "keeps (\<lambda>w. I (w_rt w)) (Service_Mute s r u t muted)"
    "keeps (\<lambda>w. I (w_rt w)) (Service_Kick s r u t)"
    "keeps (\<lambda>w. I (w_rt w)) (Service_End s r u)"
    "keeps (\<lambda>w. I (w_rt w)) (Service_PostMessage s r u body)"
    "keeps (\<lambda>w :: 'h rworld. I (w_rt w)) (Service_ListMessages r u before limit)"
    "keeps (\<lambda>w. I (w_rt w)) (Service_TransferOwnership s r u t)"
  unfolding service_methods store_methods by (intro keeps_intros keeps_call_rt [OF assms])+

lemma serve_rt:
  assumes "calls_keep s I" and "I (w_rt w)"
  shows "I (w_rt (snd (serve tab s u op w)))"
  by (cases op) (simp_all only: serve.simps snd_outcome,
    (rule keeps_service_rt [of s I, THEN keepsD], rule assms(1), rule assms(2))+)

lemma rt_then:
  fixes m :: "('h, 'a) svc"
  assumes "keeps (\<lambda>w. I (w_rt w)) m" "\<And>x. triple (\<lambda>w. I (w_rt w)) (k x) Q (\<lambda>_ _. True)"
  shows "triple (\<lambda>w. I (w_rt w)) (andThen m k) Q (\<lambda>_ _. True)"
  by (rule triple_andThen [OF _ assms(2)], rule triple_conseq [OF assms(1)[unfolded keeps_triple]]) simp_all

lemma triple_asks: "(\<And>w. P w \<Longrightarrow> Q (f w) w) \<Longrightarrow> triple P (asks f) Q E"
  by (simp add: triple_def asks_def)

section \<open>The interface\<close>

locale broadcaster =
  fixes B :: "'h Broadcaster"
    and inv :: "'h \<Rightarrow> bool"
    and present :: "uuid \<Rightarrow> uuid \<Rightarrow> 'h \<Rightarrow> bool"
    and open_socket :: "uuid \<Rightarrow> uuid \<Rightarrow> 'h \<Rightarrow> bool"
  assumes call_inv: "bc_call B f \<Longrightarrow> inv h \<Longrightarrow> inv (f h)"
    and call_present: "bc_call B f \<Longrightarrow> inv h \<Longrightarrow> present r u (f h) = present r u h"
    and call_open: "bc_call B f \<Longrightarrow> inv h \<Longrightarrow> open_socket r u (f h) \<Longrightarrow> open_socket r u h"
    and ids_present: "inv h \<Longrightarrow> set (bc_PresentUserIDs B r h) = {u. present r u h} \<and> distinct (bc_PresentUserIDs B r h)"
    and count_present: "inv h \<Longrightarrow> bc_PresentCount B r h = int (length (bc_PresentUserIDs B r h))"
    and kick_closes: "inv h \<Longrightarrow> \<not> open_socket r u (bc_KickConnection B r u by' h)"
    and disconnect_closes: "inv h \<Longrightarrow> \<not> open_socket r u (bc_DisconnectUser B r u h)"
    and ended_closes: "inv h \<Longrightarrow> \<not> open_socket r u (bc_RoomEnded B r h)"
begin

lemma serve_inv:
  assumes "svc_rt s = Some B" "inv (w_rt w)"
  shows "inv (w_rt (snd (serve tab s u op w)))"
  by (rule serve_rt [of s inv]) (use assms call_inv in \<open>auto simp: calls_keep_def\<close>)

lemma serve_present:
  assumes "svc_rt s = Some B" "inv (w_rt w)"
  shows "present r v (w_rt (snd (serve tab s u op w))) = present r v (w_rt w)"
proof -
  have "inv (w_rt (snd (serve tab s u op w))) \<and>
      present r v (w_rt (snd (serve tab s u op w))) = present r v (w_rt w)"
    by (rule serve_rt [of s "\<lambda>h. inv h \<and> present r v h = present r v (w_rt w)"])
      (use assms call_inv call_present in \<open>auto simp: calls_keep_def\<close>)
  then show ?thesis by simp
qed

text \<open>A closed socket is never opened again by a request.\<close>

lemma serve_stays_closed:
  assumes "svc_rt s = Some B" "inv (w_rt w)" "\<not> open_socket r v (w_rt w)"
  shows "\<not> open_socket r v (w_rt (snd (serve tab s u op w)))"
proof -
  have "inv (w_rt (snd (serve tab s u op w))) \<and> \<not> open_socket r v (w_rt (snd (serve tab s u op w)))"
    by (rule serve_rt [of s "\<lambda>h. inv h \<and> \<not> open_socket r v h"])
      (use assms call_inv call_open in \<open>auto simp: calls_keep_def\<close>)
  then show ?thesis by simp
qed

text \<open>The socket of a kicked or departed user is closed when the request returns, as are all sockets of an ended room.\<close>

lemma triple_notify:
  assumes "svc_rt s = Some B" "\<And>h. inv h \<Longrightarrow> P (f B h)"
  shows "triple (\<lambda>w. inv (w_rt w)) (notify s f) (\<lambda>_ w. P (w_rt w)) (\<lambda>_ _. True)"
  by (rule tripleI) (auto simp: notify_run told_def assms)

lemma kick_closed:
  assumes "svc_rt s = Some B"
  shows "triple (\<lambda>w. inv (w_rt w)) (Service_Kick s r u t) (\<lambda>_ w. \<not> open_socket r t (w_rt w)) (\<lambda>_ _. True)"
  unfolding Service_Kick_def store_methods requireOwner_def
  by (intro rt_then triple_if triple_fail triple_notify keeps_intros) (simp_all add: assms kick_closes)

lemma leave_closed:
  assumes "svc_rt s = Some B"
  shows "triple (\<lambda>w. inv (w_rt w)) (Service_Leave s r u) (\<lambda>_ w. \<not> open_socket r u (w_rt w)) (\<lambda>_ _. True)"
proof -
  have "calls_keep s inv" using assms call_inv by (auto simp: calls_keep_def)
  note keeps_call_rt [OF this, intro]
  then show ?thesis unfolding Service_Leave_def store_methods 
    by (intro rt_then triple_if triple_fail triple_notify keeps_intros) (simp_all add: assms disconnect_closes)
qed

lemma end_closed:
  assumes "svc_rt s = Some B"
  shows "triple (\<lambda>w. inv (w_rt w)) (Service_End s r u) (\<lambda>_ w. \<not> open_socket r v (w_rt w)) (\<lambda>_ _. True)"
  unfolding Service_End_def store_methods requireOwner_def
  by (intro rt_then triple_if triple_fail triple_notify keeps_intros) (simp_all add: assms ended_closes)

text \<open>The presence a detail reports is the presence of the broadcaster, and the list of rooms counts the same people.\<close>

lemma detail_present:
  assumes "svc_rt s = Some B" "inv (w_rt w)" "Service_Detail s r u w = (Inr x, w')"
  shows "set (DetailPresentUserIDs x) = {v. present r v (w_rt w)} \<and> distinct (DetailPresentUserIDs x)"
proof -
  have "triple (\<lambda>w'. w_rt w' = w_rt w) (Service_Detail s r u)
      (\<lambda>x _. DetailPresentUserIDs x = bc_PresentUserIDs B r (w_rt w)) (\<lambda>_ _. True)"
    unfolding Service_Detail_def store_methods by (intro rt_then triple_asks keeps_intros) (simp add: assms(1))
  from triple_InrD [OF this _ assms(3)] ids_present [OF assms(2)] show ?thesis by simp
qed

lemma active_count:
  assumes "svc_rt s = Some B" "inv (w_rt w)" "Service_ListActiveForUser s u w = (Inr rooms, w')"
  shows "\<forall>a \<in> set rooms. ActiveMemberCount a = int (card {v. present (ActiveID a) v (w_rt w)})"
proof -
  have "triple (\<lambda>w'. w_rt w' = w_rt w) (Service_ListActiveForUser s u)
      (\<lambda>rooms _. \<forall>a \<in> set rooms. ActiveMemberCount a = bc_PresentCount B (ActiveID a) (w_rt w)) (\<lambda>_ _. True)"
    unfolding Service_ListActiveForUser_def store_methods by (intro rt_then triple_asks keeps_intros) (simp add: assms(1))
  from triple_InrD [OF this _ assms(3)]
  have "ActiveMemberCount a = int (length (bc_PresentUserIDs B (ActiveID a) (w_rt w)))" if "a \<in> set rooms" for a
    using that by (simp add: count_present [OF assms(2)])
  then show ?thesis using ids_present [OF assms(2)] distinct_card by metis
qed

end

end
