(* ===== verification/HubBroadcaster.thy ===== *)
theory HubBroadcaster
  imports HubInvariant BroadcasterSpec
begin

text \<open>
  The hub provides what the room service asks of a \<open>Broadcaster\<close>: which socket
  a user has in a room, which sockets a broadcast reaches, and the interpretation
  of the interface \<open>broadcaster\<close> on the methods of the hub.
\<close>

section \<open>Sockets of a room\<close>

definition socket_of :: "uuid \<Rightarrow> uuid \<Rightarrow> hub \<Rightarrow> cid option" where
  "socket_of roomID userID h = (case h_rooms h roomID of None \<Rightarrow> None | Some rs \<Rightarrow> map_of (rs_clients rs) userID)"

definition open_socket :: "uuid \<Rightarrow> uuid \<Rightarrow> hub \<Rightarrow> bool" where
  "open_socket roomID userID h =
     (case socket_of roomID userID h of None \<Rightarrow> False | Some c \<Rightarrow> \<not> cl_closed (h_heap h c))"

lemma IsPresent_socket: "IsPresent r u h \<longleftrightarrow> socket_of r u h \<noteq> None"
  by (simp add: IsPresent_def socket_of_def split: option.splits)

lemma socket_of_rooms: "h_rooms h' r = h_rooms h r \<Longrightarrow> socket_of r u h' = socket_of r u h"
  by (simp add: socket_of_def)

lemma IsPresent_rooms: "h_rooms h' r = h_rooms h r \<Longrightarrow> IsPresent r u h' = IsPresent r u h"
  by (simp add: IsPresent_def)

lemma socket_of_owner:
  assumes "hub_ok h" "socket_of r u h = Some c"
  shows "c < h_next h" "cl_user (h_heap h c) = u" "cl_room (h_heap h c) = r"
  using assms by (auto simp: socket_of_def room_ok_def split: option.splits dest!: hub_okD(1) map_of_SomeD)

lemma socket_of_inj:
  "hub_ok h \<Longrightarrow> socket_of r u h = Some c \<Longrightarrow> socket_of r' u' h = Some c \<Longrightarrow> r' = r \<and> u' = u"
  using socket_of_owner by metis

lemma in_clients_socket:
  assumes "hub_ok h"
  shows "(\<exists>rs. h_rooms h r = Some rs \<and> (u, c) \<in> set (rs_clients rs)) \<longleftrightarrow> socket_of r u h = Some c"
proof (cases "h_rooms h r")
  case (Some rs)
  with in_clients [OF hub_okD(1)[OF assms Some]] show ?thesis by (simp add: socket_of_def)
qed (simp add: socket_of_def)

text \<open>A client is reached by a broadcast when it is the socket of somebody who is not excluded.\<close>

definition reached :: "uuid \<Rightarrow> uuid option \<Rightarrow> hub \<Rightarrow> cid \<Rightarrow> bool" where
  "reached r ex h c \<longleftrightarrow> socket_of r (cl_user (h_heap h c)) h = Some c \<and> ex \<noteq> Some (cl_user (h_heap h c))"

lemma reached_socket: "hub_ok h \<Longrightarrow> socket_of r u h = Some c \<Longrightarrow> reached r ex h c \<longleftrightarrow> ex \<noteq> Some u"
  by (simp add: reached_def socket_of_owner)

lemma broadcast_reached:
  assumes "hub_ok h"
  shows "h_heap (broadcast r t p ex h) c = (if reached r ex h c then enqueue (pack t p) (h_heap h c) else h_heap h c)"
proof -
  have "(\<exists>rs uid. h_rooms h r = Some rs \<and> (uid, c) \<in> set (rs_clients rs) \<and> ex \<noteq> Some uid) \<longleftrightarrow> reached r ex h c"
    unfolding reached_def using in_clients_socket [OF assms, of r _ c] socket_of_owner(2)[OF assms, of r _ c] by metis
  then show ?thesis by (simp add: broadcast_heap [OF assms])
qed

lemma enqueue_keeps_closed: "cl_closed c \<Longrightarrow> cl_closed (enqueue b c)"
  by (simp add: enqueue_def)

lemma broadcast_closed: "hub_ok h \<Longrightarrow> cl_closed (h_heap h c) \<Longrightarrow> cl_closed (h_heap (broadcast r t p ex h) c)"
  by (simp add: broadcast_reached enqueue_keeps_closed)

section \<open>What the closing calls do\<close>

lemma KickConnection_rooms [simp]: "h_rooms (KickConnection r u b h) = h_rooms h"
  by (simp add: KickConnection_def Let_def sendTo_def split: option.splits)

lemma KickConnection_heap:
  assumes "hub_ok h"
  shows "h_heap (KickConnection r u b h) c =
    (if socket_of r u h = Some c then close ''kicked'' (enqueue (pack MsgKicked (PKicked u b)) (h_heap h c))
     else if reached r (Some u) h c then enqueue (pack MsgKicked (PKicked u b)) (h_heap h c) else h_heap h c)"
proof -
  have "\<not> reached r (Some u) h c" if "socket_of r u h = Some c" for c
    using that assms by (simp add: reached_socket)
  then show ?thesis
    by (auto simp: KickConnection_def Let_def sendTo_def broadcast_reached [OF assms] socket_of_def split: option.splits)
qed

lemma RoomEnded_rooms [simp]: "h_rooms (BroadcastRoomEnded r h) = h_rooms h"
  by (simp add: BroadcastRoomEnded_def Let_def split: option.splits)

lemma RoomEnded_heap:
  assumes "hub_ok h"
  shows "h_heap (BroadcastRoomEnded r h) c =
    (if reached r None h c then close ''room ended'' (enqueue (pack MsgRoomEnded NoPayload) (h_heap h c)) else h_heap h c)"
proof (cases "h_rooms h r")
  case (Some rs)
  note ok = hub_okD(1)[OF assms Some]
  have mem: "c \<in> set (map snd (rs_clients rs)) \<longleftrightarrow> reached r None h c"
    using in_clients_socket [OF assms, of r _ c] socket_of_owner(2)[OF assms, of r _ c] Some
    by (force simp: reached_def)
  have "h_heap (BroadcastRoomEnded r h) c =
      (if c \<in> set (map snd (rs_clients rs)) then close ''room ended'' (enqueue (pack MsgRoomEnded NoPayload) (h_heap h c))
       else h_heap h c)"
    using Some to_all_heap [OF distinct_clients [OF ok]] by (simp add: BroadcastRoomEnded_def Let_def)
  then show ?thesis by (simp only: mem)
qed (simp add: BroadcastRoomEnded_def reached_def socket_of_def)

lemma DisconnectUser_rooms [simp]: "h_rooms (DisconnectUser r u h) = h_rooms h"
  by (simp add: DisconnectUser_def close_user_def split: option.splits)

lemma DisconnectUser_heap:
  "h_heap (DisconnectUser r u h) c = (if socket_of r u h = Some c then close ''left room'' (h_heap h c) else h_heap h c)"
  by (auto simp: DisconnectUser_def close_user_def socket_of_def split: option.splits)

lemma closing_sockets:
  "socket_of r u (KickConnection r' u' b h) = socket_of r u h"
  "socket_of r u (DisconnectUser r' u' h) = socket_of r u h"
  "socket_of r u (BroadcastRoomEnded r' h) = socket_of r u h"
  by (rule socket_of_rooms, simp)+

section \<open>The hub is a broadcaster\<close>

lemma hub_call_frame:
  assumes "bc_call hub_broadcaster f" "hub_ok h"
  shows "hub_ok (f h) \<and> h_rooms (f h) = h_rooms h \<and> (cl_closed (h_heap h c) \<longrightarrow> cl_closed (h_heap (f h) c))"
  using assms
  by cases (simp_all add: hub_broadcaster_def hub_broadcasts hub_ok_intros broadcast_closed KickConnection_heap
      RoomEnded_heap DisconnectUser_heap enqueue_keeps_closed)

interpretation hub_bc: broadcaster hub_broadcaster hub_ok IsPresent open_socket
proof unfold_locales
  fix f h r u assume f: "bc_call hub_broadcaster f" "hub_ok h"
  note frame = hub_call_frame [OF f]
  show "hub_ok (f h)" using frame by simp
  show "IsPresent r u (f h) = IsPresent r u h" using frame by (intro IsPresent_rooms) simp
  have "socket_of r u (f h) = socket_of r u h" using frame by (intro socket_of_rooms) simp
  then show "open_socket r u h" if "open_socket r u (f h)"
    using that frame by (auto simp: open_socket_def split: option.splits)
next
  fix h r assume h: "hub_ok h"
  show "set (bc_PresentUserIDs hub_broadcaster r h) = {u. IsPresent r u h} \<and> distinct (bc_PresentUserIDs hub_broadcaster r h)"
    using hub_okD(1)[OF h] 
    by (auto simp: hub_broadcaster_def PresentUserIDs_def IsPresent_def room_ok_def map_of_eq_None_iff split: option.splits)
  show "bc_PresentCount hub_broadcaster r h = int (length (bc_PresentUserIDs hub_broadcaster r h))"
    by (simp add: hub_broadcaster_def PresentCount_def PresentUserIDs_def split: option.splits)
  fix u b
  show "\<not> open_socket r u (bc_KickConnection hub_broadcaster r u b h)"
    using h by (simp add: hub_broadcaster_def open_socket_def closing_sockets KickConnection_heap split: option.splits)
  show "\<not> open_socket r u (bc_DisconnectUser hub_broadcaster r u h)"
    by (simp add: hub_broadcaster_def open_socket_def closing_sockets DisconnectUser_heap split: option.splits)
  show "\<not> open_socket r u (bc_RoomEnded hub_broadcaster r h)"
    using h by (simp add: hub_broadcaster_def open_socket_def closing_sockets RoomEnded_heap reached_socket
        split: option.splits)
qed

lemma hub_service_rt [simp]: "svc_rt hub_service = Some hub_broadcaster"
  by (simp add: hub_service_def)

end
