(* ===== verification/Presence.thy ===== *)
theory Presence
  imports HubBroadcaster Demo
begin

text \<open>
  Presence, delivery and moderation on the sockets: who is present after a
  connection or a disconnection, which clients a broadcast reaches and in which
  order frames are written, and that terminal frames are written before a
  socket is shut down.
\<close>

section \<open>A hub with two users\<close>

definition demo_hub :: hub where
  "demo_hub = \<lparr>h_rooms = (\<lambda>r. if r = 10 then Some \<lparr>rs_clients = [(1, 0), (2, 1)], rs_locations = [], rs_emergencies = [1]\<rparr>
       else None),
     h_heap = (\<lambda>c. if c = 0 then newClient 1 10 else if c = 1 then newClient 2 10 else newClient 0 0), h_next = 2\<rparr>"

lemma demo_hub_ok [simp]: "hub_ok demo_hub"
  by (simp add: hub_ok_def demo_hub_def room_ok_def client_ok_def newClient_def)

lemma demo_hub_simps [simp]:
  "socket_of 10 u demo_hub = (if u = 1 then Some 0 else if u = 2 then Some 1 else None)"
  "h_heap demo_hub 0 = newClient 1 10" "h_heap demo_hub (Suc 0) = newClient 2 10" "h_next demo_hub = 2"
  by (simp_all add: socket_of_def demo_hub_def)

section \<open>Delivery\<close>

text \<open>
  C31: \<open>Hub.broadcast\<close> reaches exactly the current sockets of the room other than the
  excluded user's.  Each of them gets the packed frame at the end of its queue, or
  is closed as a slow consumer when its 32 slots are full; every other client and
  all room states are untouched.
\<close>
theorem broadcast_delivers:
  assumes "hub_ok h"
  shows "h_rooms (broadcast r t p ex h) = h_rooms h \<and>
    h_heap (broadcast r t p ex h) =
      (\<lambda>c. let x = h_heap h c in
         if socket_of r (cl_user x) h = Some c \<and> ex \<noteq> Some (cl_user x)
         then if length (cl_send x) < 32 then x\<lparr>cl_send := cl_send x @ [pack t p]\<rparr> else close ''send buffer full'' x
         else x)"
  by (simp add: fun_eq_iff broadcast_reached [OF assms] reached_def enqueue_def sendBuffer_def Let_def)

theorem broadcast_delivers_witness:
  "hub_ok demo_hub \<and>
   cl_send (h_heap (broadcast 10 MsgMemberPresent (PMemberPresent 1) (Some 1) demo_hub) 1) = [pack MsgMemberPresent (PMemberPresent 1)] \<and>
   cl_send (h_heap (broadcast 10 MsgMemberPresent (PMemberPresent 1) (Some 1) demo_hub) 0) = []"
  using broadcast_delivers [OF demo_hub_ok, of 10 MsgMemberPresent "PMemberPresent 1" "Some 1"]
  by (simp add: newClient_def Let_def)

section \<open>Connecting\<close>

lemma roomFor_socket: "roomFor r h = (rs, h1) \<Longrightarrow> socket_of r u h = map_of (rs_clients rs) u"
  by (auto simp: roomFor_def socket_of_def newRoomState_def split: option.splits)

lemma roomFor_frame:
  "roomFor r h = (rs, h1) \<Longrightarrow> h_rooms h1 = (h_rooms h)(r := Some rs) \<and> h_heap h1 = h_heap h \<and> h_next h1 = h_next h"
  by (auto simp: roomFor_def split: option.splits)

lemma join_run:
  fixes h c
  defines "u \<equiv> cl_user (h_heap h c)"
  assumes j: "join r c h = (became, h')"
  shows "became \<longleftrightarrow> socket_of r u h = None"
    "socket_of r' u' h' = (if r' = r \<and> u' = u then Some c else socket_of r' u' h)"
    "h_heap h' e = (if socket_of r u h = Some e then close ''replaced by new connection'' (h_heap h e) else h_heap h e)"
    "h_next h' = h_next h"
proof -
  obtain rs h1 where r: "roomFor r h = (rs, h1)" by force
  note rf = roomFor_frame [OF r]
  from j r have "became = (map_of (rs_clients rs) u = None)"
    and h': "h' = put_room r (rs\<lparr>rs_clients := AList.update u c (rs_clients rs)\<rparr>)
      (case map_of (rs_clients rs) u of None \<Rightarrow> h1 | Some e \<Rightarrow> on_client e (close ''replaced by new connection'') h1)"
    by (auto simp: join_def Let_def u_def)
  then show "became \<longleftrightarrow> socket_of r u h = None" by (simp add: roomFor_socket [OF r])
  show "socket_of r' u' h' = (if r' = r \<and> u' = u then Some c else socket_of r' u' h)"
    using rf roomFor_socket [OF r, of u'] by (auto simp: h' socket_of_def update_conv' split: option.splits)
  show "h_heap h' e = (if socket_of r u h = Some e then close ''replaced by new connection'' (h_heap h e) else h_heap h e)"
    using rf roomFor_socket [OF r, of u] by (auto simp: h' split: option.splits)
  show "h_next h' = h_next h" using rf by (auto simp: h' split: option.splits)
qed

lemma alloc_frame:
  assumes "hub_ok h" "alloc_client u r h = (c, h1)"
  shows "socket_of r' u' h1 = socket_of r' u' h" "h_heap h1 = (h_heap h)(c := newClient u r)"
    "socket_of r' u' h \<noteq> Some c"
  using assms socket_of_owner(1)[OF assms(1), of r' u' c] by (auto simp: alloc_client_def socket_of_def)

text \<open>
  A new connection makes its user present through the new socket alone.
  \<open>join\<close> reports a transition exactly when the user was not present, the user's
  previous socket in that room is closed, the new one is open, and nobody else's
  socket, in any room, is touched.
\<close>
theorem connect_presence:
  assumes "hub_ok h" "alloc_client u r h = (c, h1)" "join r c h1 = (became, h2)"
  shows "(became \<longleftrightarrow> \<not> IsPresent r u h) \<and>
    (\<forall>r' u'. socket_of r' u' h2 = (if r' = r \<and> u' = u then Some c else socket_of r' u' h)) \<and>
    open_socket r u h2 \<and>
    (\<forall>e. e \<noteq> c \<longrightarrow> h_heap h2 e =
       (if socket_of r u h = Some e then close ''replaced by new connection'' (h_heap h e) else h_heap h e))"
proof -
  note al = alloc_frame [OF assms(1,2)]
  have u: "cl_user (h_heap h1 c) = u" "\<not> cl_closed (h_heap h1 c)" by (simp_all add: al newClient_def)
  note j = join_run [OF assms(3), unfolded u]
  show ?thesis using u al by (simp add: j IsPresent_socket open_socket_def)
qed

theorem connect_presence_witness:
  "hub_ok demo_hub \<and> socket_of 10 1 (snd (join 10 2 (snd (alloc_client 1 10 demo_hub)))) = Some 2 \<and>
   cl_closed (h_heap (snd (join 10 2 (snd (alloc_client 1 10 demo_hub)))) 0)"
proof -
  obtain became h2 where j: "join 10 2 (snd (alloc_client 1 10 demo_hub)) = (became, h2)" by force
  have "alloc_client 1 10 demo_hub = (2, snd (alloc_client 1 10 demo_hub))" by (simp add: alloc_client_def)
  from connect_presence [OF demo_hub_ok this j] show ?thesis by (simp add: j)
qed

section \<open>Disconnecting\<close>

definition emergency_over :: "uuid \<Rightarrow> frame" where
  "emergency_over u = pack MsgEmergency (PEmergency u False)"

definition absent_frame :: "uuid \<Rightarrow> frame" where
  "absent_frame u = pack MsgMemberAbsent (PMemberAbsent u)"

lemma leave_current:
  assumes h: "hub_ok h" and c: "socket_of r u h = Some c" and l: "leave r c h = (res, h')"
  shows "res = (True, u \<in> set (EmergencyUserIDs r h))"
    "socket_of r' u' h' = (if r' = r \<and> u' = u then None else socket_of r' u' h)"
    "u \<notin> set (EmergencyUserIDs r h')"
    "h_rooms h' r = Some rs' \<Longrightarrow> map_of (rs_locations rs') u = None"
    "h_rooms h' r = None \<longleftrightarrow> (\<forall>v. socket_of r v h' = None)"
    "h_heap h' = h_heap h" "hub_ok h'"
proof -
  obtain rs where rs: "h_rooms h r = Some rs" "map_of (rs_clients rs) u = Some c"
    using c by (auto simp: socket_of_def split: option.splits)
  have u: "cl_user (h_heap h c) = u" by (rule socket_of_owner(2)[OF h c])
  define rs2 where "rs2 = rs\<lparr>rs_clients := AList.delete u (rs_clients rs),
    rs_locations := AList.delete u (rs_locations rs), rs_emergencies := removeAll u (rs_emergencies rs)\<rparr>"
  have res: "res = (True, u \<in> set (rs_emergencies rs))" and heap: "h_heap h' = h_heap h"
    and rooms: "h_rooms h' = (h_rooms h)(r := if rs_clients rs2 = [] then None else Some rs2)"
    using l rs u by (auto simp: leave_def Let_def rs2_def split: if_splits)
  have d: "map_of (rs_clients rs2) = (map_of (rs_clients rs))(u := None)" by (simp add: rs2_def delete_conv')
  show "res = (True, u \<in> set (EmergencyUserIDs r h))" using res rs by (simp add: EmergencyUserIDs_def)
  show "h_heap h' = h_heap h" by (rule heap)
  show "socket_of r' u' h' = (if r' = r \<and> u' = u then None else socket_of r' u' h)"
    using rooms rs fun_cong [OF d, of u'] by (auto simp: socket_of_def split: if_splits)
  show "u \<notin> set (EmergencyUserIDs r h')" using rooms by (simp add: EmergencyUserIDs_def rs2_def)
  show "h_rooms h' r = Some rs' \<Longrightarrow> map_of (rs_locations rs') u = None"
    using rooms by (auto simp: rs2_def delete_conv' split: if_splits)
  have "rs_clients rs2 = [] \<longleftrightarrow> (\<forall>v. map_of (rs_clients rs2) v = None)"
    by (cases "rs_clients rs2") (auto simp: fun_eq_iff)
  then show "h_rooms h' r = None \<longleftrightarrow> (\<forall>v. socket_of r v h' = None)"
    using rooms by (simp add: socket_of_def)
  show "hub_ok h'" using hub_ok_leave [OF h, of r c] l by simp
qed

lemma IsPresent_broadcast [simp]: "IsPresent r u (broadcast r' t p ex h) = IsPresent r u h"
  by (rule IsPresent_rooms) simp

lemma socket_of_broadcast [simp]: "socket_of r u (broadcast r' t p ex h) = socket_of r u h"
  by (rule socket_of_rooms) simp

lemma EmergencyUserIDs_broadcast [simp]: "EmergencyUserIDs r (broadcast r' t p ex h) = EmergencyUserIDs r h"
  by (simp add: EmergencyUserIDs_def)

lemma socket_of_on_client [simp]: "socket_of r u (on_client c f h) = socket_of r u h"
  by (rule socket_of_rooms) simp

lemma EmergencyUserIDs_on_client [simp]: "EmergencyUserIDs r (on_client c f h) = EmergencyUserIDs r h"
  by (simp add: EmergencyUserIDs_def)

text \<open>
  When the current socket of a user disconnects, the user is absent, has no
  emergency and no location left, and the room is dropped exactly when nobody is
  connected to it.  Every other socket of the room is told, first that the
  emergency is over (when there was one), then that the user is absent.
\<close>
theorem disconnect_current:
  fixes h c
  defines "h' \<equiv> ServeHTTP_close c h"
  assumes "hub_ok h" "socket_of r u h = Some c"
  shows "\<not> IsPresent r u h' \<and> u \<notin> set (EmergencyUserIDs r h') \<and>
    (\<forall>r' v. (r', v) \<noteq> (r, u) \<longrightarrow> socket_of r' v h' = socket_of r' v h) \<and>
    (case h_rooms h' r of None \<Rightarrow> (\<forall>v. \<not> IsPresent r v h')
     | Some rs \<Rightarrow> (\<exists>v. IsPresent r v h') \<and> map_of (rs_locations rs) u = None) \<and>
    (\<forall>v d. v \<noteq> u \<longrightarrow> socket_of r v h = Some d \<longrightarrow>
       h_heap h' d = enqueue (absent_frame u)
         (if u \<in> set (EmergencyUserIDs r h) then enqueue (emergency_over u) (h_heap h d) else h_heap h d))"
proof -
  note own = socket_of_owner [OF assms(2,3)]
  let ?h1 = "on_client c (close ''read loop ended'') h"
  obtain res h2 where l: "leave r c ?h1 = (res, h2)" by (meson surj_pair)
  have ok1: "hub_ok ?h1" and c1: "socket_of r u ?h1 = Some c" using assms by (simp_all add: hub_ok_on_client)
  note lc = leave_current [OF ok1 c1 l]
  define h3 where "h3 = (if u \<in> set (EmergencyUserIDs r h) then BroadcastEmergency r u False h2 else h2)"
  have h': "h' = BroadcastMemberAbsent r u h3"
    using l lc(1) own by (simp add: h'_def ServeHTTP_close_def h3_def)
  have rooms: "h_rooms h' = h_rooms h2" by (simp add: h' h3_def hub_broadcasts)
  have ok3: "hub_ok h3" using lc(7) by (simp add: h3_def hub_broadcasts hub_ok_broadcast)
  have sock: "socket_of r' v h' = socket_of r' v h2" for r' v using rooms by (simp add: socket_of_def)
  have told: "h_heap h' d = enqueue (absent_frame u)
        (if u \<in> set (EmergencyUserIDs r h) then enqueue (emergency_over u) (h_heap h d) else h_heap h d)"
    if v: "v \<noteq> u" "socket_of r v h = Some d" for v d
  proof -
    have d: "socket_of r v h2 = Some d" "socket_of r v h3 = Some d" "d \<noteq> c"
      using v lc(2)[of r v] socket_of_inj [OF assms(2,3), of r v] by (auto simp: h3_def hub_broadcasts)
    have "h_heap h3 d = (if u \<in> set (EmergencyUserIDs r h) then enqueue (emergency_over u) (h_heap h d) else h_heap h d)"
      using d reached_socket [OF lc(7) d(1), of None]
      by (simp add: h3_def hub_broadcasts broadcast_reached [OF lc(7)] lc(6) emergency_over_def)
    then show ?thesis
      using v reached_socket [OF ok3 d(2), of "Some u"]
      by (simp add: h' hub_broadcasts broadcast_reached [OF ok3] absent_frame_def)
  qed
  have "EmergencyUserIDs r h' = EmergencyUserIDs r h2" using rooms by (simp add: EmergencyUserIDs_def)
  with lc told show ?thesis
    by (auto simp: IsPresent_socket sock rooms split: option.splits)
qed

theorem disconnect_current_witness:
  "hub_ok demo_hub \<and> \<not> IsPresent 10 1 (ServeHTTP_close 0 demo_hub) \<and>
   cl_send (h_heap (ServeHTTP_close 0 demo_hub) 1) = [emergency_over 1, absent_frame 1]"
proof -
  have s: "socket_of 10 1 demo_hub = Some 0" "socket_of 10 2 demo_hub = Some 1" "1 \<in> set (EmergencyUserIDs 10 demo_hub)"
    by (simp_all add: EmergencyUserIDs_def) (simp add: demo_hub_def)
  note d = disconnect_current [OF demo_hub_ok s(1)]
  from d have "\<not> IsPresent 10 1 (ServeHTTP_close 0 demo_hub)" by blast
  moreover from d have "\<forall>v d. v \<noteq> 1 \<longrightarrow> socket_of 10 v demo_hub = Some d \<longrightarrow> h_heap (ServeHTTP_close 0 demo_hub) d =
      enqueue (absent_frame 1) (enqueue (emergency_over 1) (h_heap demo_hub d))"
    using s(3) by (simp del: demo_hub_simps)
  from this [rule_format, of 2 1] have "h_heap (ServeHTTP_close 0 demo_hub) 1 =
      enqueue (absent_frame 1) (enqueue (emergency_over 1) (h_heap demo_hub 1))" by simp
  ultimately show ?thesis by (simp add: enqueue_def sendBuffer_def newClient_def)
qed

text \<open>
  When a socket that was already replaced disconnects, nothing happens to anybody:
  all sockets stay registered, no frame is sent, and only that client is closed.
\<close>
theorem disconnect_replaced:
  assumes "socket_of (cl_room (h_heap h c)) (cl_user (h_heap h c)) h \<noteq> Some c"
  shows "socket_of r u (ServeHTTP_close c h) = socket_of r u h \<and>
    h_heap (ServeHTTP_close c h) = (h_heap h)(c := close ''read loop ended'' (h_heap h c))"
proof -
  let ?r = "cl_room (h_heap h c)"
  let ?h1 = "on_client c (close ''read loop ended'') h"
  have "leave ?r c ?h1 = ((False, False), case h_rooms h ?r of None \<Rightarrow> ?h1
      | Some rs \<Rightarrow> if rs_clients rs = [] then ?h1\<lparr>h_rooms := (h_rooms h)(?r := None)\<rparr> else put_room ?r rs ?h1)"
    using assms by (auto simp: leave_def Let_def socket_of_def split: option.splits)
  then show ?thesis
    by (auto simp: ServeHTTP_close_def Let_def socket_of_def split: option.splits)
qed

theorem disconnect_replaced_witness:
  "socket_of 10 1 (ServeHTTP_close 0 (snd (join 10 2 (snd (alloc_client 1 10 demo_hub))))) = Some 2"
proof -
  let ?h = "snd (join 10 2 (snd (alloc_client 1 10 demo_hub)))"
  have "socket_of 10 1 ?h = Some 2" "cl_user (h_heap ?h 0) = 1" "cl_room (h_heap ?h 0) = 10"
    by (simp_all add: join_def roomFor_def alloc_client_def Let_def newClient_def socket_of_def)
      (simp_all add: demo_hub_def newClient_def)
  then show ?thesis using disconnect_replaced [of ?h 0 10 1] by simp
qed

end
