(* ===== verification/Sockets.thy ===== *)
theory Sockets
  imports Presence
begin

text \<open>
  The room service on the hub and the WebSocket endpoint: moderation closes
  sockets, requests never change presence, the reported presence is the real
  one, a socket opens only for a member of an active room, and the frames of a
  client concern nobody else.
\<close>

section \<open>The service on the hub\<close>

text \<open>
  C30: Moderation reaches the sockets: once \<open>Kick\<close>, \<open>Leave\<close> or \<open>End\<close>
  has succeeded, the socket of the kicked or departed user in that room, or every
  socket of the ended room, is closed.
\<close>
theorem moderation_closes_sockets:
  assumes "hub_ok (w_rt w)"
  shows "(case Service_Kick hub_service r u t w of (Inl e, w') \<Rightarrow> True | (Inr x, w') \<Rightarrow> \<not> open_socket r t (w_rt w')) \<and>
    (case Service_Leave hub_service r u w of (Inl e, w') \<Rightarrow> True | (Inr x, w') \<Rightarrow> \<not> open_socket r u (w_rt w')) \<and>
    (case Service_End hub_service r u w of (Inl e, w') \<Rightarrow> True | (Inr x, w') \<Rightarrow> \<not> open_socket r v (w_rt w'))"
proof (intro conjI)
  show "case Service_Kick hub_service r u t w of (Inl e, w') \<Rightarrow> True | (Inr x, w') \<Rightarrow> \<not> open_socket r t (w_rt w')"
    using hub_bc.kick_closed [OF hub_service_rt, of r u t] assms
    by (auto dest: triple_InrD split: prod.splits sum.splits)
  show "case Service_Leave hub_service r u w of (Inl e, w') \<Rightarrow> True | (Inr x, w') \<Rightarrow> \<not> open_socket r u (w_rt w')"
    using hub_bc.leave_closed [OF hub_service_rt, of r u] assms
    by (auto dest: triple_InrD split: prod.splits sum.splits)
  show "case Service_End hub_service r u w of (Inl e, w') \<Rightarrow> True | (Inr x, w') \<Rightarrow> \<not> open_socket r v (w_rt w')"
    using hub_bc.end_closed [OF hub_service_rt, of r u v] assms
    by (auto dest: triple_InrD split: prod.splits sum.splits)
qed

theorem moderation_closes_sockets_witness:
  "hub_ok (w_rt (demo_world demo_hub)) \<and> open_socket 10 2 demo_hub \<and>
   (case Service_Kick hub_service 10 1 2 (demo_world demo_hub) of (Inl e, w') \<Rightarrow> False
    | (Inr x, w') \<Rightarrow> \<not> open_socket 10 2 (w_rt w'))"
proof -
  have "fst (Service_Kick hub_service 10 1 2 (demo_world demo_hub)) = Inr ()" by code_simp
  then obtain w' where k: "Service_Kick hub_service 10 1 2 (demo_world demo_hub) = (Inr (), w')" by (metis prod.collapse)
  have "case Service_Kick hub_service 10 1 2 (demo_world demo_hub) of (Inl e, w') \<Rightarrow> True
      | (Inr x, w') \<Rightarrow> \<not> open_socket 10 2 (w_rt w')"
    using moderation_closes_sockets [where w = "demo_world demo_hub" and r = 10 and u = 1 and t = 2] by simp
  with k show ?thesis by (simp add: open_socket_def newClient_def)
qed

text \<open>
  Requests never change presence: whatever a user asks of the room service, in
  every room exactly the same users are present afterwards, the hub stays
  consistent, and a socket that was closed is not opened again.
\<close>
theorem requests_keep_presence:
  assumes "hub_ok (w_rt w)"
  shows "hub_ok (w_rt (snd (serve tab hub_service u op w))) \<and>
    IsPresent r v (w_rt (snd (serve tab hub_service u op w))) = IsPresent r v (w_rt w) \<and>
    (open_socket r v (w_rt (snd (serve tab hub_service u op w))) \<longrightarrow> open_socket r v (w_rt w))"
  using hub_bc.serve_inv [OF hub_service_rt assms] hub_bc.serve_present [OF hub_service_rt assms]
    hub_bc.serve_stays_closed [OF hub_service_rt assms] by blast

theorem requests_keep_presence_witness:
  "hub_ok demo_hub \<and> IsPresent 10 2 (w_rt (snd (serve id hub_service 1 (OpKick 10 2) (demo_world demo_hub))))"
  using requests_keep_presence [of "demo_world demo_hub" id 1 "OpKick 10 2" 10 2] by (simp add: IsPresent_socket)

text \<open>
  C34: The presence the REST interface reports is the presence of the hub: the detail
  of a room names exactly the users with a socket in it, once each, and the list
  of a user's rooms counts the same users.
\<close>
theorem presence_reports_agree:
  assumes "hub_ok (w_rt w)"
    and "Service_Detail hub_service r u w = (Inr x, w1)"
    and "Service_ListActiveForUser hub_service v w = (Inr rooms, w2)" "a \<in> set rooms" "ActiveID a = r"
  shows "set (DetailPresentUserIDs x) = {p. IsPresent r p (w_rt w)} \<and> distinct (DetailPresentUserIDs x) \<and>
    ActiveMemberCount a = int (length (DetailPresentUserIDs x))"
proof -
  note d = hub_bc.detail_present [OF hub_service_rt assms(1,2)]
  moreover have "ActiveMemberCount a = int (card {p. IsPresent r p (w_rt w)})"
    using hub_bc.active_count [OF hub_service_rt assms(1,3)] assms(4,5) by blast
  ultimately show ?thesis by (metis distinct_card)
qed

theorem presence_reports_agree_witness:
  "\<exists>x. fst (Service_Detail hub_service 10 2 (demo_world demo_hub)) = Inr x \<and> length (DetailPresentUserIDs x) = 2 \<and>
     set (DetailPresentUserIDs x) = {p. IsPresent 10 p demo_hub}"
proof -
  have "case fst (Service_Detail hub_service 10 2 (demo_world demo_hub)) of Inl e \<Rightarrow> False | Inr x \<Rightarrow> True"
    by code_simp
  then obtain x w1 where d: "Service_Detail hub_service 10 2 (demo_world demo_hub) = (Inr x, w1)"
    by (metis (no_types, lifting) prod.collapse sum.case(1) sumE)
  have "case fst (Service_ListActiveForUser hub_service 2 (demo_world demo_hub)) of Inl e \<Rightarrow> False
      | Inr rooms \<Rightarrow> map (\<lambda>a. (ActiveID a, ActiveMemberCount a)) rooms = [(10, 2)]"
    by code_simp
  then obtain a w2 where l: "Service_ListActiveForUser hub_service 2 (demo_world demo_hub) = (Inr [a], w2)"
    "ActiveID a = 10" "ActiveMemberCount a = 2"
    by (cases "Service_ListActiveForUser hub_service 2 (demo_world demo_hub)") (auto split: sum.splits)
  from presence_reports_agree [OF _ d l(1) _ l(2)] d l(3) show ?thesis by simp
qed

section \<open>Opening a socket\<close>

lemma GetByID_InrD:
  assumes "Store_GetByID roomID w = (Inr r, w')"
  shows "\<exists>row. row \<in> set (t_rooms (w_db w)) \<and> r_id row = roomID \<and> r = scan_room row \<and> same_state w w'"
  using assms unfolding Store_GetByID_def by (auto dest!: map_err_InrD find_SomeD elim!: stmt_row_cases)

lemma GetByID_InlD: "Store_GetByID roomID w = (Inl e, w') \<Longrightarrow> same_state w w'"
  unfolding Store_GetByID_def by (auto dest!: map_err_InlD elim!: stmt_row_cases)

lemma LoadUser_InrD:
  assumes "LoadUser u (w :: 'h rworld) = (Inr x, w')"
  shows "map_option scan_user (live_user (w_db w) u) = Some x \<and> same_state w w'"
  using assms unfolding LoadUser_def by (auto dest!: map_err_InrD elim!: stmt_row_cases)

lemma LoadUser_InlD: "LoadUser u (w :: 'h rworld) = (Inl e, w') \<Longrightarrow> same_state w w'"
  unfolding LoadUser_def by (auto dest!: map_err_InlD elim!: stmt_row_cases)

lemma ws_admit_InrD:
  assumes "ws_admit L s now room token w = (Inr (roomID, user), w')"
  shows "uuid_Parse L room = Inr roomID \<and> Verify L s now token = Inr (UserID user) \<and>
    is_member (w_db w) roomID (UserID user) \<and> live_user (w_db w) (UserID user) \<noteq> None \<and>
    (\<exists>row. row \<in> set (t_rooms (w_db w)) \<and> r_id row = roomID \<and> room_active row) \<and> same_state w w'"
proof -
  obtain userID r w1 role w2 where 1: "uuid_Parse L room = Inr roomID" "Verify L s now token = Inr userID"
    "Store_GetByID roomID w = (Inr r, w1)" "RoomEndedAt r = None"
    "Store_ActiveMembership roomID userID w1 = (Inr role, w2)" "LoadUser userID w2 = (Inr user, w')"
    using assms unfolding ws_admit_def by (auto split: sum.splits prod.splits if_splits)
  obtain a b where role: "role = (a, b)" by force
  from GetByID_InrD [OF 1(3)] obtain row where row: "row \<in> set (t_rooms (w_db w))" "r_id row = roomID"
    "r = scan_room row" "same_state w w1" by blast
  from 1(5) obtain m where m: "m \<in> set (t_room_members (w_db w1))" "active_member roomID userID m" "same_state w1 w2"
    unfolding role by (auto elim!: ActiveMembership_InrD dest!: find_SomeD)
  from LoadUser_InrD [OF 1(6)] obtain u where u: "live_user (w_db w2) userID = Some u" "user = scan_user u" "same_state w2 w'"
    by auto
  have "u_id u = userID" using u(1) by (auto simp: live_user_def dest: find_SomeD)
  then have "UserID user = userID" by (simp add: u scan_user_def)
  moreover have "room_active row" using 1(4) row(3) by (simp add: scan_room_def room_active_def)
  ultimately show ?thesis using 1(1,2) row m u by (auto simp: is_member_def)
qed

lemma ws_admit_InlD:
  assumes "ws_admit L s now room token w = (Inl answer, w')"
  shows "same_state w w' \<and> (\<exists>st msg. answer = WsError st msg)"
  using assms unfolding ws_admit_def
  by (auto split: sum.splits prod.splits if_splits dest!: GetByID_InlD GetByID_InrD ActiveMembership_InlD LoadUser_InlD
      elim!: ActiveMembership_InrD)

lemma roomFor_socket_of [simp]: "socket_of r u (snd (roomFor r' h)) = socket_of r u h"
  by (auto simp: roomFor_def socket_of_def newRoomState_def split: option.splits)

lemma snapshot_keeps:
  "w_db (snd (Hub_snapshot roomID selfID w)) = w_db w"
  "socket_of r u (w_rt (snd (Hub_snapshot roomID selfID w))) = socket_of r u (w_rt w)"
proof -
  have "keeps (\<lambda>v. w_db v = w_db w) (Hub_snapshot roomID selfID)"
    unfolding Hub_snapshot_def by (intro keeps_intros keeps_reads [of "\<lambda>d. d = w_db w"] keeps_effect) simp
  then show "w_db (snd (Hub_snapshot roomID selfID w)) = w_db w" by (rule keepsD) simp
  have "keeps (\<lambda>v. socket_of r u (w_rt v) = socket_of r u (w_rt w)) (Hub_snapshot roomID selfID)"
    unfolding Hub_snapshot_def store_methods
    by (intro keeps_andThen keeps_map_err keeps_onErr keeps_asks keeps_effect
        keeps_stmt_rt [of "\<lambda>h. socket_of r u h = socket_of r u (w_rt w)"] keeps_ok keeps_case_option keeps_result) simp_all
  then show "socket_of r u (w_rt (snd (Hub_snapshot roomID selfID w))) = socket_of r u (w_rt w)" by (rule keepsD) simp
qed

lemma ws_start_run:
  assumes "ws_start roomID userID w = (c, w')"
  shows "w_db w' = w_db w" "socket_of roomID userID (w_rt w') = Some c"
proof -
  obtain h1 where al: "alloc_client userID roomID (w_rt w) = (c, h1)" "cl_user (h_heap h1 c) = userID"
    using assms by (auto simp: ws_start_def Let_def alloc_client_def newClient_def split: prod.splits)
  obtain b h2 where j: "join roomID c h1 = (b, h2)" by force
  obtain snap w1 where sn: "Hub_snapshot roomID userID (w\<lparr>w_rt := h2\<rparr>) = (snap, w1)" by force
  note sk = snapshot_keeps [where roomID = roomID and selfID = userID and w = "w\<lparr>w_rt := h2\<rparr>", unfolded sn]
  define h3 where "h3 = (case snap of Inl _ \<Rightarrow> w_rt w1 | Inr sp \<Rightarrow> sendTo c MsgSnapshot (PSnapshot sp) (w_rt w1))"
  have w': "w' = w1\<lparr>w_rt := if b then BroadcastMemberPresent roomID userID h3 else h3\<rparr>"
    using assms al(1) j sn by (auto simp: ws_start_def h3_def Let_def)
  have "socket_of roomID userID h3 = socket_of roomID userID h2"
    using sk(2) by (simp add: h3_def sendTo_def split: sum.splits)
  with sk join_run(2)[OF j, of roomID userID] show "w_db w' = w_db w" "socket_of roomID userID (w_rt w') = Some c"
    by (simp_all add: w' al(2) hub_broadcasts)
qed

text \<open>
  C29: The WebSocket endpoint opens a socket only for the holder of a valid token who is
  an active member of an existing room that has not ended and whose account is not
  deleted; the new socket is then that user's socket in that room.  Every refused
  request leaves the hub as it was, and no request changes the tables.
\<close>
theorem ws_admission:
  "case ServeHTTP_open L s now room token accepted w of (answer, w') \<Rightarrow>
     w_db w' = w_db w \<and>
     (case answer of
        WsOpen c \<Rightarrow> (\<exists>roomID userID. uuid_Parse L room = Inr roomID \<and> Verify L s now token = Inr userID \<and>
          is_member (w_db w) roomID userID \<and> live_user (w_db w) userID \<noteq> None \<and>
          (\<exists>row. row \<in> set (t_rooms (w_db w)) \<and> r_id row = roomID \<and> room_active row) \<and>
          socket_of roomID userID (w_rt w') = Some c)
      | _ \<Rightarrow> w_rt w' = w_rt w)"
proof -
  obtain a w1 where a: "ws_admit L s now room token w = (a, w1)" by force
  show ?thesis
  proof (cases a)
    case (Inl answer)
    with ws_admit_InlD [of L s now room token w answer w1] a show ?thesis by (auto simp: ServeHTTP_open_def)
  next
    case (Inr p)
    then obtain roomID user where p: "a = Inr (roomID, user)" by (cases p) auto
    note ad = ws_admit_InrD [OF a [unfolded p]]
    obtain c w2 where st: "ws_start roomID (UserID user) w1 = (c, w2)" by force
    have "ServeHTTP_open L s now room token accepted w = (if accepted then (WsOpen c, w2) else (WsNoUpgrade, w1))"
      using a p st by (simp add: ServeHTTP_open_def)
    then show ?thesis using ad ws_start_run [OF st] by auto
  qed
qed

section \<open>Frames of a client\<close>

definition location_of :: "uuid \<Rightarrow> uuid \<Rightarrow> hub \<Rightarrow> LocationEvent option" where
  "location_of roomID userID h =
     (case h_rooms h roomID of None \<Rightarrow> None | Some rs \<Rightarrow> map_of (rs_locations rs) userID)"

lemma location_of_broadcast [simp]:
  "location_of r u (broadcast r' t p ex h) = location_of r u h" "location_of r u (sendTo c t p h) = location_of r u h"
  by (simp_all add: location_of_def sendTo_def)

lemma sendTo_frame [simp]:
  "socket_of r u (sendTo c t p h) = socket_of r u h" "EmergencyUserIDs r (sendTo c t p h) = EmergencyUserIDs r h"
  by (simp_all add: sendTo_def)

lemma recordLocation_frame:
  "socket_of r u (recordLocation r' ev h) = socket_of r u h"
  "set (EmergencyUserIDs r (recordLocation r' ev h)) = set (EmergencyUserIDs r h)"
  "location_of r u (recordLocation r' ev h) = (if r = r' \<and> u = LevUserID ev then Some ev else location_of r u h)"
  by (auto simp: recordLocation_def roomFor_def socket_of_def EmergencyUserIDs_def location_of_def newRoomState_def
      update_conv' split: option.splits)

lemma SetEmergency_frame:
  assumes "SetEmergency r' u' active h = (changed, h')"
  shows "socket_of r u h' = socket_of r u h" "location_of r u h' = location_of r u h"
    "u \<in> set (EmergencyUserIDs r h') \<longleftrightarrow> (if r = r' \<and> u = u' then active else u \<in> set (EmergencyUserIDs r h))"
    "changed \<longleftrightarrow> active \<noteq> (u' \<in> set (EmergencyUserIDs r' h))"
  using assms
  by (auto simp: SetEmergency_def Let_def roomFor_def socket_of_def EmergencyUserIDs_def location_of_def newRoomState_def
      split: option.splits if_splits)

text \<open>
  A client speaks only for itself.  Whatever frame a socket sends, all sockets stay
  registered as they were, and the position and the emergency flag of every other
  user, and of its own user in every other room, are unchanged.
\<close>
theorem frames_concern_sender:
  fixes h c ts f
  defines "h' \<equiv> readPump_frame ts c f h"
  assumes "(r, u) \<noteq> (cl_room (h_heap h c), cl_user (h_heap h c))"
  shows "socket_of r' u' h' = socket_of r' u' h \<and> location_of r u h' = location_of r u h \<and>
    (u \<in> set (EmergencyUserIDs r h') \<longleftrightarrow> u \<in> set (EmergencyUserIDs r h))"
proof (cases f)
  case (InFrame t loc act)
  let ?r = "cl_room (h_heap h c)" and ?u = "cl_user (h_heap h c)"
  have em: "socket_of r' u' h2 = socket_of r' u' h \<and> location_of r u h2 = location_of r u h \<and>
      (u \<in> set (EmergencyUserIDs r h2) \<longleftrightarrow> u \<in> set (EmergencyUserIDs r h))"
    if "h2 = (case SetEmergency ?r ?u active h of (changed, h1) \<Rightarrow> if changed then BroadcastEmergency ?r ?u active h1 else h1)"
    for h2 active
  proof -
    obtain changed h1 where e: "SetEmergency ?r ?u active h = (changed, h1)" by force
    have h2: "h2 = (if changed then BroadcastEmergency ?r ?u active h1 else h1)" using that e by simp
    show ?thesis using assms(2) SetEmergency_frame(1-3)[OF e]
      by (cases changed) (auto simp: h2 hub_broadcasts)
  qed
  from assms(2) show ?thesis
    by (auto simp: h'_def InFrame Let_def hub_broadcasts(11) recordLocation_frame location_event_def em split: option.splits)
qed (simp add: h'_def)

theorem frames_concern_sender_witness:
  "socket_of 10 2 (readPump_frame 5 0 (InFrame ClientMsgEmergency None (Some False)) demo_hub) = Some 1 \<and>
   2 \<notin> set (EmergencyUserIDs 10 (readPump_frame 5 0 (InFrame ClientMsgEmergency None (Some False)) demo_hub))"
  using frames_concern_sender [where r = 10 and u = 2 and r' = 10 and u' = 2 and c = 0 and h = demo_hub and ts = 5
      and f = "InFrame ClientMsgEmergency None (Some False)"]
  by (simp add: newClient_def) (simp add: EmergencyUserIDs_def demo_hub_def)

text \<open>
  The messages file says that an emergency does not outlive the user's presence.  A replaced socket whose read
  loop is still running can set one after the user's current socket has gone, and
  then nothing clears it while somebody else is in the room.
\<close>

definition stale_emergency :: hub where
  "stale_emergency =
     (let h1 = snd (join 10 0 (snd (alloc_client 1 10 NewHub)));
          h2 = snd (join 10 1 (snd (alloc_client 2 10 h1)));
          h3 = snd (join 10 2 (snd (alloc_client 1 10 h2)));
          h4 = ServeHTTP_close 2 h3;
          h5 = readPump_frame 0 0 (InFrame ClientMsgEmergency None (Some True)) h4
      in ServeHTTP_close 0 h5)"

lemma emergency_outlives_presence:
  "\<not> IsPresent 10 1 stale_emergency \<and> EmergencyUserIDs 10 stale_emergency = [1]"
  by code_simp

end
