(* ===== verification/Pumps.thy ===== *)
theory Pumps
  imports Presence
begin

text \<open>
  The write pump over time: frames leave in the order they were queued, a closed
  client is drained before its connection is shut down, and the terminal frames
  of a kick or of the end of a room are written last.
\<close>

section \<open>Runs of the write pump\<close>

fun pump_run :: "pump_event list \<Rightarrow> client \<Rightarrow> client option" where
  "pump_run [] c = Some c"
| "pump_run (e # es) c = (case writePump_step e c of None \<Rightarrow> None | Some c' \<Rightarrow> pump_run es c')"

text \<open>The connection works and the request's context is not cancelled.\<close>

fun healthy :: "pump_event \<Rightarrow> bool" where
  "healthy CtxDone = False"
| "healthy ClosedReady = True"
| "healthy (SendReady sent) = sent"
| "healthy (PingTick alive) = alive"
| "healthy (DrainNext sent) = sent"
| "healthy DrainEmpty = True"

definition is_ping :: "pump_event \<Rightarrow> bool" where
  "is_ping e = (case e of PingTick _ \<Rightarrow> True | _ \<Rightarrow> False)"

definition pump_work :: "client \<Rightarrow> nat" where
  "pump_work c = (case cl_pump c of Running \<Rightarrow> length (cl_send c) + 2 | Draining \<Rightarrow> length (cl_send c) + 1 | Stopped \<Rightarrow> 0)"

definition close_status :: "client \<Rightarrow> string" where
  "close_status c = (if cl_reason c = [] then ''closed'' else cl_reason c)"

text \<open>What a healthy run keeps of a closed client \<open>c\<close>.\<close>

definition draining_from :: "client \<Rightarrow> client \<Rightarrow> bool" where
  "draining_from c c' \<longleftrightarrow> cl_written c' @ cl_send c' = cl_written c @ cl_send c \<and> cl_closed c' \<and>
     cl_reason c' = cl_reason c \<and> (cl_pump c' = Stopped \<longrightarrow> cl_send c' = [] \<and> cl_shutdown c' = Some (close_status c))"

lemma healthy_step:
  assumes "healthy e" "writePump_step e c' = Some c''" "draining_from c c'"
  shows "draining_from c c'' \<and> pump_work c'' + (if is_ping e then 0 else 1) = pump_work c'"
  using assms
  by (cases e) (auto simp: draining_from_def client_write_def shutdown_def pump_work_def close_status_def is_ping_def
      split: if_splits list.splits)

lemma healthy_run:
  assumes "\<forall>e \<in> set es. healthy e" "pump_run es c' = Some c''" "draining_from c c'"
  shows "draining_from c c'' \<and> pump_work c'' + length (filter (\<lambda>e. \<not> is_ping e) es) = pump_work c'"
  using assms
proof (induction es arbitrary: c')
  case (Cons e es)
  then obtain x where x: "writePump_step e c' = Some x" "pump_run es x = Some c''" by (auto split: option.splits)
  have s: "draining_from c x \<and> pump_work x + (if is_ping e then 0 else 1) = pump_work c'"
    by (rule healthy_step) (use Cons.prems x in simp_all)
  moreover have "draining_from c c'' \<and> pump_work c'' + length (filter (\<lambda>e. \<not> is_ping e) es) = pump_work x"
    by (rule Cons.IH) (use Cons.prems x s in simp_all)
  ultimately show ?case by auto
qed simp

lemma draining_enabled:
  assumes "draining_from c c'" "cl_pump c' \<noteq> Stopped"
  shows "\<exists>e. healthy e \<and> \<not> is_ping e \<and> writePump_step e c' \<noteq> None"
proof (cases "cl_pump c'")
  case Running
  with assms show ?thesis by (intro exI [of _ ClosedReady]) (simp add: draining_from_def is_ping_def)
next
  case Draining
  then show ?thesis
    by (cases "cl_send c'", intro exI [of _ DrainEmpty], simp add: is_ping_def)
      (intro exI [of _ "DrainNext True"], simp add: client_write_def is_ping_def)
qed (use assms in simp)



section \<open>Terminal frames\<close>

lemma terminal_frame:
  assumes "cl_pump x \<noteq> Stopped" "\<not> cl_closed x" "length (cl_send x) < 32" "reason \<noteq> []"
    and "\<forall>e \<in> set es. healthy e" "pump_run es (close reason (enqueue b x)) = Some x'" "cl_pump x' = Stopped"
  shows "cl_written x' = cl_written x @ cl_send x @ [b] \<and> cl_shutdown x' = Some reason"
proof -
  let ?c = "close reason (enqueue b x)"
  have c: "cl_closed ?c" "cl_send ?c = cl_send x @ [b]" "cl_written ?c = cl_written x" "close_status ?c = reason"
    using assms(1-4) by (simp_all add: enqueue_def sendBuffer_def close_status_def close_reason)
  then have "draining_from ?c ?c" using assms by (simp add: draining_from_def)
  from healthy_run [OF assms(5,6) this] c assms(7) show ?thesis by (auto simp: draining_from_def)
qed



text \<open>
  Ending a room reaches everybody in it: every open socket of the room whose queue
  has room writes what was queued, then the \<open>room_ended\<close> frame, and is closed
  with the reason \<open>room ended\<close>; sockets of other rooms are not touched.
\<close>
theorem room_ended_frame_written:
  assumes "hub_ok h" "socket_of r u h = Some c" "\<not> cl_closed (h_heap h c)" "cl_pump (h_heap h c) \<noteq> Stopped"
    and "length (cl_send (h_heap h c)) < 32"
    and "\<forall>e \<in> set es. healthy e" "pump_run es (h_heap (BroadcastRoomEnded r h) c) = Some c'" "cl_pump c' = Stopped"
  shows "cl_written c' = cl_written (h_heap h c) @ cl_send (h_heap h c) @ [pack MsgRoomEnded NoPayload] \<and>
    cl_shutdown c' = Some ''room ended'' \<and>
    (\<forall>r' v d. r' \<noteq> r \<longrightarrow> socket_of r' v h = Some d \<longrightarrow> h_heap (BroadcastRoomEnded r h) d = h_heap h d)"
proof -
  have "h_heap (BroadcastRoomEnded r h) c = close ''room ended'' (enqueue (pack MsgRoomEnded NoPayload) (h_heap h c))"
    using assms(2) by (simp add: RoomEnded_heap [OF assms(1)] reached_socket [OF assms(1,2)])
  from terminal_frame [OF assms(4,3,5) _ assms(6) assms(7) [unfolded this] assms(8)]
  have "cl_written c' = cl_written (h_heap h c) @ cl_send (h_heap h c) @ [pack MsgRoomEnded NoPayload] \<and>
    cl_shutdown c' = Some ''room ended''" by simp
  moreover have "h_heap (BroadcastRoomEnded r h) d = h_heap h d" if "r' \<noteq> r" "socket_of r' v h = Some d" for r' v d
  proof -
    have "\<not> reached r None h d"
      using that socket_of_inj [OF assms(1) that(2), of r "cl_user (h_heap h d)"] by (auto simp: reached_def)
    then show ?thesis by (simp add: RoomEnded_heap [OF assms(1)])
  qed
  ultimately show ?thesis by blast
qed

theorem room_ended_frame_written_witness:
  "\<exists>c'. pump_run [ClosedReady, DrainNext True, DrainEmpty] (h_heap (BroadcastRoomEnded 10 demo_hub) 0) = Some c' \<and>
     cl_written c' = [pack MsgRoomEnded NoPayload] \<and> cl_shutdown c' = Some ''room ended''"
proof -
  let ?es = "[ClosedReady, DrainNext True, DrainEmpty]"
  have s: "socket_of 10 1 demo_hub = Some 0" "\<not> cl_closed (h_heap demo_hub 0)" "cl_pump (h_heap demo_hub 0) \<noteq> Stopped"
    "length (cl_send (h_heap demo_hub 0)) < 32" "\<forall>e \<in> set ?es. healthy e"
    by (simp_all add: newClient_def)
  have "h_heap (BroadcastRoomEnded 10 demo_hub) 0 = close ''room ended'' (enqueue (pack MsgRoomEnded NoPayload) (h_heap demo_hub 0))"
    by (simp add: RoomEnded_heap reached_socket [of _ 10 1])
  then obtain c' where r: "pump_run ?es (h_heap (BroadcastRoomEnded 10 demo_hub) 0) = Some c'" "cl_pump c' = Stopped"
    by (simp add: newClient_def client_write_def shutdown_def close_def enqueue_def sendBuffer_def)
  from room_ended_frame_written [OF demo_hub_ok s r] r show ?thesis by (simp add: newClient_def)
qed

end
