(* ===== verification/AdminSession.thy ===== *)
theory AdminSession
  imports Auth GoStd
begin

text \<open>
  \<open>internal/admin/admin.go\<close>: the configuration of the admin pages, the signed
  session cookie, and login, logout and the gate in front of every page.  The
  keyed hash of \<open>crypto/hmac\<close> over \<open>crypto/sha256\<close> is the parameter
  \<open>mac key payload\<close>; everything around it (the text of the cookie, its
  encoding, its parsing, the clock) is spelled out.
\<close>

section \<open>Configuration\<close>

record AdminConfig =
  ad_Password :: string
  ad_CookieSecret :: string
  ad_PoolSet :: bool
  ad_AppCfgSet :: bool

text \<open>\<open>pages\<close> is the outcome of parsing the embedded templates.\<close>

definition Admin_New :: "(string + unit) \<Rightarrow> AdminConfig \<Rightarrow> go_error + AdminConfig" where
  "Admin_New pages cfg =
     (if TrimSpace (ad_Password cfg) = [] then Inl (OtherError ''ADMIN_PASSWORD not set'')
      else if length (ad_CookieSecret cfg) < 16 then Inl (OtherError ''ADMIN_COOKIE_SECRET must be at least 16 bytes'')
      else if \<not> ad_PoolSet cfg then Inl (OtherError ''admin: pool is required'')
      else case pages of Inl e \<Rightarrow> Inl (OtherError e) | Inr _ \<Rightarrow> Inr cfg)"

definition cookieName :: string where
  "cookieName = ''convoy_admin''"

text \<open>Seven days, in microseconds.\<close>

definition sessionLifetime :: int where
  "sessionLifetime = 7 * 24 * 3600 * 1000000"

definition sessionVersion :: string where
  "sessionVersion = ''v1''"

definition loginRedirectURL :: string where
  "loginRedirectURL = ''/admin/''"

section \<open>The session cookie\<close>

type_synonym mac = "string \<Rightarrow> string \<Rightarrow> string"

definition signSession :: "mac \<Rightarrow> AdminConfig \<Rightarrow> int \<Rightarrow> string" where
  "signSession mac m issuedAt =
     (let payload = sessionVersion @ ''.'' @ Itoa issuedAt
      in payload @ ''.'' @ RawURLEncoding (mac (ad_CookieSecret m) payload))"

text \<open>\<open>time.Unix\<close> counts from year 1 in an \<open>int64\<close>; the result is in microseconds of the Unix clock.\<close>

definition time_Unix :: "int \<Rightarrow> timestamp" where
  "time_Unix sec = (int64 (sec + 62135596800) - 62135596800) * 1000000"

definition verifySession :: "mac \<Rightarrow> AdminConfig \<Rightarrow> timestamp \<Rightarrow> string \<Rightarrow> bool" where
  "verifySession mac m now value' =
     (case Split CHR ''.'' value' of
        [p0, p1, p2] \<Rightarrow>
          if p0 \<noteq> sessionVersion then False
          else if RawURLEncoding (mac (ad_CookieSecret m) (p0 @ ''.'' @ p1)) \<noteq> p2 then False
          else (case Sscanf_d p1 of None \<Rightarrow> False | Some issued \<Rightarrow> \<not> now - time_Unix issued > sessionLifetime)
      | _ \<Rightarrow> False)"

section \<open>Requests and answers\<close>

text \<open>What the pages read of a request: the session cookie, the transport, the proxy header and the HTMX header.\<close>

record admin_request =
  rq_Cookie :: "string option"
  rq_TLS :: bool
  rq_ForwardedProto :: string
  rq_HXRequest :: string

record cookie =
  ck_Name :: string
  ck_Value :: string
  ck_Path :: string
  ck_HttpOnly :: bool
  ck_Secure :: bool
  ck_SameSiteStrict :: bool
  ck_Expires :: "timestamp option"
  ck_MaxAge :: int

text \<open>
  An answer: a rendered page, a redirect (302), an HTMX redirect with its status, or
  a plain error (of the server: the text of a Go error), with the cookie it sets.
\<close>

datatype 'p admin_answer = Page 'p | Redirect string | HxRedirect nat string | HttpError nat string | ServerError go_error

type_synonym ('w, 'p) admin_handler = "'w \<Rightarrow> 'p admin_answer \<times> 'w"

text \<open>\<open>strings.EqualFold\<close> against ASCII text: two non-ASCII runes fold to ASCII letters.\<close>

definition fold_rune :: "nat \<Rightarrow> nat" where
  "fold_rune r = (if 0x41 \<le> r \<and> r \<le> 0x5A then r + 0x20 else if r = 0x17F then 0x73 else if r = 0x212A then 0x6B else r)"

definition EqualFold_ascii :: "string \<Rightarrow> string \<Rightarrow> bool" where
  "EqualFold_ascii s lit \<longleftrightarrow> map fold_rune (runes s) = map fold_rune (runes lit)"

definition secure_request :: "admin_request \<Rightarrow> bool" where
  "secure_request r \<longleftrightarrow> rq_TLS r \<or> EqualFold_ascii (rq_ForwardedProto r) ''https''"

definition setSession :: "mac \<Rightarrow> AdminConfig \<Rightarrow> timestamp \<Rightarrow> admin_request \<Rightarrow> cookie" where
  "setSession mac m now r = \<lparr>ck_Name = cookieName, ck_Value = signSession mac m (unix now), ck_Path = ''/admin'',
     ck_HttpOnly = True, ck_Secure = secure_request r, ck_SameSiteStrict = True,
     ck_Expires = Some (now + sessionLifetime), ck_MaxAge = 0\<rparr>"

definition clearSession :: "admin_request \<Rightarrow> cookie" where
  "clearSession r = \<lparr>ck_Name = cookieName, ck_Value = [], ck_Path = ''/admin'', ck_HttpOnly = True,
     ck_Secure = secure_request r, ck_SameSiteStrict = True, ck_Expires = None, ck_MaxAge = -1\<rparr>"

definition isHTMX :: "admin_request \<Rightarrow> bool" where
  "isHTMX r \<longleftrightarrow> rq_HXRequest r = ''true''"

definition signed_in :: "mac \<Rightarrow> AdminConfig \<Rightarrow> timestamp \<Rightarrow> admin_request \<Rightarrow> bool" where
  "signed_in mac m now r = (case rq_Cookie r of None \<Rightarrow> False | Some c \<Rightarrow> verifySession mac m now c)"

definition requireAuth ::
  "mac \<Rightarrow> AdminConfig \<Rightarrow> timestamp \<Rightarrow> admin_request \<Rightarrow> ('w, 'p) admin_handler \<Rightarrow> ('w, 'p) admin_handler" where
  "requireAuth mac m now r nxt w =
     (if \<not> signed_in mac m now r
      then (if isHTMX r then (HxRedirect 401 ''/admin/login'', w) else (Redirect ''/admin/login'', w))
      else nxt w)"

section \<open>Login\<close>

datatype login_page = LoginPage string

definition loginPage :: "mac \<Rightarrow> AdminConfig \<Rightarrow> timestamp \<Rightarrow> admin_request \<Rightarrow> string \<Rightarrow> login_page admin_answer" where
  "loginPage mac m now r err = (if signed_in mac m now r then Redirect loginRedirectURL else Page (LoginPage err))"

text \<open>\<open>form\<close> is the outcome of \<open>ParseForm\<close> and the form values.\<close>

definition loginSubmit ::
  "mac \<Rightarrow> AdminConfig \<Rightarrow> timestamp \<Rightarrow> admin_request \<Rightarrow> (string + (string \<Rightarrow> string)) \<Rightarrow> login_page admin_answer \<times> cookie option" where
  "loginSubmit mac m now r form =
     (case form of
        Inl _ \<Rightarrow> (Redirect ''/admin/login?err=bad_request'', None)
      | Inr v \<Rightarrow>
        if v ''password'' \<noteq> ad_Password m then (Redirect ''/admin/login?err=invalid'', None)
        else (Redirect loginRedirectURL, Some (setSession mac m now r)))"

definition logout :: "admin_request \<Rightarrow> login_page admin_answer \<times> cookie option" where
  "logout r = (Redirect ''/admin/login'', Some (clearSession r))"

section \<open>Properties\<close>

lemma three_parts:
  "Split CHR ''.'' v = [a, b, c] \<longleftrightarrow>
     v = a @ ''.'' @ b @ ''.'' @ c \<and> CHR ''.'' \<notin> set a \<and> CHR ''.'' \<notin> set b \<and> CHR ''.'' \<notin> set c"
proof
  assume s: "Split CHR ''.'' v = [a, b, c]"
  then have "v = Join CHR ''.'' [a, b, c]" using Join_Split [of "CHR ''.''" v] by simp
  then show "v = a @ ''.'' @ b @ ''.'' @ c \<and> CHR ''.'' \<notin> set a \<and> CHR ''.'' \<notin> set b \<and> CHR ''.'' \<notin> set c"
    using s Split_no_sep [of _ "CHR ''.''" v] by auto
next
  assume "v = a @ ''.'' @ b @ ''.'' @ c \<and> CHR ''.'' \<notin> set a \<and> CHR ''.'' \<notin> set b \<and> CHR ''.'' \<notin> set c"
  then show "Split CHR ''.'' v = [a, b, c]" by (simp add: Split_append Split_last)
qed

lemma verifySession_iff:
  "verifySession mac m now v \<longleftrightarrow>
     (\<exists>t issued. CHR ''.'' \<notin> set t \<and> v = ''v1.'' @ t @ ''.'' @ RawURLEncoding (mac (ad_CookieSecret m) (''v1.'' @ t)) \<and>
        Sscanf_d t = Some issued \<and> now - time_Unix issued \<le> sessionLifetime)"
proof
  assume "verifySession mac m now v"
  then obtain t c issued where s: "Split CHR ''.'' v = [''v1'', t, c]" "c = RawURLEncoding (mac (ad_CookieSecret m) (''v1.'' @ t))"
      "Sscanf_d t = Some issued" "now - time_Unix issued \<le> sessionLifetime"
    by (auto simp: verifySession_def sessionVersion_def split: list.splits if_splits option.splits)
  then show "\<exists>t issued. CHR ''.'' \<notin> set t \<and> v = ''v1.'' @ t @ ''.'' @ RawURLEncoding (mac (ad_CookieSecret m) (''v1.'' @ t)) \<and>
        Sscanf_d t = Some issued \<and> now - time_Unix issued \<le> sessionLifetime"
    by (auto simp: three_parts)
next
  assume "\<exists>t issued. CHR ''.'' \<notin> set t \<and> v = ''v1.'' @ t @ ''.'' @ RawURLEncoding (mac (ad_CookieSecret m) (''v1.'' @ t)) \<and>
        Sscanf_d t = Some issued \<and> now - time_Unix issued \<le> sessionLifetime"
  then obtain t issued where t: "CHR ''.'' \<notin> set t" "v = ''v1.'' @ t @ ''.'' @ RawURLEncoding (mac (ad_CookieSecret m) (''v1.'' @ t))"
        "Sscanf_d t = Some issued" "now - time_Unix issued \<le> sessionLifetime" by blast
  then have "Split CHR ''.'' v = [''v1'', t, RawURLEncoding (mac (ad_CookieSecret m) (''v1.'' @ t))]"
    by (simp add: Split_append Split_last RawURLEncoding_no_dot)
  with t(3,4) show "verifySession mac m now v" by (simp add: verifySession_def sessionVersion_def)
qed

text \<open>
  C18: The session cookie works for seven days and not longer: a cookie issued at any
  second of the \<open>int64\<close> clock the library can represent is accepted by a server
  with the same secret exactly until seven days have passed since that second.
\<close>
theorem session_roundtrip:
  assumes "- (2 ^ 62) \<le> issued" "issued < 2 ^ 62"
  shows "verifySession mac m now (signSession mac m issued) \<longleftrightarrow> now \<le> issued * 1000000 + 7 * 24 * 3600 * 1000000"
proof -
  have "Sscanf_d (Itoa issued) = Some issued" by (rule Sscanf_Itoa) (use assms in auto)
  moreover have "time_Unix issued = issued * 1000000"
    using assms by (simp add: time_Unix_def int64_id)
  moreover have "Split CHR ''.'' (signSession mac m issued) =
      [''v1'', Itoa issued, RawURLEncoding (mac (ad_CookieSecret m) (''v1.'' @ Itoa issued))]"
    by (simp add: signSession_def Let_def sessionVersion_def Split_append Split_last Itoa_no_dot RawURLEncoding_no_dot)
  ultimately show ?thesis by (auto simp: verifySession_def sessionVersion_def sessionLifetime_def)
qed

theorem session_roundtrip_witness:
  "verifySession (\<lambda>k p. p) \<lparr>ad_Password = ''pw'', ad_CookieSecret = [], ad_PoolSet = True, ad_AppCfgSet = True\<rparr> 604800000000
     (signSession (\<lambda>k p. p) \<lparr>ad_Password = ''pw'', ad_CookieSecret = [], ad_PoolSet = True, ad_AppCfgSet = True\<rparr> 0)"
  using session_roundtrip [of 0 "\<lambda>k p. p" "\<lparr>ad_Password = ''pw'', ad_CookieSecret = [], ad_PoolSet = True, ad_AppCfgSet = True\<rparr>" 604800000000]
  by simp

text \<open>
  No page runs without a session: the gate either passes the request to the page, and
  then the cookie carries this server's keyed hash over its own time stamp, not
  older than seven days, or it answers with a redirect to the login (401 for HTMX)
  and the page is not run.
\<close>
theorem admin_gate:
  "case requireAuth mac m now r nxt w of (answer, w') \<Rightarrow>
     (if signed_in mac m now r
      then (answer, w') = nxt w \<and>
        (\<exists>t issued. rq_Cookie r = Some (''v1.'' @ t @ ''.'' @ RawURLEncoding (mac (ad_CookieSecret m) (''v1.'' @ t))) \<and>
           Sscanf_d t = Some issued \<and> now - time_Unix issued \<le> sessionLifetime)
      else w' = w \<and> answer = (if rq_HXRequest r = ''true'' then HxRedirect 401 ''/admin/login'' else Redirect ''/admin/login''))"
  by (auto simp: requireAuth_def isHTMX_def signed_in_def verifySession_iff split: option.splits prod.splits)

lemma login_needs_password: "snd (loginSubmit mac m now r form) \<noteq> None \<Longrightarrow> \<exists>v. form = Inr v \<and> v ''password'' = ad_Password m"
  by (auto simp: loginSubmit_def split: sum.splits if_splits)

end
