(* ===== verification/AppConfig.thy ===== *)
theory AppConfig
  imports RoomInvariant GoStd
begin

text \<open>
  \<open>internal/config\<close>: the settings read from the environment at start-up
  (\<open>config.go\<close>) and the run-time settings of the table \<open>app_config\<close>
  with the public endpoint \<open>/config\<close> (\<open>appconfig.go\<close>).
\<close>

section \<open>The environment\<close>

text \<open>
  The environment after \<open>godotenv.Load\<close> (a package that is not part of the
  repository) as a function, with the empty string for a variable that is not
  set, as \<open>os.Getenv\<close> has it.  Durations are nanoseconds.
\<close>

type_synonym env = "string \<Rightarrow> string"

record Config =
  cfg_Port :: string
  cfg_DatabaseURL :: string
  cfg_JWTSecret :: string
  cfg_JWTTTL :: int
  cfg_AllowedOrigins :: "string list"
  cfg_WSWriteTimeout :: int
  cfg_WSReadTimeout :: int
  cfg_WSPingInterval :: int
  cfg_LiveKitURL :: string
  cfg_LiveKitAPIKey :: string
  cfg_LiveKitAPISecret :: string
  cfg_AdminPassword :: string
  cfg_AdminCookieSecret :: string
  cfg_ExpoAccessToken :: string
  cfg_GoogleClientIDs :: "string list"
  cfg_AppleClientIDs :: "string list"
  cfg_PrivacyContactEmail :: string
  cfg_PrivacyEffectiveDate :: string
  cfg_AppName :: string

definition getenv :: "env \<Rightarrow> string \<Rightarrow> string \<Rightarrow> string" where
  "getenv env k fallback = (if env k \<noteq> [] then env k else fallback)"

text \<open>A nil slice is the empty list.\<close>

definition splitCSV :: "string \<Rightarrow> string list" where
  "splitCSV s = (if s = [] then [] else filter (\<lambda>p. p \<noteq> []) (map TrimSpace (Split CHR '','' s)))"

abbreviation Second :: int where
  "Second \<equiv> 1000000000"

definition getDuration :: "(nat \<Rightarrow> nat \<Rightarrow> nat \<Rightarrow> nat) \<Rightarrow> env \<Rightarrow> string \<Rightarrow> int \<Rightarrow> int" where
  "getDuration fl env k fallback =
     (let v = env k in
      if v = [] then fallback
      else case Atoi v of Some n \<Rightarrow> int64 (n * Second)
      | None \<Rightarrow> (case ParseDuration fl v of Some d \<Rightarrow> d | None \<Rightarrow> fallback))"

text \<open>\<open>today\<close> is the current date in the format of the source.\<close>

definition Load :: "(nat \<Rightarrow> nat \<Rightarrow> nat \<Rightarrow> nat) \<Rightarrow> string \<Rightarrow> env \<Rightarrow> go_error + Config" where
  "Load fl today env =
     (let c = \<lparr>cfg_Port = getenv env ''PORT'' ''8080'',
        cfg_DatabaseURL = env ''DATABASE_URL'',
        cfg_JWTSecret = env ''JWT_SECRET'',
        cfg_JWTTTL = getDuration fl env ''JWT_TTL'' (30 * 24 * 3600 * Second),
        cfg_AllowedOrigins = [''*''],
        cfg_WSWriteTimeout = getDuration fl env ''WS_WRITE_TIMEOUT'' (10 * Second),
        cfg_WSReadTimeout = getDuration fl env ''WS_READ_TIMEOUT'' (60 * Second),
        cfg_WSPingInterval = getDuration fl env ''WS_PING_INTERVAL'' (25 * Second),
        cfg_LiveKitURL = env ''LIVEKIT_URL'',
        cfg_LiveKitAPIKey = env ''LIVEKIT_API_KEY'',
        cfg_LiveKitAPISecret = env ''LIVEKIT_API_SECRET'',
        cfg_AdminPassword = env ''ADMIN_PASSWORD'',
        cfg_AdminCookieSecret = env ''ADMIN_COOKIE_SECRET'',
        cfg_ExpoAccessToken = env ''EXPO_ACCESS_TOKEN'',
        cfg_GoogleClientIDs = splitCSV (env ''GOOGLE_CLIENT_IDS''),
        cfg_AppleClientIDs = splitCSV (env ''APPLE_CLIENT_IDS''),
        cfg_PrivacyContactEmail = env ''PRIVACY_CONTACT_EMAIL'',
        cfg_PrivacyEffectiveDate = getenv env ''PRIVACY_EFFECTIVE_DATE'' today,
        cfg_AppName = getenv env ''APP_NAME'' ''Convoy''\<rparr>
      in if cfg_DatabaseURL c = [] then Inl (OtherError ''DATABASE_URL is required'')
         else if length (cfg_JWTSecret c) < 16 then Inl (OtherError ''JWT_SECRET must be at least 16 characters'')
         else Inr c)"

section \<open>Run-time settings\<close>

definition KeyMinClientVersion :: string where
  "KeyMinClientVersion = ''min_client_version''"

definition config_value :: "db \<Rightarrow> string \<Rightarrow> string option" where
  "config_value d key = map_option ac_value (List.find (\<lambda>r. ac_key r = key) (t_app_config d))"

definition AppConfig_Get :: "string \<Rightarrow> ('z, string) dbcmd" where
  "AppConfig_Get key = stmt (\<lambda>now uid d. if \<not> pg_text key then Inl bad_text else sql_row (\<lambda>d. config_value d key) now uid d)"

definition upsert_config :: "string \<Rightarrow> string \<Rightarrow> unit sql" where
  "upsert_config key value' now uid d =
     (if \<not> (pg_text key \<and> pg_text value') then Inl bad_text
      else Inr ((), d\<lparr>t_app_config :=
        (if \<exists>r \<in> set (t_app_config d). ac_key r = key
         then update_where (\<lambda>r. ac_key r = key) (\<lambda>r. r\<lparr>ac_value := value', ac_updated_at := now\<rparr>) (t_app_config d)
         else t_app_config d @ [\<lparr>ac_key = key, ac_value = value', ac_updated_at = now\<rparr>])\<rparr>))"

definition AppConfig_Set :: "string \<Rightarrow> string \<Rightarrow> ('z, unit) dbcmd" where
  "AppConfig_Set key value' = stmt (upsert_config key value')"

text \<open>Errors are swallowed: the method has no error result.\<close>

definition MinClientVersion :: "('z, string) dbcmd" where
  "MinClientVersion =
     onErr (AppConfig_Get KeyMinClientVersion) (\<lambda>_. ok ''0.0.0'')
       (\<lambda>v. ok (if TrimSpace v = [] then ''0.0.0'' else TrimSpace v))"

record PublicConfig =
  PubMinClientVersion :: string
  PubEntitlements :: "(string \<times> string) list"

definition AppConfig_Handler :: "('z world_scheme, PublicConfig) handler" where
  "AppConfig_Handler = respond (
     andThen MinClientVersion (\<lambda>v. ok (JSON 200 \<lparr>PubMinClientVersion = v, PubEntitlements = []\<rparr>)))"

definition config_IsNotFound :: "go_error \<Rightarrow> bool" where
  "config_IsNotFound err \<longleftrightarrow> err = ErrNoRows \<or> err = OtherError ''app_config: not found''"

section \<open>Properties of the environment\<close>

lemma splitCSV_entries: "p \<in> set (splitCSV s) \<Longrightarrow> p \<noteq> [] \<and> TrimSpace p = p"
  by (auto simp: splitCSV_def TrimSpace_idem split: if_splits)

lemma getDuration_range:
  "- (2 ^ 63) \<le> fallback \<Longrightarrow> fallback < 2 ^ 63 \<Longrightarrow>
   - (2 ^ 63) \<le> getDuration fl env k fallback \<and> getDuration fl env k fallback < 2 ^ 63"
  using ParseDuration_range [of fl "env k"] int64_range
  by (auto simp: getDuration_def Let_def split: option.splits)

text \<open>
  \<open>Load\<close> fails exactly when the database URL is missing or the JWT secret is
  shorter than 16 bytes, in this order of precedence.  A configuration that loads
  has both, has only non-empty client ids without surrounding space, and all its
  durations fit the 64 bits of \<open>time.Duration\<close>.
\<close>
theorem load_validates:
  "case Load fl today env of
     Inl e \<Rightarrow> e = (if env ''DATABASE_URL'' = [] then OtherError ''DATABASE_URL is required''
                 else OtherError ''JWT_SECRET must be at least 16 characters'') \<and>
       (env ''DATABASE_URL'' = [] \<or> length (env ''JWT_SECRET'') < 16)
   | Inr c \<Rightarrow> cfg_DatabaseURL c \<noteq> [] \<and> 16 \<le> length (cfg_JWTSecret c) \<and>
       set (cfg_GoogleClientIDs c @ cfg_AppleClientIDs c) \<subseteq> {p. p \<noteq> [] \<and> TrimSpace p = p} \<and>
       set [cfg_JWTTTL c, cfg_WSWriteTimeout c, cfg_WSReadTimeout c, cfg_WSPingInterval c] \<subseteq> {- (2 ^ 63) ..< 2 ^ 63}"
proof -
  have "set (splitCSV s) \<subseteq> {p. p \<noteq> [] \<and> TrimSpace p = p}" for s using splitCSV_entries by blast
  moreover have "getDuration fl env k f \<in> {- (2 ^ 63) ..< 2 ^ 63}" if "0 \<le> f" "f < 2 ^ 62" for k f
    using getDuration_range [of f fl env k] that by simp
  ultimately show ?thesis by (simp add: Load_def Let_def)
qed

text \<open>
  A duration given as a whole number is read as seconds, without loss, up to the
  largest number of seconds that fits \<open>time.Duration\<close> in nanoseconds.
\<close>
theorem duration_in_seconds:
  assumes "env k = Itoa n" "\<bar>n\<bar> \<le> 9223372036"
  shows "getDuration fl env k fallback = n * 1000000000"
proof -
  have "Atoi (env k) = Some n" unfolding assms(1) by (rule Atoi_Itoa) (use assms(2) in auto)
  moreover have "int64 (n * 1000000000) = n * 1000000000" by (rule int64_id) (use assms(2) in auto)
  moreover have "env k \<noteq> []" unfolding assms(1) by (simp add: Itoa_def)
  ultimately show ?thesis by (simp add: getDuration_def)
qed

theorem duration_in_seconds_witness:
  "getDuration (\<lambda>f u k. 0) (\<lambda>_. ''3600'') ''JWT_TTL'' 5 = 3600000000000"
proof -
  have "''3600'' = Itoa 3600" by code_simp
  then show ?thesis using duration_in_seconds [of "\<lambda>_. ''3600''" "''JWT_TTL''" 3600] by simp
qed

text \<open>One second more wraps around: the token lifetime becomes negative.\<close>

lemma duration_wraps: "getDuration fl (\<lambda>_. ''9223372037'') k fallback < 0"
proof -
  have "Atoi ''9223372037'' = Some 9223372037" by code_simp
  moreover have "int64 9223372037000000000 < 0" by code_simp
  ultimately show ?thesis by (simp add: getDuration_def)
qed

section \<open>Properties of the settings\<close>

lemma find_config_update:
  assumes "\<And>r. ac_key (f r) = ac_key r"
  shows "List.find (\<lambda>r. ac_key r = k) (update_where (\<lambda>r. ac_key r = key) f rs) =
    map_option (if k = key then f else id) (List.find (\<lambda>r. ac_key r = k) rs)"
  using assms by (induction rs) (auto simp: update_where_def)

lemma config_value_upsert:
  assumes "upsert_config key v now uid d = Inr (x, d')"
  shows "config_value d' k = (if k = key then Some v else config_value d k)"
proof (cases "List.find (\<lambda>r. ac_key r = key) (t_app_config d)")
  case None
  then have "\<not> (\<exists>r \<in> set (t_app_config d). ac_key r = key)" by (auto simp: find_None_iff)
  with assms None show ?thesis
    by (auto simp: upsert_config_def config_value_def find_append split: if_splits option.splits)
next
  case (Some r)
  then have "\<exists>r \<in> set (t_app_config d). ac_key r = key" by (auto dest: find_SomeD)
  with assms Some show ?thesis
    by (auto simp: upsert_config_def config_value_def find_config_update option.map_comp split: if_splits)
qed

end
