(* ===== verification/Feedback.thy ===== *)
theory Feedback
  imports Demo "HOL-Library.Multiset"
begin

text \<open>
  \<open>internal/feedback\<close>: user feedback, its store and the submit endpoint.
\<close>

record Entry =
  EntryID :: uuid
  EntryUserID :: "uuid option"
  EntryAuthorName :: string
  EntryMessage :: string
  EntryCreatedAt :: timestamp

text \<open>\<open>LEFT JOIN users\<close> with the missing name as the empty string.\<close>

definition author_name :: "db \<Rightarrow> uuid option \<Rightarrow> string" where
  "author_name d u = (case u of None \<Rightarrow> [] | Some i \<Rightarrow>
     (case List.find (\<lambda>r. u_id r = i) (t_users d) of None \<Rightarrow> [] | Some r \<Rightarrow> u_display_name r))"

definition scan_entry :: "db \<Rightarrow> feedback_row \<Rightarrow> Entry" where
  "scan_entry d f = \<lparr>EntryID = fb_id f, EntryUserID = fb_user_id f, EntryAuthorName = author_name d (fb_user_id f),
     EntryMessage = fb_message f, EntryCreatedAt = fb_created_at f\<rparr>"

definition insert_feedback :: "uuid \<Rightarrow> string \<Rightarrow> Entry sql" where
  "insert_feedback userID message now uid d =
     (if \<not> pg_text message then Inl bad_text
      else if uid \<in> fb_id ` set (t_feedback d) then Inl unique_violation
      else if \<not> user_exists d userID then Inl foreign_key_violation
      else (let f = \<lparr>fb_id = uid, fb_user_id = Some userID, fb_message = message, fb_created_at = now\<rparr>
            in Inr (scan_entry d f, d\<lparr>t_feedback := t_feedback d @ [f]\<rparr>)))"

definition FeedbackStore_Create :: "uuid \<Rightarrow> string \<Rightarrow> ('z, Entry) dbcmd" where
  "FeedbackStore_Create userID message = stmt (insert_feedback userID message)"

text \<open>
  \<open>ORDER BY created_at DESC\<close>; rows with equal times come in table order here,
  in any order from the server.
\<close>

definition newest_first :: "feedback_row list \<Rightarrow> feedback_row list" where
  "newest_first fs = sort_key (\<lambda>f. - fb_created_at f) fs"

text \<open>\<open>pgts\<close> is the server's reading of the cursor as a timestamp (\<open>None\<close>: SQLSTATE 22007).\<close>

definition feedback_limit :: "int \<Rightarrow> int" where
  "feedback_limit limit = (if limit \<le> 0 \<or> limit > 200 then 50 else limit)"

definition FeedbackStore_List :: "(string \<Rightarrow> timestamp option) \<Rightarrow> int \<Rightarrow> string option \<Rightarrow> ('z, Entry list) dbcmd" where
  "FeedbackStore_List pgts limit before =
     (let n = nat (feedback_limit limit) in
      case before of
        Some b \<Rightarrow>
          if b \<noteq> [] then
            stmt (\<lambda>now uid d. case pgts b of None \<Rightarrow> Inl (PgError ''22007'')
              | Some t \<Rightarrow> Inr (map (scan_entry d) (take n (newest_first (filter (\<lambda>f. fb_created_at f < t) (t_feedback d)))), d))
          else stmt (sql_select (\<lambda>d. map (scan_entry d) (take n (newest_first (t_feedback d)))))
      | None \<Rightarrow> stmt (sql_select (\<lambda>d. map (scan_entry d) (take n (newest_first (t_feedback d))))))"

definition FeedbackStore_Count :: "('z, int) dbcmd" where
  "FeedbackStore_Count = stmt (sql_select (\<lambda>d. int (length (t_feedback d))))"

section \<open>The endpoint\<close>

definition feedback_maxMessageLen :: nat where
  "feedback_maxMessageLen = 2000"

definition feedback_empty :: go_error where
  "feedback_empty = Err 400 ''empty_message'' ''message is required''"

definition Feedback_Submit :: "User option \<Rightarrow> (string + string) \<Rightarrow> ('z world_scheme, Entry) handler" where
  "Feedback_Submit ctx body = respond (
     case ctx of None \<Rightarrow> fail ErrUnauthorized
     | Some user \<Rightarrow>
       andThen (result (Decode body)) (\<lambda>message.
       let msg = TrimSpace message in
       if msg = [] then fail feedback_empty
       else
         (let msg' = (if length msg > feedback_maxMessageLen then take feedback_maxMessageLen msg else msg) in
          andThen (FeedbackStore_Create (UserID user) msg') (\<lambda>entry.
          ok (JSON 201 entry)))))"

section \<open>Properties\<close>

lemma insert_feedback_InrD:
  assumes "insert_feedback u m now uid d = Inr (e, d')"
  obtains f where "d' = d\<lparr>t_feedback := t_feedback d @ [f]\<rparr>" "e = scan_entry d f" "fb_user_id f = Some u" "fb_message f = m"
    "fb_id f \<notin> fb_id ` set (t_feedback d)" "user_exists d u" "pg_text m"
  using assms by (auto simp: insert_feedback_def Let_def split: if_splits)

text \<open>
  \<open>Submit\<close> answers 201 exactly when it has stored one new entry, with the caller as
  its author and the trimmed text, cut to its first 2000 bytes; on every other
  answer the tables are as they were.
\<close>
theorem feedback_submit_effect:
  "case Feedback_Submit ctx body w of (r, w') \<Rightarrow>
     if resp_status r = 201
     then (\<exists>user message f e. ctx = Some user \<and> body = Inr message \<and> r = JSON 201 e \<and>
        w_db w' = (w_db w)\<lparr>t_feedback := t_feedback (w_db w) @ [f]\<rparr> \<and>
        fb_user_id f = Some (UserID user) \<and> fb_message f = take 2000 (TrimSpace message) \<and> TrimSpace message \<noteq> [] \<and>
        EntryMessage e = fb_message f \<and> EntryUserID e = fb_user_id f)
     else w_db w' = w_db w"
proof -
  have status: "resp_status (WriteErr e :: Entry response) \<noteq> 201"
    if "FeedbackStore_Create u m w = (Inl e, w')" for u m e w'
    using that unfolding FeedbackStore_Create_def
    by (auto simp: stmt_def insert_feedback_def Let_def error_json_def split: option.splits sum.splits if_splits)
  have err: "w_db w' = w_db w" if "FeedbackStore_Create u m w = (Inl e, w')" for u m e w'
    using that unfolding FeedbackStore_Create_def by (rule stmt_InlD)
  have ok': "\<exists>f. w_db w' = (w_db w)\<lparr>t_feedback := t_feedback (w_db w) @ [f]\<rparr> \<and> e = scan_entry (w_db w) f \<and>
      fb_user_id f = Some u \<and> fb_message f = m" if "FeedbackStore_Create u m w = (Inr e, w')" for u m e w'
    using that unfolding FeedbackStore_Create_def by (auto dest!: stmt_InrD elim!: insert_feedback_InrD)
  show ?thesis
  proof (cases "\<exists>user message. ctx = Some user \<and> body = Inr message \<and> TrimSpace message \<noteq> []")
    case False
    then show ?thesis
      by (auto simp: Feedback_Submit_def respond_def fail_def andThen_def onErr_def result_def Decode_def Let_def
          http_errors feedback_empty_def error_json_def split: option.splits sum.splits)
  next
    case True
    then obtain user message where c: "ctx = Some user" "body = Inr message" "TrimSpace message \<noteq> []" by blast
    let ?m = "take 2000 (TrimSpace message)"
    obtain res w' where r: "FeedbackStore_Create (UserID user) ?m w = (res, w')" by force
    have m: "(if length (TrimSpace message) > feedback_maxMessageLen then take feedback_maxMessageLen (TrimSpace message)
        else TrimSpace message) = ?m" by (simp add: feedback_maxMessageLen_def)
    have run: "Feedback_Submit ctx body w = (case res of Inl e \<Rightarrow> WriteErr e | Inr e \<Rightarrow> JSON 201 e, w')"
      using c r m
      by (cases res) (simp_all add: Feedback_Submit_def respond_def andThen_def onErr_def result_def Decode_def Let_def fail_def ok_def)
    show ?thesis
    proof (cases res)
      case (Inl e)
      note r' = r [unfolded Inl]
      show ?thesis using run Inl status [OF r'] err [OF r'] by simp
    next
      case (Inr e)
      with ok' [of "UserID user" ?m e w'] r obtain f where
        "w_db w' = (w_db w)\<lparr>t_feedback := t_feedback (w_db w) @ [f]\<rparr>" "e = scan_entry (w_db w) f"
        "fb_user_id f = Some (UserID user)" "fb_message f = ?m" by blast
      with Inr run c show ?thesis by (auto simp: JSON_def scan_entry_def)
    qed
  qed
qed

text \<open>
  The cut counts bytes: a message of one letter and 1000 two-byte characters is
  cut inside the last of them, and the database refuses the result.
\<close>

lemma cut_two_byte: "\<not> valid_utf8 (concat (replicate n [CHR 0xC3, CHR 0xA9]) @ [CHR 0xC3])"
  by (induction n) (simp_all add: valid_utf8.simps is_cont_def)

lemma feedback_cut_inside_character:
  "insert_feedback u (take 2000 (CHR ''a'' # concat (replicate 1000 [CHR 0xC3, CHR 0xA9]))) now uid d = Inl bad_text"
proof -
  have len: "length (concat (replicate n [CHR 0xC3, CHR 0xA9])) = 2 * n" for n by (induction n) simp_all
  have "replicate 1000 [CHR 0xC3, CHR 0xA9] = replicate 999 [CHR 0xC3, CHR 0xA9] @ [[CHR 0xC3, CHR 0xA9]]"
    using replicate_append_same [of 999 "[CHR 0xC3, CHR 0xA9]"] by (simp flip: replicate_Suc)
  then have "take 2000 (CHR ''a'' # concat (replicate 1000 [CHR 0xC3, CHR 0xA9])) =
      CHR ''a'' # concat (replicate 999 [CHR 0xC3, CHR 0xA9]) @ [CHR 0xC3]"
    using len [of 999] by (simp add: take_Cons')
  moreover have "\<not> valid_utf8 (CHR ''a'' # concat (replicate 999 [CHR 0xC3, CHR 0xA9]) @ [CHR 0xC3])"
    using cut_two_byte [of 999] by (subst valid_utf8.simps) simp
  ultimately show ?thesis by (simp add: insert_feedback_def pg_text_def)
qed

lemma newest_first_sorted: "sorted_wrt (\<lambda>f g. fb_created_at g \<le> fb_created_at f) (newest_first fs)"
proof -
  have "sorted (map (\<lambda>f. - fb_created_at f) (newest_first fs))" by (simp add: newest_first_def)
  then show ?thesis by (simp add: sorted_map)
qed

text \<open>
  \<open>List\<close> returns the newest entries, newest first: at most the clamped limit, every
  returned entry is stored (and older than the cursor, when one is given), and no
  entry that was left out is newer than a returned one.
\<close>
theorem feedback_list_newest:
  assumes "FeedbackStore_List pgts limit before w = (Inr es, w')"
  shows "\<exists>fs rest. es = map (scan_entry (w_db w)) fs \<and> int (length fs) \<le> feedback_limit limit \<and>
     mset (fs @ rest) = mset (filter (\<lambda>f. case before of None \<Rightarrow> True | Some b \<Rightarrow> b = [] \<or> (\<exists>t. pgts b = Some t \<and> fb_created_at f < t))
       (t_feedback (w_db w))) \<and>
     sorted_wrt (\<lambda>f g. fb_created_at g \<le> fb_created_at f) (fs @ rest)"
proof -
  define n where "n = nat (feedback_limit limit)"
  have lim: "int n = feedback_limit limit" by (simp add: n_def feedback_limit_def)
  have core: "\<exists>fs' rest. map (scan_entry (w_db w)) (take n (newest_first fs)) = map (scan_entry (w_db w)) fs' \<and>
      int (length fs') \<le> feedback_limit limit \<and> mset (fs' @ rest) = mset fs \<and>
      sorted_wrt (\<lambda>f g. fb_created_at g \<le> fb_created_at f) (fs' @ rest)" for fs
  proof (rule exI [of _ "take n (newest_first fs)"], rule exI [of _ "drop n (newest_first fs)"], intro conjI)
    show "sorted_wrt (\<lambda>f g. fb_created_at g \<le> fb_created_at f) (take n (newest_first fs) @ drop n (newest_first fs))"
      by (simp add: newest_first_sorted)
  qed (use lim in \<open>auto simp: newest_first_def simp flip: mset_append\<close>)
  obtain fs where es: "es = map (scan_entry (w_db w)) (take n (newest_first fs))"
    and fs: "fs = filter (\<lambda>f. case before of None \<Rightarrow> True | Some b \<Rightarrow> b = [] \<or> (\<exists>t. pgts b = Some t \<and> fb_created_at f < t))
       (t_feedback (w_db w))"
    using assms
    by (auto simp: FeedbackStore_List_def Let_def n_def sql_select_def split: option.splits if_splits dest!: stmt_InrD)
  from core [of fs] show ?thesis unfolding es by (simp only: fs)
qed

definition demo_feedback :: "uuid \<Rightarrow> timestamp \<Rightarrow> feedback_row" where
  "demo_feedback i t = \<lparr>fb_id = i, fb_user_id = Some 1, fb_message = ''hi'', fb_created_at = t\<rparr>"

theorem feedback_list_newest_witness:
  "\<exists>es w'. FeedbackStore_List (\<lambda>_. None) 1 None
       ((demo_world ())\<lparr>w_db := demo_db\<lparr>t_feedback := [demo_feedback 40 1, demo_feedback 41 2]\<rparr>\<rparr>) = (Inr es, w') \<and>
     length es \<le> 1"
proof -
  let ?w = "(demo_world ())\<lparr>w_db := demo_db\<lparr>t_feedback := [demo_feedback 40 1, demo_feedback 41 2]\<rparr>\<rparr>"
  obtain es w' where r: "FeedbackStore_List (\<lambda>_. None) 1 None ?w = (Inr es, w')"
    by (simp add: FeedbackStore_List_def stmt_select_calm)
  from feedback_list_newest [OF r] r show ?thesis by (auto simp: feedback_limit_def)
qed

end
