(* ===== verification/Push.thy ===== *)
theory Push
  imports Demo
begin

text \<open>
  \<open>internal/push\<close>: registered push tokens, the registration endpoint, and the
  batched delivery through the Expo service.  The service itself is a parameter.
\<close>

section \<open>Tokens\<close>

definition upsert_token :: "uuid \<Rightarrow> string \<Rightarrow> string \<Rightarrow> unit sql" where
  "upsert_token userID token platform now uid d =
     (if \<not> (pg_text token \<and> pg_text platform) then Inl bad_text
      else if platform \<notin> {''ios'', ''android''} then Inl (PgError ''23514'')
      else if \<not> user_exists d userID then Inl foreign_key_violation
      else Inr ((), d\<lparr>t_push_tokens :=
        (if \<exists>t \<in> set (t_push_tokens d). pt_token t = token
         then update_where (\<lambda>t. pt_token t = token)
                (\<lambda>t. t\<lparr>pt_user_id := userID, pt_platform := platform, pt_updated_at := now\<rparr>) (t_push_tokens d)
         else t_push_tokens d @ [\<lparr>pt_token = token, pt_user_id = userID, pt_platform = platform, pt_updated_at = now\<rparr>])\<rparr>))"

definition PushStore_Upsert :: "uuid \<Rightarrow> string \<Rightarrow> string \<Rightarrow> ('z, unit) dbcmd" where
  "PushStore_Upsert userID token platform =
     (if platform \<noteq> ''ios'' \<and> platform \<noteq> ''android'' then fail (OtherError ''invalid platform'')
      else stmt (upsert_token userID token platform))"

definition PushStore_AllTokens :: "('z, string list) dbcmd" where
  "PushStore_AllTokens = stmt (sql_select (\<lambda>d. map pt_token (t_push_tokens d)))"

definition PushStore_Count :: "('z, int) dbcmd" where
  "PushStore_Count = stmt (sql_select (\<lambda>d. int (length (t_push_tokens d))))"

definition PushStore_DeleteTokens :: "string list \<Rightarrow> ('z, unit) dbcmd" where
  "PushStore_DeleteTokens tokens =
     (if tokens = [] then ok ()
      else onErr (stmt (\<lambda>now uid d. if \<not> list_all pg_text tokens then Inl bad_text
          else Inr ((), d\<lparr>t_push_tokens := delete_where (\<lambda>t. pt_token t \<in> set tokens) (t_push_tokens d)\<rparr>)))
        (\<lambda>err. if err = ErrNoRows then ok () else fail err) ok)"

record registerReq =
  RegToken :: string
  RegPlatform :: string

definition invalid_token :: "string \<Rightarrow> go_error" where
  "invalid_token msg = Err 400 ''invalid_token'' msg"

definition Push_Save :: "(nat \<Rightarrow> nat) \<Rightarrow> User option \<Rightarrow> (string + registerReq) \<Rightarrow> ('z world_scheme, unit) handler" where
  "Push_Save tab ctx body = respond (
     case ctx of None \<Rightarrow> fail ErrUnauthorized
     | Some user \<Rightarrow>
       andThen (result (Decode body)) (\<lambda>req.
       let token = TrimSpace (RegToken req); platform = ToLower tab (TrimSpace (RegPlatform req)) in
       if token = [] \<or> (platform \<noteq> ''ios'' \<and> platform \<noteq> ''android'')
       then fail (invalid_token ''token and platform required'')
       else if \<not> HasPrefix token ''ExponentPushToken['' \<and> \<not> HasPrefix token ''ExpoPushToken[''
       then fail (invalid_token ''expected Expo Push token'')
       else andThen (PushStore_Upsert (UserID user) token platform) (\<lambda>_. ok NoContent)))"

section \<open>Delivery\<close>

definition expoBatchSize :: nat where
  "expoBatchSize = 100"

record push_message =
  PmTo :: string
  PmTitle :: string
  PmBody :: string
  PmData :: "(string \<times> string) list"
  PmSound :: string
  PmPriority :: string
  PmChannelID :: string

text \<open>A ticket with its status and the string under \<open>details.error\<close> (empty when there is none).\<close>

record Ticket =
  TkStatus :: string
  TkMessage :: string
  TkError :: string

record tickets =
  TkData :: "Ticket list"
  TkErrors :: "string list"

text \<open>
  The service: what the HTTP exchange of the n-th batch yields, an error of the
  transport or of reading the body, or a status and the body as the JSON decoder
  presents it.
\<close>

datatype http_result = HttpFailed string | HttpAnswer nat "string + tickets"

record expo_request =
  ErAuthorization :: "string option"
  ErBody :: "push_message list"

type_synonym expo_service = "nat \<Rightarrow> expo_request \<Rightarrow> http_result"

record ExpoClient =
  ec_accessToken :: string

definition expo_send :: "expo_service \<Rightarrow> ExpoClient \<Rightarrow> nat \<Rightarrow> push_message list \<Rightarrow> string + tickets" where
  "expo_send svc c n msgs =
     (let req = \<lparr>ErAuthorization = (if ec_accessToken c \<noteq> [] then Some (''Bearer '' @ ec_accessToken c) else None), ErBody = msgs\<rparr>
      in case svc n req of
        HttpFailed e \<Rightarrow> Inl e
      | HttpAnswer status body \<Rightarrow>
        if status \<ge> 400 then Inl ''expo push''
        else (case body of Inl e \<Rightarrow> Inl e
          | Inr t \<Rightarrow> if TkErrors t \<noteq> [] then Inl ''expo push returned errors'' else Inr t))"

record SendResult =
  SrDelivered :: int
  SrFailed :: int
  SrInvalidTokens :: "string list"

text \<open>The body of the loop over the tickets of a batch, at position \<open>i\<close>.\<close>

definition count_ticket :: "push_message list \<Rightarrow> nat \<Rightarrow> Ticket \<Rightarrow> SendResult \<Rightarrow> SendResult" where
  "count_ticket batch i tk res =
     (if TkStatus tk = ''ok'' then res\<lparr>SrDelivered := SrDelivered res + 1\<rparr>
      else
        (let res' = res\<lparr>SrFailed := SrFailed res + 1\<rparr>
         in if TkError tk = ''DeviceNotRegistered'' \<and> i < length batch
            then res'\<lparr>SrInvalidTokens := SrInvalidTokens res' @ [PmTo (batch ! i)]\<rparr> else res'))"

fun count_tickets :: "push_message list \<Rightarrow> nat \<Rightarrow> Ticket list \<Rightarrow> SendResult \<Rightarrow> SendResult" where
  "count_tickets batch i [] res = res"
| "count_tickets batch i (tk # tks) res = count_tickets batch (Suc i) tks (count_ticket batch i tk res)"

definition push_batch :: "string \<Rightarrow> string \<Rightarrow> (string \<times> string) list \<Rightarrow> string list \<Rightarrow> push_message list" where
  "push_batch title body data tokens = map (\<lambda>t. \<lparr>PmTo = t, PmTitle = title, PmBody = body, PmData = data,
     PmSound = ''default'', PmPriority = ''high'', PmChannelID = ''default''\<rparr>) tokens"

text \<open>The loop over the batches; \<open>n\<close> numbers them.\<close>

function send_loop ::
  "expo_service \<Rightarrow> ExpoClient \<Rightarrow> string \<Rightarrow> string \<Rightarrow> (string \<times> string) list \<Rightarrow> nat \<Rightarrow> string list \<Rightarrow> SendResult \<Rightarrow> SendResult" where
  "send_loop svc c title body data n tokens res =
     (if tokens = [] then res
      else
        (let batch = push_batch title body data (take expoBatchSize tokens);
             res' = (case expo_send svc c n batch of
                 Inl _ \<Rightarrow> res\<lparr>SrFailed := SrFailed res + int (length batch)\<rparr>
               | Inr t \<Rightarrow> count_tickets batch 0 (TkData t) res)
         in send_loop svc c title body data (Suc n) (drop expoBatchSize tokens) res'))"
  by auto
termination
  by (relation "measure (\<lambda>(svc, c, title, body, data, n, tokens, res). length tokens)") (auto simp: expoBatchSize_def)

declare send_loop.simps [simp del]

definition ExpoClient_Send ::
  "expo_service \<Rightarrow> ExpoClient \<Rightarrow> string list \<Rightarrow> string \<Rightarrow> string \<Rightarrow> (string \<times> string) list \<Rightarrow> SendResult" where
  "ExpoClient_Send svc c tokens title body data =
     send_loop svc c title body data 0 tokens \<lparr>SrDelivered = 0, SrFailed = 0, SrInvalidTokens = []\<rparr>"

text \<open>\<open>maskToken\<close>, used for logging.\<close>

definition maskToken :: "string \<Rightarrow> string" where
  "maskToken t = (if length t \<le> 14 then t
     else take 14 t @ [CHR 0xE2, CHR 0x80, CHR 0xA6] @ drop (length t - 4) t)"

section \<open>Delivery in batches\<close>

text \<open>A reference: the tokens cut into batches, and what the answer to one batch contributes.\<close>

function batches :: "string list \<Rightarrow> string list list" where
  "batches ts = (if ts = [] then [] else take expoBatchSize ts # batches (drop expoBatchSize ts))"
  by auto
termination by (relation "measure length") (auto simp: expoBatchSize_def)

declare batches.simps [simp del]

definition batch_result :: "expo_service \<Rightarrow> ExpoClient \<Rightarrow> string \<Rightarrow> string \<Rightarrow> (string \<times> string) list \<Rightarrow> nat \<Rightarrow> string list \<Rightarrow> int \<times> int \<times> string list" where
  "batch_result svc c title body data n b =
     (case expo_send svc c n (push_batch title body data b) of
        Inl _ \<Rightarrow> (0, int (length b), [])
      | Inr t \<Rightarrow>
        (int (length (filter (\<lambda>tk. TkStatus tk = ''ok'') (TkData t))),
         int (length (filter (\<lambda>tk. TkStatus tk \<noteq> ''ok'') (TkData t))),
         map fst (filter (\<lambda>(tok, tk). TkStatus tk \<noteq> ''ok'' \<and> TkError tk = ''DeviceNotRegistered'') (zip b (TkData t)))))"

lemma batches_concat: "concat (batches ts) = ts"
proof (induction ts rule: batches.induct)
  case (1 ts)
  then show ?case by (subst batches.simps) simp
qed

lemma batches_size: "b \<in> set (batches ts) \<Longrightarrow> b \<noteq> [] \<and> length b \<le> expoBatchSize"
proof (induction ts rule: batches.induct)
  case (1 ts)
  from 1(2) have "ts \<noteq> []" "b = take expoBatchSize ts \<or> b \<in> set (batches (drop expoBatchSize ts))"
    by (subst (asm) batches.simps, simp split: if_splits)+
  with 1(1) show ?case by (auto simp: expoBatchSize_def)
qed

lemma count_tickets_run:
  assumes "batch = push_batch title body data ts"
  shows "count_tickets batch i tks res =
    \<lparr>SrDelivered = SrDelivered res + int (length (filter (\<lambda>tk. TkStatus tk = ''ok'') tks)),
     SrFailed = SrFailed res + int (length (filter (\<lambda>tk. TkStatus tk \<noteq> ''ok'') tks)),
     SrInvalidTokens = SrInvalidTokens res @
       map fst (filter (\<lambda>(tok, tk). TkStatus tk \<noteq> ''ok'' \<and> TkError tk = ''DeviceNotRegistered'') (zip (drop i ts) tks))\<rparr>"
proof (induction tks arbitrary: i res)
  case (Cons tk tks)
  have len: "length batch = length ts" by (simp add: assms push_batch_def)
  show ?case
  proof (cases "i < length ts")
    case True
    then have "drop i ts = ts ! i # drop (Suc i) ts" "PmTo (batch ! i) = ts ! i"
      by (simp_all add: Cons_nth_drop_Suc assms push_batch_def)
    with True len show ?thesis by (simp add: Cons count_ticket_def Let_def)
  next
    case False
    with len show ?thesis by (simp add: Cons count_ticket_def Let_def)
  qed
qed simp

definition add_result :: "int \<times> int \<times> string list \<Rightarrow> SendResult \<Rightarrow> SendResult" where
  "add_result r res = \<lparr>SrDelivered = SrDelivered res + fst r, SrFailed = SrFailed res + fst (snd r),
     SrInvalidTokens = SrInvalidTokens res @ snd (snd r)\<rparr>"

lemma batch_step:
  "(case expo_send svc c n (push_batch title body data b) of
      Inl _ \<Rightarrow> res\<lparr>SrFailed := SrFailed res + int (length (push_batch title body data b))\<rparr>
    | Inr t \<Rightarrow> count_tickets (push_batch title body data b) 0 (TkData t) res) =
   add_result (batch_result svc c title body data n b) res"
  by (simp add: add_result_def batch_result_def count_tickets_run [OF refl] split: sum.splits)
    (simp add: push_batch_def)

lemma send_loop_fold:
  "send_loop svc c title body data n ts res =
     fold add_result (map (\<lambda>(k, b). batch_result svc c title body data k b) (enumerate n (batches ts))) res"
proof (induction svc c title body data n ts res rule: send_loop.induct)
  case (1 svc c title body data n ts res)
  show ?case
  proof (cases "ts = []")
    case True
    then show ?thesis by (simp add: send_loop.simps batches.simps)
  next
    case False
    have b: "batches ts = take expoBatchSize ts # batches (drop expoBatchSize ts)"
      using False by (subst batches.simps) simp
    show ?thesis using 1 [OF False refl refl] False
      by (subst send_loop.simps) (simp add: b Let_def batch_step)
  qed
qed

lemma fold_add_result:
  "fold add_result rs res =
     \<lparr>SrDelivered = SrDelivered res + sum_list (map fst rs), SrFailed = SrFailed res + sum_list (map (fst \<circ> snd) rs),
      SrInvalidTokens = SrInvalidTokens res @ concat (map (snd \<circ> snd) rs)\<rparr>"
  by (induction rs arbitrary: res) (simp_all add: add_result_def)

text \<open>
  \<open>Send\<close> is the sum over consecutive batches of at most 100 tokens: every token is
  in exactly one batch, in the order given, a batch whose request fails counts all
  its tokens as failed, and the tokens reported for pruning are exactly those whose
  ticket says that the device is not registered.
\<close>
theorem send_by_batches:
  "concat (batches tokens) = tokens \<and> list_all (\<lambda>b. b \<noteq> [] \<and> length b \<le> 100) (batches tokens) \<and>
   ExpoClient_Send svc c tokens title body data =
     (let rs = map (\<lambda>(k, b). batch_result svc c title body data k b) (enumerate 0 (batches tokens))
      in \<lparr>SrDelivered = sum_list (map fst rs), SrFailed = sum_list (map (fst \<circ> snd) rs),
          SrInvalidTokens = concat (map (snd \<circ> snd) rs)\<rparr>)"
  using batches_size
  by (auto simp: batches_concat list_all_iff expoBatchSize_def ExpoClient_Send_def send_loop_fold fold_add_result Let_def)

text \<open>
  C19: The counters are consistent: when the service answers every batch with an error or
  with one ticket per message, each token is counted exactly once, as delivered or
  as failed, and only tokens that were addressed are reported for pruning.
\<close>
theorem send_counts:
  assumes "\<And>n req status t. svc n req = HttpAnswer status (Inr t) \<Longrightarrow> length (TkData t) = length (ErBody req)"
  shows "SrDelivered (ExpoClient_Send svc c tokens title body data) + SrFailed (ExpoClient_Send svc c tokens title body data) =
      int (length tokens) \<and>
    set (SrInvalidTokens (ExpoClient_Send svc c tokens title body data)) \<subseteq> set tokens"
proof -
  have one: "fst r + fst (snd r) = int (length b) \<and> set (snd (snd r)) \<subseteq> set b"
    if "r = batch_result svc c title body data k b" for r k b
  proof (cases "expo_send svc c k (push_batch title body data b)")
    case (Inl e)
    with that show ?thesis by (simp add: batch_result_def)
  next
    case (Inr t)
    then have len: "length (TkData t) = length b"
      using assms by (auto simp: expo_send_def Let_def push_batch_def split: http_result.splits sum.splits if_splits)
    with sum_length_filter_compl [of "\<lambda>tk. TkStatus tk = ''ok''" "TkData t"]
    have "int (length (filter (\<lambda>tk. TkStatus tk = ''ok'') (TkData t))) +
        int (length (filter (\<lambda>tk. TkStatus tk \<noteq> ''ok'') (TkData t))) = int (length b)"
      by (simp flip: of_nat_add)
    with that Inr show ?thesis by (auto simp: batch_result_def dest: set_zip_leftD)
  qed
  have "sum_list (map fst rs) + sum_list (map (fst \<circ> snd) rs) = int (length (concat bs)) \<and>
      set (concat (map (snd \<circ> snd) rs)) \<subseteq> set (concat bs)"
    if "rs = map (\<lambda>(k, b). batch_result svc c title body data k b) (enumerate n bs)" for rs n bs
    using that
  proof (induction bs arbitrary: rs n)
    case (Cons b bs)
    from Cons.IH [OF refl, of "Suc n"] one [OF refl, of n b] show ?case by (auto simp: Cons.prems)
  qed simp
  from this [OF refl, of 0 "batches tokens"] show ?thesis
    by (simp add: ExpoClient_Send_def send_loop_fold fold_add_result batches_concat)
qed

text \<open>A service that knows every device but one.\<close>

definition demo_expo :: expo_service where
  "demo_expo n req = HttpAnswer 200 (Inr \<lparr>TkData = map (\<lambda>m. if PmTo m = ''old'' then \<lparr>TkStatus = ''error'', TkMessage = [],
     TkError = ''DeviceNotRegistered''\<rparr> else \<lparr>TkStatus = ''ok'', TkMessage = [], TkError = []\<rparr>) (ErBody req), TkErrors = []\<rparr>)"

theorem send_counts_witness:
  "(let r = ExpoClient_Send demo_expo \<lparr>ec_accessToken = []\<rparr> [''a'', ''old'', ''b''] ''t'' ''b'' [] in
     SrDelivered r + SrFailed r = 3 \<and> set (SrInvalidTokens r) \<subseteq> {''a'', ''old'', ''b''})"
  using send_counts [of demo_expo "\<lparr>ec_accessToken = []\<rparr>" "[''a'', ''old'', ''b'']" "''t''" "''b''" "[]"]
  by (auto simp: demo_expo_def Let_def)

section \<open>Registration\<close>

lemma filter_key_single: "distinct (map k xs) \<Longrightarrow> x \<in> set xs \<Longrightarrow> filter (\<lambda>y. k y = k x) xs = [x]"
  by (induction xs) (auto simp: filter_empty_conv rev_image_eqI)

text \<open>
  Registering a token stores it exactly once, for the given user, whatever
  account it belonged to before, and leaves all other tokens alone.
\<close>

lemma upsert_token_effect:
  assumes "upsert_token u tok pl now uid d = Inr (x, d')" "distinct (map pt_token (t_push_tokens d))"
  shows "filter (\<lambda>t. pt_token t = tok) (t_push_tokens d') =
      [\<lparr>pt_token = tok, pt_user_id = u, pt_platform = pl, pt_updated_at = now\<rparr>]"
    "filter (\<lambda>t. pt_token t \<noteq> tok) (t_push_tokens d') = filter (\<lambda>t. pt_token t \<noteq> tok) (t_push_tokens d)"
    "user_exists d u"
proof -
  let ?f = "\<lambda>t. t\<lparr>pt_user_id := u, pt_platform := pl, pt_updated_at := now\<rparr>"
  have fl: "filter (\<lambda>t. pt_token t = tok) (update_where (\<lambda>t. pt_token t = tok) ?f ts) = map ?f (filter (\<lambda>t. pt_token t = tok) ts)" for ts
    by (induction ts) (simp_all add: update_where_def)
  have one: "map ?f (filter (\<lambda>t. pt_token t = tok) (t_push_tokens d)) =
      [\<lparr>pt_token = tok, pt_user_id = u, pt_platform = pl, pt_updated_at = now\<rparr>]"
    if "t \<in> set (t_push_tokens d)" "pt_token t = tok" for t
    using filter_key_single [OF assms(2) that(1)] that(2) by simp
  show "filter (\<lambda>t. pt_token t = tok) (t_push_tokens d') =
      [\<lparr>pt_token = tok, pt_user_id = u, pt_platform = pl, pt_updated_at = now\<rparr>]"
  proof (cases "\<exists>t \<in> set (t_push_tokens d). pt_token t = tok")
    case True
    then have "t_push_tokens d' = update_where (\<lambda>t. pt_token t = tok) ?f (t_push_tokens d)"
      using assms(1) by (simp add: upsert_token_def split: if_splits) auto
    moreover obtain t where "t \<in> set (t_push_tokens d)" "pt_token t = tok" using True by blast
    ultimately show ?thesis by (simp only: fl one)
  next
    case False
    then show ?thesis using assms(1) by (auto simp: upsert_token_def filter_empty_conv split: if_splits)
  qed
  show "filter (\<lambda>t. pt_token t \<noteq> tok) (t_push_tokens d') = filter (\<lambda>t. pt_token t \<noteq> tok) (t_push_tokens d)"
    using assms(1) by (auto simp: upsert_token_def filter_update_where_other split: if_splits)
  show "user_exists d u" using assms(1) by (simp add: upsert_token_def split: if_splits)
qed

end
