(* ===== verification/Admin.thy ===== *)
theory Admin
  imports AdminSession AppConfig Feedback Push
begin

text \<open>
  \<open>internal/admin\<close>: the pages behind the gate.  Dashboard and feedback
  (\<open>admin.go\<close>), broadcasts (\<open>broadcasts.go\<close>), accounts
  (\<open>users.go\<close>) and settings (\<open>settings.go\<close>).  A page is the data its
  template gets.
\<close>

section \<open>Data of the pages\<close>

record Broadcast =
  BcID :: uuid
  BcTitle :: string
  BcBody :: string
  BcSentAt :: timestamp
  BcRecipients :: int
  BcDelivered :: int
  BcFailed :: int

record userRow =
  UrID :: uuid
  UrDisplayName :: string
  UrEmail :: string
  UrAvatarURL :: string
  UrCreatedAt :: timestamp
  UrDeletedAt :: "timestamp option"
  UrProviders :: "string list"
  UrActiveRooms :: int
  UrJoinedRooms :: int

record admin_identity =
  AiProvider :: string
  AiSubject :: string
  AiEmail :: string
  AiCreatedAt :: timestamp

datatype admin_page =
    DashboardPage int int int int int "Entry list"
  | FeedbackPage "Entry list"
  | BroadcastsPage "Broadcast list"
  | BroadcastNewPage int
  | BroadcastErrorPage string
  | BroadcastResultPage int int int int
  | RecipientCountPage int
  | UsersPage string "userRow list"
  | UserDetailPage userRow "admin_identity list"
  | SettingsPage string string string

text \<open>A page computed by a command whose error is written with \<open>http.Error\<close>.\<close>

definition admin_respond :: "('w, 'p admin_answer, 'p admin_answer) cmd \<Rightarrow> ('w, 'p) admin_handler" where
  "admin_respond m w = (case m w of (Inl a, w') \<Rightarrow> (a, w') | (Inr a, w') \<Rightarrow> (a, w'))"

definition or_500 :: "('w, go_error, 'a) cmd \<Rightarrow> ('w, 'p admin_answer, 'a) cmd" where
  "or_500 m = onErr m (\<lambda>e. fail (ServerError e)) ok"

text \<open>\<open>x, _ := \<dots>\<close>: the zero value when the call fails.\<close>

definition or_zero :: "'a \<Rightarrow> ('w, 'e, 'a) cmd \<Rightarrow> ('w, 'f, 'a) cmd" where
  "or_zero z m = onErr m (\<lambda>_. ok z) ok"

section \<open>Dashboard and feedback\<close>

definition countUsers :: "('z, int \<times> int) dbcmd" where
  "countUsers = or_zero (0, 0) (stmt (sql_select (\<lambda>d.
     (int (rows_where (\<lambda>u. u_deleted_at u = None) (t_users d)), int (rows_where (\<lambda>u. u_deleted_at u \<noteq> None) (t_users d))))))"

definition BroadcastStore_Count :: "('z, int) dbcmd" where
  "BroadcastStore_Count = stmt (sql_select (\<lambda>d. int (length (t_broadcasts d))))"

definition dashboard :: "(string \<Rightarrow> timestamp option) \<Rightarrow> ('z world_scheme, admin_page) admin_handler" where
  "dashboard pgts = admin_respond (
     andThen (or_zero 0 FeedbackStore_Count) (\<lambda>feedbackCount.
     andThen (or_zero 0 PushStore_Count) (\<lambda>tokenCount.
     andThen (or_zero 0 BroadcastStore_Count) (\<lambda>broadcastCount.
     andThen (or_zero [] (FeedbackStore_List pgts 5 None)) (\<lambda>recent.
     andThen (or_500 countUsers) (\<lambda>(userCount, deletedCount).
     ok (Page (DashboardPage feedbackCount tokenCount broadcastCount userCount deletedCount recent))))))))"

definition feedbackList :: "(string \<Rightarrow> timestamp option) \<Rightarrow> ('z world_scheme, admin_page) admin_handler" where
  "feedbackList pgts = admin_respond (
     andThen (or_500 (FeedbackStore_List pgts 200 None)) (\<lambda>entries. ok (Page (FeedbackPage entries))))"

definition recipientCount :: "('z world_scheme, admin_page) admin_handler" where
  "recipientCount = admin_respond (andThen (or_zero 0 PushStore_Count) (\<lambda>n. ok (Page (RecipientCountPage n))))"

text \<open>The template function \<open>initials\<close>: the first bytes of the first and the last word.\<close>

function Fields_from :: "string \<Rightarrow> string \<Rightarrow> string list" where
  "Fields_from cur s =
     (if s = [] then (if cur = [] then [] else [cur])
      else
        (let (r, n) = decode_rune s in
         if IsSpace r then (if cur = [] then [] else [cur]) @ Fields_from [] (drop n s)
         else Fields_from (cur @ take n s) (drop n s)))"
  by auto
termination
proof (relation "measure (\<lambda>(cur, s). length s)"; clarsimp)
  fix s :: string and r n
  assume "s \<noteq> []" "(r, n) = decode_rune s"
  then show "length s - n < length s" using decode_rune_width [of s] by (metis diff_less length_greater_0_conv snd_conv)
next
  fix s :: string and r n
  assume "s \<noteq> []" "(r, n) = decode_rune s"
  then show "length s - n < length s" using decode_rune_width [of s] by (metis diff_less length_greater_0_conv snd_conv)
qed

declare Fields_from.simps [simp del]

definition initials :: "(nat \<Rightarrow> nat) \<Rightarrow> string \<Rightarrow> string" where
  "initials tab name0 =
     (let name = TrimSpace name0 in
      if name = [] then ''?''
      else (case Fields_from [] name of
              [] \<Rightarrow> ''?''
            | [p] \<Rightarrow> ToUpper tab (take 1 p)
            | p # ps \<Rightarrow> ToUpper tab (take 1 p @ take 1 (last ps))))"

section \<open>Broadcasts\<close>

definition scan_broadcast :: "broadcast_row \<Rightarrow> Broadcast" where
  "scan_broadcast b = \<lparr>BcID = bc_id b, BcTitle = bc_title b, BcBody = bc_body b, BcSentAt = bc_sent_at b,
     BcRecipients = bc_recipients b, BcDelivered = bc_delivered b, BcFailed = bc_failed b\<rparr>"

definition int4 :: "int \<Rightarrow> bool" where
  "int4 n \<longleftrightarrow> -2147483648 \<le> n \<and> n \<le> 2147483647"

definition insert_broadcast :: "string \<Rightarrow> string \<Rightarrow> int \<Rightarrow> int \<Rightarrow> int \<Rightarrow> Broadcast sql" where
  "insert_broadcast title body recipients delivered failed now uid d =
     (if \<not> (int4 recipients \<and> int4 delivered \<and> int4 failed) then Inl (OtherError ''unable to encode into int4'')
      else if \<not> (pg_text title \<and> pg_text body) then Inl bad_text
      else if uid \<in> bc_id ` set (t_broadcasts d) then Inl unique_violation
      else (let b = \<lparr>bc_id = uid, bc_title = title, bc_body = body, bc_sent_at = now, bc_recipients = recipients,
                     bc_delivered = delivered, bc_failed = failed\<rparr>
            in Inr (scan_broadcast b, d\<lparr>t_broadcasts := t_broadcasts d @ [b]\<rparr>)))"

definition BroadcastStore_Insert :: "string \<Rightarrow> string \<Rightarrow> int \<Rightarrow> int \<Rightarrow> int \<Rightarrow> ('z, Broadcast) dbcmd" where
  "BroadcastStore_Insert title body recipients delivered failed =
     stmt (insert_broadcast title body recipients delivered failed)"

text \<open>As for feedback, rows sent at the same time come in table order here.\<close>

definition BroadcastStore_List :: "nat \<Rightarrow> ('z, Broadcast list) dbcmd" where
  "BroadcastStore_List limit =
     stmt (sql_select (\<lambda>d. map scan_broadcast (take limit (sort_key (\<lambda>b. - bc_sent_at b) (t_broadcasts d)))))"

definition broadcastList :: "('z world_scheme, admin_page) admin_handler" where
  "broadcastList = admin_respond (
     andThen (or_500 (BroadcastStore_List 100)) (\<lambda>items. ok (Page (BroadcastsPage items))))"

definition broadcastNewForm :: "('z world_scheme, admin_page) admin_handler" where
  "broadcastNewForm = admin_respond (andThen (or_zero 0 PushStore_Count) (\<lambda>n. ok (Page (BroadcastNewPage n))))"

definition broadcastSend ::
  "expo_service \<Rightarrow> ExpoClient \<Rightarrow> (string + (string \<Rightarrow> string)) \<Rightarrow> ('z world_scheme, admin_page) admin_handler" where
  "broadcastSend svc expo form = admin_respond (
     case form of Inl msg \<Rightarrow> ok (HttpError 400 msg)
     | Inr v \<Rightarrow>
       (let title = TrimSpace (v ''title''); body = TrimSpace (v ''body'') in
        if title = [] \<or> body = [] then ok (Page (BroadcastErrorPage ''Title and body are required.''))
        else
          (let title' = (if length title > 80 then take 80 title else title);
               body' = (if length body > 240 then take 240 body else body)
           in andThen (or_500 PushStore_AllTokens) (\<lambda>tokens.
              if tokens = [] then ok (Page (BroadcastErrorPage ''No devices registered yet.''))
              else
                (let res = ExpoClient_Send svc expo tokens title' body' [(''type'', ''broadcast'')];
                     rec' = int (length tokens)
                 in andThen (if SrInvalidTokens res \<noteq> [] then or_zero () (PushStore_DeleteTokens (SrInvalidTokens res)) else ok ()) (\<lambda>_.
                    andThen (or_500 (BroadcastStore_Insert title' body' rec' (SrDelivered res) (SrFailed res))) (\<lambda>_.
                    ok (Page (BroadcastResultPage rec' (SrDelivered res) (SrFailed res)
                      (int (length (SrInvalidTokens res))))))))))))"

section \<open>Accounts\<close>

text \<open>The distinct providers of a user; the check constraint leaves three values.\<close>

definition providers_of :: "db \<Rightarrow> uuid \<Rightarrow> string list" where
  "providers_of d u = filter (\<lambda>p. \<exists>i \<in> set (t_user_identities d). ui_user_id i = u \<and> ui_provider i = p)
     [''apple'', ''google'', ''guest'']"

definition coalesce :: "string option \<Rightarrow> string" where
  "coalesce v = (case v of None \<Rightarrow> [] | Some s \<Rightarrow> s)"

definition scan_user_row :: "db \<Rightarrow> user_row \<Rightarrow> userRow" where
  "scan_user_row d u = \<lparr>UrID = u_id u, UrDisplayName = u_display_name u, UrEmail = coalesce (u_email u),
     UrAvatarURL = coalesce (u_avatar_url u), UrCreatedAt = u_created_at u, UrDeletedAt = u_deleted_at u,
     UrProviders = providers_of d (u_id u),
     UrActiveRooms = int (rows_where (\<lambda>r. r_owner_id r = u_id u \<and> r_ended_at r = None) (t_rooms d)),
     UrJoinedRooms = int (rows_where (\<lambda>m. rm_user_id m = u_id u \<and> rm_left_at m = None) (t_room_members d))\<rparr>"

text \<open>\<open>ilike text pattern\<close> is the server's case-insensitive \<open>ILIKE\<close>.\<close>

definition queryUsers :: "(string \<Rightarrow> string \<Rightarrow> bool) \<Rightarrow> string \<Rightarrow> nat \<Rightarrow> ('z, userRow list) dbcmd" where
  "queryUsers ilike q limit =
     stmt (\<lambda>now uid d.
       if q \<noteq> [] \<and> \<not> pg_text (''%'' @ q @ ''%'') then Inl bad_text
       else Inr (map (scan_user_row d) (take limit (sort_key (\<lambda>u. - u_created_at u)
         (filter (\<lambda>u. q = [] \<or> ilike (u_display_name u) (''%'' @ q @ ''%'') \<or>
            (case u_email u of None \<Rightarrow> False | Some e \<Rightarrow> ilike e (''%'' @ q @ ''%''))) (t_users d)))), d))"

definition scan_admin_identity :: "identity_row \<Rightarrow> admin_identity" where
  "scan_admin_identity i = \<lparr>AiProvider = ui_provider i, AiSubject = ui_subject i, AiEmail = coalesce (ui_email i),
     AiCreatedAt = ui_created_at i\<rparr>"

definition fetchUser :: "uuid \<Rightarrow> ('z, userRow \<times> admin_identity list) dbcmd" where
  "fetchUser u =
     andThen (stmt (sql_row (\<lambda>d. map_option (scan_user_row d) (List.find (\<lambda>r. u_id r = u) (t_users d))))) (\<lambda>row.
     andThen (stmt (sql_select (\<lambda>d. map scan_admin_identity
       (sort_key ui_created_at (filter (\<lambda>i. ui_user_id i = u) (t_user_identities d)))))) (\<lambda>ids.
     ok (row, ids)))"

definition usersList :: "(string \<Rightarrow> string \<Rightarrow> bool) \<Rightarrow> string \<Rightarrow> ('z world_scheme, admin_page) admin_handler" where
  "usersList ilike query = admin_respond (
     let q = TrimSpace query in
     andThen (or_500 (queryUsers ilike q 200)) (\<lambda>rows. ok (Page (UsersPage q rows))))"

definition admin_id :: "libs \<Rightarrow> string \<Rightarrow> ('w, 'p admin_answer, uuid) cmd" where
  "admin_id L s = (case uuid_Parse L s of Inl _ \<Rightarrow> fail (HttpError 400 ''bad id'') | Inr u \<Rightarrow> ok u)"

definition userDetail :: "libs \<Rightarrow> string \<Rightarrow> ('z world_scheme, admin_page) admin_handler" where
  "userDetail L s = admin_respond (
     andThen (admin_id L s) (\<lambda>u.
     onErr (fetchUser u)
       (\<lambda>err. if err = ErrNoRows then ok (HttpError 404 ''404 page not found'') else ok (ServerError err))
       (\<lambda>(row, ids). ok (Page (UserDetailPage row ids)))))"

text \<open>
  \<open>DELETE FROM users\<close> with the actions the schema declares: rooms owned by the
  user, memberships, markers, messages, identities and tokens go with it, and so
  does what belongs to a deleted room; feedback keeps its text without author.
  \<open>rooms.dest_set_by\<close> and \<open>room_stops.created_by\<close> have no action: a
  remaining row that names the user makes the statement fail.
\<close>

definition owned_rooms :: "db \<Rightarrow> uuid \<Rightarrow> uuid set" where
  "owned_rooms d u = r_id ` set (filter (\<lambda>r. r_owner_id r = u) (t_rooms d))"

definition cascade_user :: "uuid \<Rightarrow> db \<Rightarrow> db" where
  "cascade_user u d = d\<lparr>
     t_users := delete_where (\<lambda>r. u_id r = u) (t_users d),
     t_rooms := delete_where (\<lambda>r. r_id r \<in> owned_rooms d u) (t_rooms d),
     t_room_members := delete_where (\<lambda>m. rm_user_id m = u \<or> rm_room_id m \<in> owned_rooms d u) (t_room_members d),
     t_personal_markers := delete_where (\<lambda>p. pm_user_id p = u \<or> pm_room_id p \<in> owned_rooms d u) (t_personal_markers d),
     t_room_stops := delete_where (\<lambda>s. st_room_id s \<in> owned_rooms d u) (t_room_stops d),
     t_messages := delete_where (\<lambda>x. ms_user_id x = u \<or> ms_room_id x \<in> owned_rooms d u) (t_messages d),
     t_user_identities := delete_where (\<lambda>i. ui_user_id i = u) (t_user_identities d),
     t_push_tokens := delete_where (\<lambda>t. pt_user_id t = u) (t_push_tokens d),
     t_feedback := update_where (\<lambda>f. fb_user_id f = Some u) (\<lambda>f. f\<lparr>fb_user_id := None\<rparr>) (t_feedback d)\<rparr>"

definition still_named :: "uuid \<Rightarrow> db \<Rightarrow> bool" where
  "still_named u d \<longleftrightarrow> (\<exists>r \<in> set (t_rooms d). r_dest_set_by r = Some u) \<or> (\<exists>s \<in> set (t_room_stops d). st_created_by s = Some u)"

definition delete_user :: "uuid \<Rightarrow> unit sql" where
  "delete_user u now uid d =
     (if \<not> user_exists d u then Inr ((), d)
      else if still_named u (cascade_user u d) then Inl foreign_key_violation
      else Inr ((), cascade_user u d))"

definition userHardDelete :: "libs \<Rightarrow> admin_request \<Rightarrow> string \<Rightarrow> ('z world_scheme, admin_page) admin_handler" where
  "userHardDelete L r s = admin_respond (
     andThen (admin_id L s) (\<lambda>u.
     andThen (or_500 (stmt (delete_user u))) (\<lambda>_.
     ok (if isHTMX r then HxRedirect 200 ''/admin/users'' else Redirect ''/admin/users''))))"

definition user_url :: "libs \<Rightarrow> uuid \<Rightarrow> string" where
  "user_url L u = ''/admin/users/'' @ uuid_String L u"

definition userSoftDelete :: "libs \<Rightarrow> string \<Rightarrow> ('z world_scheme, admin_page) admin_handler" where
  "userSoftDelete L s = admin_respond (
     andThen (admin_id L s) (\<lambda>u.
     andThen (or_500 (stmt (stamp_deleted u))) (\<lambda>_.
     andThen (or_500 (stmt (end_owned_rooms u))) (\<lambda>_.
     andThen (or_500 (stmt (kick_memberships u))) (\<lambda>_.
     ok (Redirect (user_url L u)))))))"

definition restore_user :: "uuid \<Rightarrow> unit sql" where
  "restore_user u now uid d = Inr ((), d\<lparr>t_users := update_where (\<lambda>r. u_id r = u) (\<lambda>r. r\<lparr>u_deleted_at := None\<rparr>) (t_users d)\<rparr>)"

definition userRestore :: "libs \<Rightarrow> string \<Rightarrow> ('z world_scheme, admin_page) admin_handler" where
  "userRestore L s = admin_respond (
     andThen (admin_id L s) (\<lambda>u.
     andThen (or_500 (stmt (restore_user u))) (\<lambda>_.
     ok (Redirect (user_url L u)))))"

section \<open>Settings\<close>

text \<open>The regular expression \<open>^\d+\.\d+\.\d+$\<close>.\<close>

definition semver :: "string \<Rightarrow> bool" where
  "semver s \<longleftrightarrow> (case Split CHR ''.'' s of
     [a, b, c] \<Rightarrow> list_all (\<lambda>p. p \<noteq> [] \<and> list_all digit p) [a, b, c] | _ \<Rightarrow> False)"

definition settingsPage :: "AdminConfig \<Rightarrow> string \<Rightarrow> string \<Rightarrow> ('z world_scheme, admin_page) admin_handler" where
  "settingsPage m flash err = admin_respond (
     if \<not> ad_AppCfgSet m then ok (HttpError 500 ''app config store not configured'')
     else andThen (or_500 MinClientVersion) (\<lambda>v. ok (Page (SettingsPage v flash err))))"

definition settingsSubmit :: "AdminConfig \<Rightarrow> (string + (string \<Rightarrow> string)) \<Rightarrow> ('z world_scheme, admin_page) admin_handler" where
  "settingsSubmit m form = admin_respond (
     if \<not> ad_AppCfgSet m then ok (HttpError 500 ''app config store not configured'')
     else case form of Inl _ \<Rightarrow> ok (Redirect ''/admin/settings?err=bad_form'')
     | Inr v \<Rightarrow>
       (let mn = TrimSpace (v ''min_client_version'') in
        if \<not> semver mn then ok (Redirect ''/admin/settings?err=bad_version'')
        else onErr (AppConfig_Set KeyMinClientVersion mn)
          (\<lambda>_. ok (Redirect ''/admin/settings?err=db''))
          (\<lambda>_. ok (Redirect ''/admin/settings?flash=saved''))))"

end
