(* ===== verification/AccountInvariant.thy ===== *)
theory AccountInvariant
  imports Admin BroadcasterSpec
begin

text \<open>
  The second half of the invariant of the tables: accounts, identities,
  feedback, push tokens, broadcasts and settings; and that the authentication,
  feedback, push and administration code keeps both halves.
\<close>

section \<open>The invariant\<close>

definition identities_ok :: "db \<Rightarrow> bool" where
  "identities_ok d \<longleftrightarrow> distinct (map ui_id (t_user_identities d)) \<and>
     distinct (map (\<lambda>i. (ui_provider i, ui_subject i)) (t_user_identities d)) \<and>
     (\<forall>i \<in> set (t_user_identities d). user_exists d (ui_user_id i) \<and> ui_provider i \<in> {''google'', ''apple'', ''guest''})"

definition feedback_ok :: "db \<Rightarrow> bool" where
  "feedback_ok d \<longleftrightarrow> distinct (map fb_id (t_feedback d)) \<and> (\<forall>f \<in> set (t_feedback d). pred_option (user_exists d) (fb_user_id f))"

definition tokens_ok :: "db \<Rightarrow> bool" where
  "tokens_ok d \<longleftrightarrow> distinct (map pt_token (t_push_tokens d)) \<and>
     (\<forall>t \<in> set (t_push_tokens d). user_exists d (pt_user_id t) \<and> pt_platform t \<in> {''ios'', ''android''})"

definition settings_ok :: "db \<Rightarrow> bool" where
  "settings_ok d \<longleftrightarrow> distinct (map ac_key (t_app_config d)) \<and>
     (case config_value d KeyMinClientVersion of None \<Rightarrow> False | Some v \<Rightarrow> semver v)"

definition accounts_ok :: "db \<Rightarrow> bool" where
  "accounts_ok d \<longleftrightarrow> identities_ok d \<and> feedback_ok d \<and> tokens_ok d \<and> settings_ok d \<and>
     distinct (map bc_id (t_broadcasts d))"

definition tables_ok :: "db \<Rightarrow> bool" where
  "tables_ok d \<longleftrightarrow> db_ok d \<and> accounts_ok d"

lemma tables_okD: "tables_ok d \<Longrightarrow> db_ok d" "tables_ok d \<Longrightarrow> accounts_ok d"
  by (simp_all add: tables_ok_def)

lemma tables_ok_init: "tables_ok (init_db now)"
proof -
  have "semver ''0.0.0''" by code_simp
  then show ?thesis
    by (simp add: tables_ok_def init_db_ok accounts_ok_def identities_ok_def feedback_ok_def tokens_ok_def settings_ok_def
        config_value_def KeyMinClientVersion_def) (simp add: init_db_def)
qed

section \<open>The room service does not touch accounts\<close>

definition account_tables where
  "account_tables d = (t_users d, t_user_identities d, t_feedback d, t_push_tokens d, t_broadcasts d, t_app_config d)"

lemma accounts_ok_cong: "account_tables d' = account_tables d \<Longrightarrow> accounts_ok d' = accounts_ok d"
  by (simp add: account_tables_def accounts_ok_def identities_ok_def feedback_ok_def tokens_ok_def settings_ok_def
      config_value_def user_exists_def cong: option.pred_cong)

lemmas room_statements = insert_room_def insert_member_def upsert_member_def update_members_def update_rooms_def
  update_room_returning_def set_owner_def set_destination_def upsert_marker_def insert_stop_def update_stop_label_def
  insert_message_def sql_row_def sql_select_def

lemma room_statement_accounts:
  "insert_room a b c now uid d = Inr (x1, d') \<Longrightarrow> account_tables d' = account_tables d"
  "insert_member r u ro now uid d = Inr (x2, d') \<Longrightarrow> account_tables d' = account_tables d"
  "upsert_member r u now uid d = Inr (x2, d') \<Longrightarrow> account_tables d' = account_tables d"
  "update_members p f now uid d = Inr (n, d') \<Longrightarrow> account_tables d' = account_tables d"
  "update_rooms q g now uid d = Inr (n, d') \<Longrightarrow> account_tables d' = account_tables d"
  "update_room_returning ts q g now uid d = Inr (x3, d') \<Longrightarrow> account_tables d' = account_tables d"
  "set_owner r u now uid d = Inr (n, d') \<Longrightarrow> account_tables d' = account_tables d"
  "set_destination r u lat lng nm nt now uid d = Inr (x4, d') \<Longrightarrow> account_tables d' = account_tables d"
  "upsert_marker r u lat lng nm now uid d = Inr (x5, d') \<Longrightarrow> account_tables d' = account_tables d"
  "insert_stop r u lat lng nm now uid d = Inr (x6, d') \<Longrightarrow> account_tables d' = account_tables d"
  "update_stop_label r u nm now uid d = Inr (x7, d') \<Longrightarrow> account_tables d' = account_tables d"
  "insert_message r u s now uid d = Inr (x8, d') \<Longrightarrow> account_tables d' = account_tables d"
  "sql_row sel now uid d = Inr (x9, d') \<Longrightarrow> account_tables d' = account_tables d"
  "sql_select sel' now uid d = Inr (x10, d') \<Longrightarrow> account_tables d' = account_tables d"
  by (auto simp: room_statements account_tables_def Let_def split: if_splits option.splits)

lemma keeps_stmt_accounts:
  "(\<And>now uid d x d'. q now uid d = Inr (x, d') \<Longrightarrow> account_tables d' = account_tables d) \<Longrightarrow>
   keeps (\<lambda>w. account_tables (w_db w) = a) (stmt q)"
  by (rule keeps_stmt [of "\<lambda>d. account_tables d = a"]) auto

lemma keeps_tx_accounts [keeps_intros]:
  "keeps (\<lambda>w. account_tables (w_db w) = a) (Store_CreateRoom u code name)"
  "keeps (\<lambda>w. account_tables (w_db w) = a) (Store_TransferOwnership r u v)"
  unfolding Store_CreateRoom_def Store_TransferOwnership_def
  by (rule keeps_tx [of "\<lambda>d. account_tables d = a"];
      auto simp: ok_def fail_def elim!: andThen_InrE dest!: tx_stmt_InrD room_statement_accounts split: if_splits)+

lemma keeps_stores_accounts [keeps_intros]:
  "keeps (\<lambda>w. account_tables (w_db w) = a) (Store_UpsertMember r u)"
  "keeps (\<lambda>w. account_tables (w_db w) = a) (Store_MarkLeft r u)"
  "keeps (\<lambda>w. account_tables (w_db w) = a) (Store_SetMuted r u b)"
  "keeps (\<lambda>w. account_tables (w_db w) = a) (Store_Kick r u)"
  "keeps (\<lambda>w. account_tables (w_db w) = a) (Store_EndRoom r)"
  "keeps (\<lambda>w. account_tables (w_db w) = a) (Store_UpdateName r name)"
  "keeps (\<lambda>w. account_tables (w_db w) = a) (Store_SetDestination r u lat lng name' notes)"
  "keeps (\<lambda>w. account_tables (w_db w) = a) (Store_UpdateDestinationMeta r name' notes)"
  "keeps (\<lambda>w. account_tables (w_db w) = a) (Store_ClearDestination r)"
  "keeps (\<lambda>w. account_tables (w_db w) = a) (Store_UpsertPersonalMarker r u lat lng name')"
  "keeps (\<lambda>w. account_tables (w_db w) = a) (Store_DeletePersonalMarker r u)"
  "keeps (\<lambda>w. account_tables (w_db w) = a) (Store_AddStop r u lat lng name')"
  "keeps (\<lambda>w. account_tables (w_db w) = a) (Store_ClearStops r)"
  "keeps (\<lambda>w. account_tables (w_db w) = a) (Store_RemoveStop r st)"
  "keeps (\<lambda>w. account_tables (w_db w) = a) (Store_UpdateStopLabel r st name')"
  "keeps (\<lambda>w. account_tables (w_db w) = a) (Store_CreateMessage r u body)"
  unfolding store_methods
  by (intro keeps_andThen keeps_map_err keeps_ok keeps_rows_or_not_found keeps_result keeps_stmt_accounts;
      auto simp: account_tables_def dest: room_statement_accounts [unfolded account_tables_def])+

lemma keeps_random_accounts [keeps_intros]:
  "keeps (\<lambda>w. account_tables (w_db w) = a) generateCode"
  by (rule keeps_generateCode [of "\<lambda>d. account_tables d = a"])

lemma keeps_create_accounts [keeps_intros]:
  "keeps (\<lambda>w. account_tables (w_db w) = a) (create_loop k u name)"
  by (induction k) (simp_all add: keeps_intros)

lemmas keeps_db_accounts = keeps_reads [of "\<lambda>d. account_tables d = a" for a] keeps_notify [of "\<lambda>d. account_tables d = a" for a]
  keeps_guards [of "\<lambda>d. account_tables d = a" for a] keeps_broadcastStops [of "\<lambda>d. account_tables d = a" for a]

lemma keeps_service_accounts:
  "keeps (\<lambda>w. account_tables (w_db w) = a) (Service_Create u name)"
  "keeps (\<lambda>w. account_tables (w_db w) = a) (Service_Join tab s u code)"
  "keeps (\<lambda>w. account_tables (w_db w) = a) (Service_Detail s r u)"
  "keeps (\<lambda>w. account_tables (w_db w) = a) (Service_ListActiveForUser s u)"
  "keeps (\<lambda>w. account_tables (w_db w) = a) (Service_SetDestination s r u lat lng name' notes)"
  "keeps (\<lambda>w. account_tables (w_db w) = a) (Service_UpdateDestinationMeta s r u name' notes)"
  "keeps (\<lambda>w. account_tables (w_db w) = a) (Service_ClearDestination s r u)"
  "keeps (\<lambda>w. account_tables (w_db w) = a) (Service_SetPersonalMarker r u lat lng label)"
  "keeps (\<lambda>w. account_tables (w_db w) = a) (Service_ClearPersonalMarker r u)"
  "keeps (\<lambda>w. account_tables (w_db w) = a) (Service_AddStop s r u lat lng label)"
  "keeps (\<lambda>w. account_tables (w_db w) = a) (Service_UpdateStopLabel s r u st label)"
  "keeps (\<lambda>w. account_tables (w_db w) = a) (Service_RemoveStop s r u st)"
  "keeps (\<lambda>w. account_tables (w_db w) = a) (Service_ClearStops s r u)"
  "keeps (\<lambda>w. account_tables (w_db w) = a) (Service_Rename s r u rname)"
  "keeps (\<lambda>w. account_tables (w_db w) = a) (Service_Leave s r u)"
  "keeps (\<lambda>w. account_tables (w_db w) = a) (Service_Mute s r u t muted)"
  "keeps (\<lambda>w. account_tables (w_db w) = a) (Service_Kick s r u t)"
  "keeps (\<lambda>w. account_tables (w_db w) = a) (Service_End s r u)"
  "keeps (\<lambda>w. account_tables (w_db w) = a) (Service_PostMessage s r u body)"
  "keeps (\<lambda>w. account_tables (w_db w) = a) (Service_ListMessages r u before limit)"
  "keeps (\<lambda>w. account_tables (w_db w) = a) (Service_TransferOwnership s r u t)"
  unfolding service_methods by (intro keeps_intros keeps_db_accounts)+

lemma serve_accounts: "account_tables (w_db (snd (serve tab s u op w))) = account_tables (w_db w)"
  by (cases op) (simp_all only: serve.simps snd_outcome,
    (rule keeps_service_accounts [THEN keepsD], rule refl)+)

lemma serve_tables_ok: "tables_ok (w_db w) \<Longrightarrow> tables_ok (w_db (snd (serve tab s u op w)))"
  using serve_db_ok [of w tab s u op] accounts_ok_cong [OF serve_accounts [of tab s u op w]] by (simp add: tables_ok_def)

section \<open>Accounts\<close>

lemma accounts_ok_users:
  assumes "accounts_ok d" "u_id ` set (t_users d) \<subseteq> u_id ` set us"
  shows "accounts_ok (d\<lparr>t_users := us\<rparr>)"
proof -
  have ex: "user_exists (d\<lparr>t_users := us\<rparr>) u" if "user_exists d u" for u using that assms(2) by (auto simp: user_exists_def)
  have opt: "pred_option (user_exists (d\<lparr>t_users := us\<rparr>)) v" if "pred_option (user_exists d) v" for v
    using that ex by (cases v) auto
  show ?thesis using assms(1) ex opt
    by (simp add: accounts_ok_def identities_ok_def feedback_ok_def tokens_ok_def settings_ok_def config_value_def)
qed

lemma tables_ok_users:
  assumes "tables_ok d" "distinct (map u_id us)" "u_id ` set (t_users d) \<subseteq> u_id ` set us"
  shows "tables_ok (d\<lparr>t_users := us\<rparr>)"
  using assms by (simp add: tables_ok_def db_ok_more_users accounts_ok_users)

lemma tables_ok_user_update:
  assumes "tables_ok d" "\<And>r. u_id (f r) = u_id r"
  shows "tables_ok (d\<lparr>t_users := update_where p f (t_users d)\<rparr>)"
proof (rule tables_ok_users [OF assms(1)])
  have m: "map u_id (update_where p f (t_users d)) = map u_id (t_users d)" by (rule map_update_where) (simp add: assms(2))
  then show "distinct (map u_id (update_where p f (t_users d)))"
    using keys_okD(1)[OF tables_okD(1)[OF assms(1)]] by simp
  show "u_id ` set (t_users d) \<subseteq> u_id ` set (update_where p f (t_users d))"
    using arg_cong [OF m, of set] by simp
qed

lemma tables_ok_rooms: "tables_ok d \<Longrightarrow> db_ok d' \<Longrightarrow> account_tables d' = account_tables d \<Longrightarrow> tables_ok d'"
  using accounts_ok_cong [of d' d] by (simp add: tables_ok_def)

lemma db_ok_cong:
  "t_users d' = t_users d \<Longrightarrow> t_rooms d' = t_rooms d \<Longrightarrow> t_room_members d' = t_room_members d \<Longrightarrow>
   t_personal_markers d' = t_personal_markers d \<Longrightarrow> t_room_stops d' = t_room_stops d \<Longrightarrow> t_messages d' = t_messages d \<Longrightarrow>
   db_ok d' = db_ok d"
  by (simp add: db_ok_def keys_ok_def codes_ok_def refs_ok_def owners_ok_def members_ok_def stops_ok_def room_exists_def
      user_exists_def cong: option.pred_cong)

lemma side_congs:
  "t_users d' = t_users d \<Longrightarrow> t_user_identities d' = t_user_identities d \<Longrightarrow> identities_ok d' = identities_ok d"
  "t_users d' = t_users d \<Longrightarrow> t_feedback d' = t_feedback d \<Longrightarrow> feedback_ok d' = feedback_ok d"
  "t_users d' = t_users d \<Longrightarrow> t_push_tokens d' = t_push_tokens d \<Longrightarrow> tokens_ok d' = tokens_ok d"
  "t_app_config d' = t_app_config d \<Longrightarrow> settings_ok d' = settings_ok d"
  by (simp_all add: identities_ok_def feedback_ok_def tokens_ok_def settings_ok_def config_value_def user_exists_def
      cong: option.pred_cong)

definition room_tables where
  "room_tables d = (t_users d, t_rooms d, t_room_members d, t_personal_markers d, t_room_stops d, t_messages d)"

lemma tables_ok_sides:
  assumes "tables_ok d" "room_tables d' = room_tables d"
    "identities_ok d'" "feedback_ok d'" "tokens_ok d'" "settings_ok d'" "distinct (map bc_id (t_broadcasts d'))"
  shows "tables_ok d'"
  using assms db_ok_cong [of d' d] by (simp add: tables_ok_def accounts_ok_def room_tables_def)

lemma tokens_ok_upsert:
  assumes "tokens_ok d" "upsert_token u tok pl now uid d = Inr (x, d')"
  shows "tokens_ok d'"
proof -
  have "distinct (map pt_token (t_push_tokens d'))"
    using assms by (auto simp: tokens_ok_def upsert_token_def map_update_where split: if_splits)
  with assms show ?thesis by (auto simp: tokens_ok_def upsert_token_def in_update_where split: if_splits)
qed

lemma identities_ok_insert:
  assumes "identities_ok d" "insert_identity u p sub e now uid d = Inr (x, d')"
  shows "identities_ok d'"
proof -
  have d': "d' = d\<lparr>t_user_identities := t_user_identities d @
      [\<lparr>ui_id = uid, ui_user_id = u, ui_provider = p, ui_subject = sub, ui_email = e, ui_created_at = now\<rparr>]\<rparr>"
    and new: "uid \<notin> ui_id ` set (t_user_identities d)" "identity_of d p sub = None" "user_exists d u"
      "p \<in> {''google'', ''apple'', ''guest''}"
    using assms(2) by (auto simp: insert_identity_def split: if_splits)
  have "(p, sub) \<notin> (\<lambda>i. (ui_provider i, ui_subject i)) ` set (t_user_identities d)"
    using new(2) by (auto simp: identity_of_def find_None_iff)
  with new assms(1) show ?thesis by (auto simp: d' identities_ok_def)
qed

lemma statement_tables_ok:
  assumes "tables_ok d"
  shows "insert_user name avatar email now uid d = Inr (x1, d') \<Longrightarrow> tables_ok d'"
    "update_display_name name u now uid d = Inr (x1, d') \<Longrightarrow> tables_ok d'"
    "update_email e u now uid d = Inr (n, d') \<Longrightarrow> tables_ok d'"
    "stamp_deleted u now uid d = Inr (x2, d') \<Longrightarrow> tables_ok d'"
    "restore_user u now uid d = Inr (x2, d') \<Longrightarrow> tables_ok d'"
    "end_owned_rooms u now uid d = Inr (x2, d') \<Longrightarrow> tables_ok d'"
    "kick_memberships u now uid d = Inr (x2, d') \<Longrightarrow> tables_ok d'"
    "insert_identity u p sub e' now uid d = Inr (x2, d') \<Longrightarrow> tables_ok d'"
    "insert_feedback u m now uid d = Inr (x3, d') \<Longrightarrow> tables_ok d'"
    "upsert_token u tok pl now uid d = Inr (x2, d') \<Longrightarrow> tables_ok d'"
    "insert_broadcast t b i j k now uid d = Inr (x4, d') \<Longrightarrow> tables_ok d'"
    "semver v \<Longrightarrow> upsert_config KeyMinClientVersion v now uid d = Inr (x2, d') \<Longrightarrow> tables_ok d'"
proof -
  note db = tables_okD(1)[OF assms] and ac = tables_okD(2)[OF assms]
  have id: "identities_ok d" "feedback_ok d" "tokens_ok d" "settings_ok d" "distinct (map bc_id (t_broadcasts d))"
    using ac by (simp_all add: accounts_ok_def)
  show "tables_ok d'" if "insert_user name avatar email now uid d = Inr (x1, d')"
    using that keys_okD(1)[OF db]
    by (auto simp: insert_user_def new_user_def user_exists_def split: if_splits intro!: tables_ok_users [OF assms])
  show "tables_ok d'" if "update_display_name name u now uid d = Inr (x1, d')"
    using that by (auto simp: update_display_name_def split: if_splits option.splits intro!: tables_ok_user_update [OF assms])
  show "tables_ok d'" if "update_email e u now uid d = Inr (n, d')"
    using that by (auto simp: update_email_def split: if_splits intro!: tables_ok_user_update [OF assms])
  show "tables_ok d'" if "stamp_deleted u now uid d = Inr (x2, d')"
    using that by (auto simp: stamp_deleted_def intro!: tables_ok_user_update [OF assms])
  show "tables_ok d'" if "restore_user u now uid d = Inr (x2, d')"
    using that by (auto simp: restore_user_def intro!: tables_ok_user_update [OF assms])
  show "tables_ok d'" if "end_owned_rooms u now uid d = Inr (x2, d')"
    using that db_okD(6)[OF db] refs_okD(5)[OF db]
    by (auto simp: end_owned_rooms_def account_tables_def room_active_def dest_ok_def
        intro!: tables_ok_rooms [OF assms] db_ok_update_rooms [OF db])
  show "tables_ok d'" if "kick_memberships u now uid d = Inr (x2, d')"
    using that db_okD(5)[OF db]
    by (auto simp: kick_memberships_def account_tables_def members_ok_def
        intro!: tables_ok_rooms [OF assms] db_ok_update_members [OF db])
  show "tables_ok d'" if "insert_identity u p sub e' now uid d = Inr (x2, d')"
    using that by (intro tables_ok_sides [OF assms _ identities_ok_insert [OF id(1) that]])
      (auto simp: insert_identity_def room_tables_def id side_congs [of _ d] split: if_splits)
  show "tables_ok d'" if "insert_feedback u m now uid d = Inr (x3, d')"
    using that by (elim insert_feedback_InrD, intro tables_ok_sides [OF assms])
      (use id(2) in \<open>auto simp: room_tables_def id side_congs [of _ d] feedback_ok_def\<close>)
  show "tables_ok d'" if "upsert_token u tok pl now uid d = Inr (x2, d')"
    using that by (intro tables_ok_sides [OF assms _ _ _ tokens_ok_upsert [OF id(3) that]])
      (auto simp: upsert_token_def room_tables_def id side_congs [of _ d] split: if_splits)
  show "tables_ok d'" if "insert_broadcast t b i j k now uid d = Inr (x4, d')"
    using that id(5) by (intro tables_ok_sides [OF assms])
      (auto simp: insert_broadcast_def Let_def room_tables_def id side_congs [of _ d] split: if_splits)
  show "tables_ok d'" if "semver v" "upsert_config KeyMinClientVersion v now uid d = Inr (x2, d')"
  proof -
    have "distinct (map ac_key (t_app_config d'))"
      using that(2) id(4) by (force simp: upsert_config_def settings_ok_def map_update_where split: if_splits)
    then have "settings_ok d'" using that(1) config_value_upsert [OF that(2)] by (simp add: settings_ok_def)
    then show ?thesis using that(2) by (intro tables_ok_sides [OF assms])
      (auto simp: upsert_config_def room_tables_def id side_congs [of _ d] split: if_splits)
  qed
qed

section \<open>Deleting a user row\<close>

lemma owned_roomsD:
  assumes "db_ok d" "r \<in> set (t_rooms d)"
  shows "r_id r \<in> owned_rooms d u \<longleftrightarrow> r_owner_id r = u"
  using assms distinct_map_unique [OF keys_okD(2)[OF assms(1)]] by (fastforce simp: owned_rooms_def)

lemma cascade_owners:
  assumes d: "db_ok d"
  shows "owners_ok (cascade_user u d)"
proof -
  let ?pairs = "\<lambda>d. (\<lambda>r. (r_id r, r_owner_id r)) ` set (t_rooms d)"
  let ?owners = "\<lambda>d. member_key ` set (filter (\<lambda>m. rm_role m = RoleOwner) (t_room_members d))"
  have eq: "?pairs d = ?owners d" using db_okD(4)[OF d] by (simp add: owners_ok_def)
  have "?pairs (cascade_user u d) = {(r, w) \<in> ?pairs d. w \<noteq> u \<and> r \<notin> owned_rooms d u}"
    using owned_roomsD [OF d, of _ u] by (auto simp: cascade_user_def)
  also have "\<dots> = {(r, w) \<in> ?owners d. w \<noteq> u \<and> r \<notin> owned_rooms d u}" by (simp add: eq)
  also have "\<dots> = ?owners (cascade_user u d)" by (auto simp: cascade_user_def)
  finally show ?thesis by (simp add: owners_ok_def)
qed

lemma cascade_exists:
  "user_exists (cascade_user u d) v \<longleftrightarrow> user_exists d v \<and> v \<noteq> u"
  "room_exists (cascade_user u d) r \<longleftrightarrow> room_exists d r \<and> r \<notin> owned_rooms d u"
  by (auto simp: user_exists_def room_exists_def cascade_user_def)

lemma cascade_refs:
  assumes d: "db_ok d" and n: "\<not> still_named u (cascade_user u d)"
  shows "refs_ok (cascade_user u d)"
proof -
  have opt: "pred_option (user_exists (cascade_user u d)) v" if "pred_option (user_exists d) v" "v \<noteq> Some u" for v
    using that by (cases v) (auto simp: cascade_exists)
  have rooms: "user_exists (cascade_user u d) (r_owner_id r)" "pred_option (user_exists (cascade_user u d)) (r_dest_set_by r)"
    if "r \<in> set (t_rooms (cascade_user u d))" for r
  proof -
    have r: "r \<in> set (t_rooms d)" "r_id r \<notin> owned_rooms d u" using that by (simp_all add: cascade_user_def)
    show "user_exists (cascade_user u d) (r_owner_id r)"
      using r owned_roomsD [OF d r(1)] db_okD(3)[OF d] by (simp add: cascade_exists refs_ok_def)
    show "pred_option (user_exists (cascade_user u d)) (r_dest_set_by r)"
      using that r(1) n db_okD(3)[OF d] by (intro opt) (auto simp: refs_ok_def still_named_def)
  qed
  have stops: "pred_option (user_exists (cascade_user u d)) (st_created_by s)" if "s \<in> set (t_room_stops (cascade_user u d))" for s
    using that n db_okD(3)[OF d] by (intro opt) (auto simp: refs_ok_def still_named_def cascade_user_def)
  have "refs_ok d" by (rule db_okD(3)[OF d])
  then show ?thesis using rooms stops
    by (simp add: refs_ok_def cascade_exists [of u d]) (simp add: cascade_user_def)
qed

lemma cascade_db_ok:
  assumes d: "db_ok d" and n: "\<not> still_named u (cascade_user u d)"
  shows "db_ok (cascade_user u d)"
proof (rule db_okI [OF _ _ cascade_refs [OF d n] cascade_owners [OF d]])
  show "keys_ok (cascade_user u d)"
    using db_okD(1)[OF d] by (simp add: keys_ok_def cascade_user_def distinct_map_delete_where)
  show "codes_ok (cascade_user u d)"
    using db_okD(2)[OF d] by (auto simp: codes_ok_def cascade_user_def inj_on_def)
  show "dest_ok r" if "r \<in> set (t_rooms (cascade_user u d))" for r
    using that db_okD(6)[OF d] by (simp add: cascade_user_def)
  show "members_ok (cascade_user u d)"
    using db_okD(5)[OF d] by (auto simp: members_ok_def cascade_user_def)
  show "stops_ok (cascade_user u d)"
    using db_okD(7)[OF d] by (auto simp: stops_ok_def cascade_user_def distinct_map_delete_where list_all_iff)
qed

lemma cascade_accounts_ok:
  assumes "accounts_ok d"
  shows "accounts_ok (cascade_user u d)"
proof -
  have i: "identities_ok d" "feedback_ok d" "tokens_ok d" "settings_ok d" "distinct (map bc_id (t_broadcasts d))"
    using assms by (simp_all add: accounts_ok_def)
  have "identities_ok (cascade_user u d)" using i(1)
    by (simp add: identities_ok_def cascade_exists) (simp add: cascade_user_def distinct_map_delete_where)
  moreover have "tokens_ok (cascade_user u d)" using i(3)
    by (simp add: tokens_ok_def cascade_exists) (simp add: cascade_user_def distinct_map_delete_where)
  moreover have "feedback_ok (cascade_user u d)"
  proof -
    have "map fb_id (t_feedback (cascade_user u d)) = map fb_id (t_feedback d)"
      by (simp add: cascade_user_def map_update_where)
    moreover have "pred_option (user_exists (cascade_user u d)) (fb_user_id f)" if f: "f \<in> set (t_feedback (cascade_user u d))" for f
    proof -
      obtain f0 where "f0 \<in> set (t_feedback d)" "f = (if fb_user_id f0 = Some u then f0\<lparr>fb_user_id := None\<rparr> else f0)"
        using f by (auto simp: cascade_user_def in_update_where)
      with i(2) show ?thesis by (cases "fb_user_id f0") (auto simp: feedback_ok_def cascade_exists)
    qed
    ultimately show ?thesis using i(2) by (simp add: feedback_ok_def)
  qed
  moreover have "settings_ok (cascade_user u d)" using i(4) side_congs(4)[of "cascade_user u d" d] by (simp add: cascade_user_def)
  ultimately show ?thesis using i(5) by (simp add: accounts_ok_def) (simp add: cascade_user_def)
qed

lemma delete_user_tables_ok:
  "tables_ok d \<Longrightarrow> delete_user u now uid d = Inr (x, d') \<Longrightarrow> tables_ok d'"
  by (auto simp: delete_user_def tables_ok_def cascade_db_ok cascade_accounts_ok split: if_splits)

end
