(* ===== verification/AccountSafety.thy ===== *)
theory AccountSafety
  imports AccountInvariant
begin

text \<open>
  The authentication, feedback, push, configuration and administration handlers
  keep the invariant of the tables and leave everything outside the tables as it
  was, for every schedule.
\<close>

section \<open>Commands on the tables only\<close>

text \<open>The tables satisfy \<open>I\<close> and the rest of the state is \<open>z\<close>.\<close>

definition over :: "(db \<Rightarrow> bool) \<Rightarrow> 'z \<Rightarrow> 'z world_scheme \<Rightarrow> bool" where
  "over I z w \<longleftrightarrow> I (w_db w) \<and> world.more w = z"

lemma overD: "over I z w \<Longrightarrow> I (w_db w)" "over I z w \<Longrightarrow> world.more w = z"
  by (simp_all add: over_def)

lemma over_stmt:
  assumes "\<And>now uid d x d'. I d \<Longrightarrow> q now uid d = Inr (x, d') \<Longrightarrow> I d'"
  shows "keeps (over I z) (stmt q)"
  by (rule keepsI) (auto simp: over_def stmt_def assms split: option.splits sum.splits)

lemma over_tx_stmt:
  assumes "\<And>now uid d x d'. I d \<Longrightarrow> q now uid d = Inr (x, d') \<Longrightarrow> I d'"
  shows "keeps (over I z) (tx_stmt now q)"
  by (rule keepsI) (auto simp: over_def tx_stmt_def assms split: option.splits sum.splits)

lemma over_tx:
  assumes "\<And>now. keeps (over I z) (body now)"
  shows "keeps (over I z) (tx body)"
proof (rule keepsI)
  fix w assume w: "over I z w"
  obtain r v where b: "body (tk_now (tick_of w)) ((advance w)\<lparr>w_aborted := False\<rparr>) = (r, v)" by force
  have "over I z ((advance w)\<lparr>w_aborted := False\<rparr>)" using w by (simp add: over_def)
  from keepsD [OF assms this, of "tk_now (tick_of w)"] b have "over I z v" by simp
  with w b show "over I z (snd (tx body w))"
    by (auto simp: over_def tx_def split: option.splits sum.splits)
qed

lemma over_reads [keeps_intros]:
  "keeps (over I z) (stmt (sql_select f))" "keeps (over I z) (stmt (sql_row g))"
  "keeps (over I z) (tx_stmt now (sql_row g))"
  by (rule over_stmt over_tx_stmt; simp add: sql_select_def sql_row_def split: option.splits)+

lemma snd_admin_respond [simp]: "snd (admin_respond m w) = snd (m w)"
  by (simp add: admin_respond_def split: prod.splits sum.splits)

lemma over_admin [keeps_intros]:
  "keeps I m \<Longrightarrow> keeps I (or_500 m)" "keeps I m' \<Longrightarrow> keeps I (or_zero x m')" "keeps I (admin_id L s)"
  unfolding or_500_def or_zero_def admin_id_def by (intro keeps_intros; assumption?)+

lemma over_run: "over I z w \<Longrightarrow> keeps (over I z) m \<Longrightarrow> over I z (snd (m w))"
  by (rule keepsD)

lemma over_select_identity [keeps_intros]: "keeps (over I z) (tx_stmt now (select_identity p s))"
  by (rule over_tx_stmt) (auto simp: select_identity_def sql_row_def split: if_splits option.splits)

lemma over_store_reads [keeps_intros]:
  "keeps (over I z) (AppConfig_Get key)"
  "keeps (over I z) (FeedbackStore_List pgts limit before)"
  "keeps (over I z) (queryUsers ilike q n)"
  "keeps (over I z) (LoadUser u)"
  unfolding AppConfig_Get_def FeedbackStore_List_def queryUsers_def LoadUser_def
  by ((intro keeps_intros over_stmt; auto simp: sql_row_def Let_def split: if_splits option.splits)+)

lemma Middleware_over:
  assumes "over I z w" and "\<And>u w. over I z w \<Longrightarrow> over I z (snd (nxt u w))"
  shows "over I z (snd (Middleware L s now header nxt w))"
proof -
  have "over I z v" if "LoadUser u w = (r, v)" for u r v
    using keepsD [OF over_store_reads(4) assms(1), of u] that by simp
  with assms show ?thesis
    by (auto simp: Middleware_def split: sum.splits prod.splits)
qed

lemma requireAuth_over:
  "over I z w \<Longrightarrow> (\<And>w. over I z w \<Longrightarrow> over I z (snd (nxt w))) \<Longrightarrow> over I z (snd (requireAuth mac m now r nxt w))"
  by (simp add: requireAuth_def)

section \<open>Handlers that delete nobody\<close>

text \<open>
  A property of the tables that the statements of sign-in, profile edits, feedback,
  push registration, broadcasts and settings keep is kept by the handlers that
  send them.
\<close>

definition delete_tokens :: "string list \<Rightarrow> db \<Rightarrow> db" where
  "delete_tokens ts d = d\<lparr>t_push_tokens := delete_where (\<lambda>t. pt_token t \<in> set ts) (t_push_tokens d)\<rparr>"

text \<open>The values the handlers have checked before they send a statement.\<close>

definition name_ok :: "string \<Rightarrow> bool" where
  "name_ok s \<longleftrightarrow> s \<noteq> [] \<and> RuneCountInString s \<le> 40"

definition cut_ok :: "nat \<Rightarrow> string \<Rightarrow> bool" where
  "cut_ok n s \<longleftrightarrow> s \<noteq> [] \<and> length s \<le> n"

definition token_ok :: "string \<Rightarrow> bool" where
  "token_ok s \<longleftrightarrow> HasPrefix s ''ExponentPushToken['' \<or> HasPrefix s ''ExpoPushToken[''"

lemma RuneCount_le_length: "RuneCountInString s \<le> length s"
  unfolding RuneCountInString_def
proof (induction s rule: runes.induct)
  case (1 s)
  show ?case
  proof (cases "s = []")
    case False
    with 1 decode_rune_width [OF False] show ?thesis by (subst runes.simps) (auto simp del: decode_rune.simps)
  qed simp
qed

lemma cut_name: "cut_ok 40 s \<Longrightarrow> name_ok s"
  using RuneCount_le_length [of s] by (simp add: cut_ok_def name_ok_def)

lemma cut_take: "s \<noteq> [] \<Longrightarrow> 0 < n \<Longrightarrow> cut_ok n (if length s > n then take n s else s)"
  by (auto simp: cut_ok_def)

lemma oauth_name_ok: "name_ok (oauth_name i req)"
  unfolding oauth_name_def Let_def by (intro cut_name cut_take) simp_all

lemma patch_name_ok:
  "s \<noteq> [] \<Longrightarrow> name_ok (if RuneCountInString s > 40 then string_of_runes (take 40 (runes s)) else s)"
  using list_all_take [OF runes_valid, of 40 s]
  by (auto simp: name_ok_def RuneCountInString_def runes_string_of_runes)

lemma guest_name_ok: "s \<noteq> [] \<Longrightarrow> name_ok (if length s > 40 then take 40 s else s)"
  by (intro cut_name cut_take) simp_all

lemma feedback_cut_ok:
  "s \<noteq> [] \<Longrightarrow> cut_ok 2000 (if length s > feedback_maxMessageLen then take feedback_maxMessageLen s else s)"
  unfolding feedback_maxMessageLen_def by (rule cut_take) simp_all

lemmas checked = cut_take oauth_name_ok patch_name_ok guest_name_ok feedback_cut_ok

locale account_statements =
  fixes I :: "db \<Rightarrow> bool"
  assumes insert_user: "I d \<Longrightarrow> name_ok name \<Longrightarrow> insert_user name avatar email now uid d = Inr (x1, d') \<Longrightarrow> I d'"
    and update_display_name: "I d \<Longrightarrow> name_ok name \<Longrightarrow> update_display_name name u now uid d = Inr (x1, d') \<Longrightarrow> I d'"
    and update_email: "I d \<Longrightarrow> update_email e u now uid d = Inr (n, d') \<Longrightarrow> I d'"
    and insert_identity: "I d \<Longrightarrow> insert_identity u p sub email now uid d = Inr (x2, d') \<Longrightarrow> I d'"
    and insert_feedback: "I d \<Longrightarrow> cut_ok 2000 m \<Longrightarrow> insert_feedback u m now uid d = Inr (x3, d') \<Longrightarrow> I d'"
    and upsert_token: "I d \<Longrightarrow> token_ok tok \<Longrightarrow> upsert_token u tok pl now uid d = Inr (x2, d') \<Longrightarrow> I d'"
    and delete_tokens: "I d \<Longrightarrow> I (delete_tokens ts d)"
    and insert_broadcast: "I d \<Longrightarrow> cut_ok 80 t \<Longrightarrow> cut_ok 240 b \<Longrightarrow> insert_broadcast t b i j k now uid d = Inr (x4, d') \<Longrightarrow> I d'"
    and upsert_version: "I d \<Longrightarrow> semver v \<Longrightarrow> upsert_config KeyMinClientVersion v now uid d = Inr (x2, d') \<Longrightarrow> I d'"
    and restore_user: "I d \<Longrightarrow> restore_user u now uid d = Inr (x2, d') \<Longrightarrow> I d'"
begin

lemma over_statements [keeps_intros]:
  "name_ok name \<Longrightarrow> keeps (over I z) (stmt (insert_user name avatar email))"
  "name_ok name \<Longrightarrow> keeps (over I z) (stmt (update_display_name name u))"
  "keeps (over I z) (stmt (restore_user u))"
  "cut_ok 2000 m \<Longrightarrow> keeps (over I z) (stmt (insert_feedback u m))"
  "token_ok tok \<Longrightarrow> keeps (over I z) (stmt (upsert_token u tok pl))"
  "cut_ok 80 t \<Longrightarrow> cut_ok 240 b \<Longrightarrow> keeps (over I z) (stmt (insert_broadcast t b i j k))"
  "name_ok name \<Longrightarrow> keeps (over I z) (tx_stmt now (insert_user name avatar email))"
  "keeps (over I z) (tx_stmt now (insert_identity u p sub email))"
  "keeps (over I z) (tx_stmt now (update_email e u))"
  by (rule over_stmt over_tx_stmt; blast intro: insert_user update_display_name restore_user insert_feedback upsert_token
      insert_broadcast insert_identity update_email)+

lemma over_DeleteTokens [keeps_intros]: "keeps (over I z) (PushStore_DeleteTokens ts)"
  unfolding PushStore_DeleteTokens_def
  by (intro keeps_intros over_stmt) (auto simp: delete_tokens [unfolded delete_tokens_def] split: if_splits)

lemma over_upsertOAuthUser [keeps_intros]: "name_ok (IdDisplayName i) \<Longrightarrow> keeps (over I z) (upsertOAuthUser i)"
  unfolding upsertOAuthUser_def resolve_identity_def by (intro over_tx keeps_intros)

lemma auth_handlers_over:
  assumes "over I z w"
  shows "over I z (snd (HandleGuest L s now gbody w))"
    "over I z (snd (HandleMe ctx w))"
    "over I z (snd (HandlePatchMe ctx pbody w))"
    "over I z (snd (HandleGoogle L s now obody w))"
    "over I z (snd (HandleApple L s now obody w))"
proof -
  have oauth: "over I z (snd (handleOAuth L s now obody v w))" for v
    unfolding handleOAuth_def snd_respond by (rule over_run [OF assms]) (intro keeps_intros; simp add: checked)
  show "over I z (snd (HandleGuest L s now gbody w))"
    unfolding HandleGuest_def snd_respond Let_def by (rule over_run [OF assms]) (intro keeps_intros; simp add: checked)
  show "over I z (snd (HandleMe ctx w))"
    unfolding HandleMe_def snd_respond by (rule over_run [OF assms]) (intro keeps_intros)
  show "over I z (snd (HandlePatchMe ctx pbody w))"
    unfolding HandlePatchMe_def snd_respond Let_def by (rule over_run [OF assms]) (intro keeps_intros; simp add: checked)
  show "over I z (snd (HandleGoogle L s now obody w))" "over I z (snd (HandleApple L s now obody w))"
    using oauth assms by (auto simp: HandleGoogle_def HandleApple_def fail_def split: option.splits)
qed

lemma app_handlers_over:
  assumes "over I z w"
  shows "over I z (snd (Feedback_Submit ctx body w))"
    "over I z (snd (Push_Save tab ctx rbody w))"
    "over I z (snd (AppConfig_Handler w))"
  unfolding Feedback_Submit_def Push_Save_def AppConfig_Handler_def snd_respond Let_def FeedbackStore_Create_def
    PushStore_Upsert_def MinClientVersion_def
  by (rule over_run [OF assms], (intro keeps_intros checked; (assumption | simp add: token_ok_def)?))+

lemma settings_over:
  assumes "over I z w"
  shows "over I z (snd (settingsSubmit m form w))"
proof -
  have "keeps (over I z) (AppConfig_Set KeyMinClientVersion v)" if "semver v" for v
    unfolding AppConfig_Set_def by (rule over_stmt) (rule upsert_version [OF _ that])
  then show ?thesis
    unfolding settingsSubmit_def snd_admin_respond Let_def by (intro over_run [OF assms] keeps_intros) simp_all
qed

lemma admin_handlers_over:
  assumes "over I z w"
  shows "over I z (snd (dashboard pgts w))"
    "over I z (snd (feedbackList pgts w))"
    "over I z (snd (recipientCount w))"
    "over I z (snd (broadcastList w))"
    "over I z (snd (broadcastNewForm w))"
    "over I z (snd (broadcastSend svc expo form w))"
    "over I z (snd (usersList ilike q w))"
    "over I z (snd (userDetail L s w))"
    "over I z (snd (userRestore L s w))"
    "over I z (snd (settingsPage m flash err w))"
  unfolding dashboard_def feedbackList_def recipientCount_def broadcastList_def broadcastNewForm_def broadcastSend_def
    usersList_def userDetail_def userRestore_def settingsPage_def snd_admin_respond
    FeedbackStore_Count_def PushStore_Count_def BroadcastStore_Count_def countUsers_def BroadcastStore_List_def
    PushStore_AllTokens_def BroadcastStore_Insert_def fetchUser_def MinClientVersion_def Let_def
  by (rule over_run [OF assms], (intro keeps_intros checked; simp?))+

end

section \<open>Handlers that delete accounts\<close>

locale account_deletions = account_statements +
  assumes stamp_deleted: "I d \<Longrightarrow> stamp_deleted u now uid d = Inr (x2, d') \<Longrightarrow> I d'"
    and end_owned_rooms: "I d \<Longrightarrow> end_owned_rooms u now uid d = Inr (x2, d') \<Longrightarrow> I d'"
    and kick_memberships: "I d \<Longrightarrow> kick_memberships u now uid d = Inr (x2, d') \<Longrightarrow> I d'"
    and delete_user: "I d \<Longrightarrow> delete_user u now uid d = Inr (x2, d') \<Longrightarrow> I d'"
begin

lemma over_deletions [keeps_intros]:
  "keeps (over I z) (stmt (stamp_deleted u))"
  "keeps (over I z) (stmt (end_owned_rooms u))"
  "keeps (over I z) (stmt (kick_memberships u))"
  "keeps (over I z) (stmt (delete_user u))"
  "keeps (over I z) (tx_stmt now (stamp_deleted u))"
  "keeps (over I z) (tx_stmt now (end_owned_rooms u))"
  "keeps (over I z) (tx_stmt now (kick_memberships u))"
  by (rule over_stmt over_tx_stmt; erule (1) stamp_deleted end_owned_rooms kick_memberships delete_user)+

lemma deletion_handlers_over:
  assumes "over I z w"
  shows "over I z (snd (HandleDeleteAccount ctx w))"
    "over I z (snd (userHardDelete L r s w))"
    "over I z (snd (userSoftDelete L s w))"
  unfolding HandleDeleteAccount_def userHardDelete_def userSoftDelete_def snd_admin_respond snd_respond
  by (rule over_run [OF assms], intro keeps_intros over_tx)+

end

section \<open>The invariant of the tables\<close>

lemma tables_ok_delete_tokens:
  assumes "tables_ok d"
  shows "tables_ok (delete_tokens ts d)"
proof -
  let ?d = "delete_tokens ts d"
  have ac: "accounts_ok d" by (rule tables_okD(2)[OF assms])
  then have "tokens_ok ?d" by (simp add: accounts_ok_def tokens_ok_def distinct_map_delete_where delete_tokens_def)
  moreover have "identities_ok ?d = identities_ok d" "feedback_ok ?d = feedback_ok d" "settings_ok ?d = settings_ok d"
    by (rule side_congs; simp add: delete_tokens_def)+
  ultimately show ?thesis using ac
    by (intro tables_ok_sides [OF assms]) (simp_all add: room_tables_def accounts_ok_def delete_tokens_def)
qed

interpretation tables: account_deletions tables_ok
proof unfold_locales
  show "tables_ok d \<Longrightarrow> semver v \<Longrightarrow> upsert_config KeyMinClientVersion v now uid d = Inr (x2, d') \<Longrightarrow> tables_ok d'"
    for d v now uid x2 d' by (rule statement_tables_ok(12))
qed (erule (1) statement_tables_ok(1-11) delete_user_tables_ok | erule tables_ok_delete_tokens)+

section \<open>Rooms and memberships\<close>

text \<open>Only the deletions touch the rooms and the memberships.\<close>

definition seats :: "db \<Rightarrow> room_row list \<times> member_row list" where
  "seats d = (t_rooms d, t_room_members d)"

interpretation rooms: account_statements "\<lambda>d. seats d = a"
  by unfold_locales (auto simp: seats_def insert_user_def update_display_name_def update_email_def insert_identity_def
    upsert_token_def delete_tokens_def insert_broadcast_def upsert_config_def restore_user_def Let_def
    elim!: insert_feedback_InrD split: if_splits option.splits)

end
