(* ===== verification/Server.thy ===== *)
theory Server
  imports AccountSafety Sockets
begin

text \<open>
  \<open>cmd/server/main.go\<close> and \<open>internal/policy\<close>: how the process is put
  together from its configuration, the routes with the two gates in front of
  them, the CORS middleware, and one HTTP request from the middleware to the
  answer.  The chi router, which matches a path against the patterns, is not part
  of the repository: a request arrives with the route it was matched to and the
  values of the path parameters.
\<close>

section \<open>Legal pages\<close>

record PolicyConfig =
  pc_AppName :: string
  pc_ContactEmail :: string
  pc_EffectiveDate :: string

text \<open>\<open>pages\<close> is the outcome of parsing the embedded templates.\<close>

definition Policy_New :: "(string + unit) \<Rightarrow> PolicyConfig \<Rightarrow> go_error + PolicyConfig" where
  "Policy_New pages cfg =
     (let cfg1 = (if TrimSpace (pc_AppName cfg) = [] then cfg\<lparr>pc_AppName := ''Convoy''\<rparr> else cfg) in
      if TrimSpace (pc_ContactEmail cfg1) = []
      then Inl (OtherError ''policy: ContactEmail is required (set PRIVACY_CONTACT_EMAIL)'')
      else
        (let cfg2 = (if TrimSpace (pc_EffectiveDate cfg1) = [] then cfg1\<lparr>pc_EffectiveDate := ''today''\<rparr> else cfg1)
         in case pages of Inl e \<Rightarrow> Inl (OtherError e) | Inr _ \<Rightarrow> Inr cfg2))"

text \<open>A page is the template and the values it is given.\<close>

datatype policy_page = PolicyPage string PolicyConfig

definition Policy_render :: "PolicyConfig \<Rightarrow> string \<Rightarrow> policy_page" where
  "Policy_render m name = PolicyPage name m"

definition PolicyHandler :: "PolicyConfig \<Rightarrow> policy_page" where
  "PolicyHandler m = Policy_render m ''privacy.html''"

definition DeleteAccountHandler :: "PolicyConfig \<Rightarrow> policy_page" where
  "DeleteAccountHandler m = Policy_render m ''delete_account.html''"

section \<open>Start-up\<close>

text \<open>\<open>jwks\<close> is the outcome of fetching the key set of a provider.\<close>

definition NewGoogleVerifier :: "(string + unit) \<Rightarrow> string list \<Rightarrow> go_error + string list" where
  "NewGoogleVerifier jwks audiences =
     (if audiences = [] then Inl (OtherError ''google verifier: at least one audience (client id) required'')
      else case jwks of Inl e \<Rightarrow> Inl (OtherError e) | Inr _ \<Rightarrow> Inr audiences)"

definition NewAppleVerifier :: "(string + unit) \<Rightarrow> string list \<Rightarrow> go_error + string list" where
  "NewAppleVerifier jwks audiences =
     (if audiences = [] then Inl (OtherError ''apple verifier: at least one audience required'')
      else case jwks of Inl e \<Rightarrow> Inl (OtherError e) | Inr _ \<Rightarrow> Inr audiences)"

text \<open>What start-up takes from the outside: the two key sets and the two sets of templates.\<close>

record startup =
  su_google :: "string + unit"
  su_apple :: "string + unit"
  su_admin :: "string + unit"
  su_policy :: "string + unit"

record server =
  sv_auth :: AuthService
  sv_livekit :: LivekitConfig
  sv_expo :: ExpoClient
  sv_origins :: "string list"
  sv_admin :: "AdminConfig option"
  sv_policy :: "PolicyConfig option"

text \<open>
  The clock of the model counts microseconds, durations of the configuration are
  nanoseconds.  A part whose constructor fails is logged and left out.
\<close>

definition main_auth :: "startup \<Rightarrow> Config \<Rightarrow> AuthService" where
  "main_auth su cfg =
     \<lparr>as_secret = cfg_JWTSecret cfg, as_ttl = cfg_JWTTTL cfg div 1000,
      as_google = (if length (cfg_GoogleClientIDs cfg) > 0
        then (case NewGoogleVerifier (su_google su) (cfg_GoogleClientIDs cfg) of Inl _ \<Rightarrow> None | Inr v \<Rightarrow> Some v) else None),
      as_apple = (if length (cfg_AppleClientIDs cfg) > 0
        then (case NewAppleVerifier (su_apple su) (cfg_AppleClientIDs cfg) of Inl _ \<Rightarrow> None | Inr v \<Rightarrow> Some v) else None)\<rparr>"

definition main_policy :: "startup \<Rightarrow> Config \<Rightarrow> PolicyConfig option" where
  "main_policy su cfg =
     (if cfg_PrivacyContactEmail cfg \<noteq> [] then
        (case Policy_New (su_policy su) \<lparr>pc_AppName = cfg_AppName cfg, pc_ContactEmail = cfg_PrivacyContactEmail cfg,
            pc_EffectiveDate = cfg_PrivacyEffectiveDate cfg\<rparr> of Inl _ \<Rightarrow> None | Inr pol \<Rightarrow> Some pol)
      else None)"

definition main_admin :: "startup \<Rightarrow> Config \<Rightarrow> AdminConfig option" where
  "main_admin su cfg =
     (case Admin_New (su_admin su) \<lparr>ad_Password = cfg_AdminPassword cfg, ad_CookieSecret = cfg_AdminCookieSecret cfg,
         ad_PoolSet = True, ad_AppCfgSet = True\<rparr> of Inl _ \<Rightarrow> None | Inr m \<Rightarrow> Some m)"

definition main_server :: "startup \<Rightarrow> Config \<Rightarrow> server" where
  "main_server su cfg =
     \<lparr>sv_auth = main_auth su cfg,
      sv_livekit = \<lparr>lk_URL = cfg_LiveKitURL cfg, lk_APIKey = cfg_LiveKitAPIKey cfg, lk_APISecret = cfg_LiveKitAPISecret cfg\<rparr>,
      sv_expo = \<lparr>ec_accessToken = cfg_ExpoAccessToken cfg\<rparr>,
      sv_origins = cfg_AllowedOrigins cfg,
      sv_admin = main_admin su cfg,
      sv_policy = main_policy su cfg\<rparr>"

section \<open>Routes\<close>

datatype room_endpoint =
    R_listActive | R_create | R_join | R_get | R_rename | R_leave | R_putDestination | R_patchDestination
  | R_deleteDestination | R_putPersonalMarker | R_deletePersonalMarker | R_addStop | R_clearStops | R_patchStop
  | R_removeStop | R_listMessages | R_postMessage | R_mute | R_kick | R_transferOwner | R_end | R_voiceToken

definition Routes :: "(string \<times> string \<times> room_endpoint) list" where
  "Routes = [
     (''GET'', ''/active'', R_listActive),
     (''POST'', ''/'', R_create),
     (''POST'', ''/join'', R_join),
     (''GET'', ''/{roomID}'', R_get),
     (''PUT'', ''/{roomID}/name'', R_rename),
     (''POST'', ''/{roomID}/leave'', R_leave),
     (''PUT'', ''/{roomID}/destination'', R_putDestination),
     (''PATCH'', ''/{roomID}/destination'', R_patchDestination),
     (''DELETE'', ''/{roomID}/destination'', R_deleteDestination),
     (''PUT'', ''/{roomID}/personal-marker'', R_putPersonalMarker),
     (''DELETE'', ''/{roomID}/personal-marker'', R_deletePersonalMarker),
     (''POST'', ''/{roomID}/stops'', R_addStop),
     (''DELETE'', ''/{roomID}/stops'', R_clearStops),
     (''PATCH'', ''/{roomID}/stops/{stopID}'', R_patchStop),
     (''DELETE'', ''/{roomID}/stops/{stopID}'', R_removeStop),
     (''GET'', ''/{roomID}/messages'', R_listMessages),
     (''POST'', ''/{roomID}/messages'', R_postMessage),
     (''POST'', ''/{roomID}/members/{userID}/mute'', R_mute),
     (''POST'', ''/{roomID}/members/{userID}/kick'', R_kick),
     (''POST'', ''/{roomID}/members/{userID}/owner'', R_transferOwner),
     (''DELETE'', ''/{roomID}'', R_end),
     (''POST'', ''/{roomID}/voice/token'', R_voiceToken)]"

datatype admin_endpoint =
    A_dashboard | A_feedbackList | A_broadcastList | A_broadcastNewForm | A_broadcastSend | A_recipientCount
  | A_usersList | A_userDetail | A_userSoftDelete | A_userRestore | A_userHardDelete | A_settingsPage | A_settingsSubmit

datatype login_endpoint = L_loginPage | L_loginSubmit | L_logout

text \<open>The two groups of \<open>Mount\<close>: the pages in front of the gate and those behind it.\<close>

definition Mount_open :: "(string \<times> string \<times> login_endpoint) list" where
  "Mount_open = [(''GET'', ''/login'', L_loginPage), (''POST'', ''/login'', L_loginSubmit), (''POST'', ''/logout'', L_logout)]"

definition Mount_gated :: "(string \<times> string \<times> admin_endpoint) list" where
  "Mount_gated = [
     (''GET'', ''/'', A_dashboard),
     (''GET'', ''/feedback'', A_feedbackList),
     (''GET'', ''/broadcasts'', A_broadcastList),
     (''GET'', ''/broadcasts/new'', A_broadcastNewForm),
     (''POST'', ''/broadcasts'', A_broadcastSend),
     (''GET'', ''/partials/recipient-count'', A_recipientCount),
     (''GET'', ''/users'', A_usersList),
     (''GET'', ''/users/{id}'', A_userDetail),
     (''POST'', ''/users/{id}/soft-delete'', A_userSoftDelete),
     (''POST'', ''/users/{id}/restore'', A_userRestore),
     (''POST'', ''/users/{id}/hard-delete'', A_userHardDelete),
     (''GET'', ''/settings'', A_settingsPage),
     (''POST'', ''/settings'', A_settingsSubmit)]"

text \<open>The group of \<open>main\<close> behind the authentication middleware, and all routes.\<close>

datatype user_endpoint = U_me | U_patchMe | U_deleteAccount | U_rooms room_endpoint | U_feedback | U_pushTokens

datatype endpoint =
    E_healthz | E_root | E_config | E_policy | E_deleteAccountPage | E_guest | E_google | E_apple
  | E_user user_endpoint | E_login login_endpoint | E_admin admin_endpoint | E_ws

definition mounted :: "string \<Rightarrow> ('a \<Rightarrow> 'b) \<Rightarrow> (string \<times> string \<times> 'a) list \<Rightarrow> (string \<times> string \<times> 'b) list" where
  "mounted base f rs = map (\<lambda>(m, p, e). (m, base @ p, f e)) rs"

definition user_routes :: "(string \<times> string \<times> user_endpoint) list" where
  "user_routes = [(''GET'', ''/me'', U_me), (''PATCH'', ''/me'', U_patchMe), (''DELETE'', ''/account'', U_deleteAccount)] @
     mounted ''/rooms'' U_rooms Routes @ [(''POST'', ''/feedback'', U_feedback), (''POST'', ''/push-tokens'', U_pushTokens)]"

definition main_routes :: "server \<Rightarrow> (string \<times> string \<times> endpoint) list" where
  "main_routes sv =
     [(''GET'', ''/healthz'', E_healthz), (''GET'', ''/'', E_root), (''GET'', ''/config'', E_config)] @
     (if sv_policy sv \<noteq> None then [(''GET'', ''/policy'', E_policy), (''GET'', ''/delete-account'', E_deleteAccountPage)] else []) @
     [(''POST'', ''/auth/guest'', E_guest), (''POST'', ''/auth/google'', E_google), (''POST'', ''/auth/apple'', E_apple)] @
     mounted [] E_user user_routes @
     (if sv_admin sv \<noteq> None
      then mounted ''/admin'' E_login Mount_open @ mounted ''/admin'' E_admin Mount_gated else []) @
     [(''*'', ''/ws'', E_ws)]"

section \<open>Requests\<close>

text \<open>
  What the handlers read of a request.  The bodies are given as the decoder of
  the standard library presents them for the type the handler asks for:
  \<open>rq_text\<close> for the types with one text field.
\<close>

record http_request =
  rq_Method :: string
  rq_Origin :: string
  rq_Authorization :: string
  rq_URLParam :: "string \<Rightarrow> string"
  rq_Query :: "string \<Rightarrow> string"
  rq_Admin :: admin_request
  rq_guest :: "string + guestRequest"
  rq_oauth :: "string + oauthRequest"
  rq_text :: "string + string"
  rq_name :: "string option"
  rq_muted :: "string + bool"
  rq_destination :: "string + destinationReq"
  rq_destinationMeta :: "string + destinationMetaReq"
  rq_point :: "string + pointReq"
  rq_label :: "string + string option"
  rq_register :: "string + registerReq"
  rq_form :: "string + (string \<Rightarrow> string)"
  rq_upgraded :: bool

text \<open>Code outside the repository that the handlers call.\<close>

record platform =
  pf_libs :: libs
  pf_case :: "nat \<Rightarrow> nat"
  pf_ToJWT :: "AccessToken \<Rightarrow> string + string"
  pf_mac :: mac
  pf_pgts :: "string \<Rightarrow> timestamp option"
  pf_ilike :: "string \<Rightarrow> string \<Rightarrow> bool"
  pf_expo :: expo_service

datatype answer =
    Ans_text nat string
  | Ans_policy policy_page
  | Ans_config "PublicConfig response"
  | Ans_auth "auth_body response"
  | Ans_rooms "room_body response"
  | Ans_feedback "Entry response"
  | Ans_push "unit response"
  | Ans_login "login_page admin_answer \<times> cookie option"
  | Ans_admin "admin_page admin_answer"
  | Ans_ws ws_answer

fun serve_rooms :: "platform \<Rightarrow> server \<Rightarrow> room_endpoint \<Rightarrow> http_request \<Rightarrow> User \<Rightarrow> (hub rworld, room_body) handler" where
  "serve_rooms P sv R_listActive rq u = h_listActive hub_service u"
| "serve_rooms P sv R_create rq u = h_create hub_service u (rq_name rq)"
| "serve_rooms P sv R_join rq u = h_join (pf_case P) hub_service u (rq_text rq)"
| "serve_rooms P sv R_get rq u = h_get (pf_libs P) hub_service u (rq_URLParam rq ''roomID'')"
| "serve_rooms P sv R_rename rq u = h_rename (pf_libs P) hub_service u (rq_URLParam rq ''roomID'') (rq_text rq)"
| "serve_rooms P sv R_leave rq u = h_leave (pf_libs P) hub_service u (rq_URLParam rq ''roomID'')"
| "serve_rooms P sv R_putDestination rq u =
     h_putDestination (pf_libs P) hub_service u (rq_URLParam rq ''roomID'') (rq_destination rq)"
| "serve_rooms P sv R_patchDestination rq u =
     h_patchDestination (pf_libs P) hub_service u (rq_URLParam rq ''roomID'') (rq_destinationMeta rq)"
| "serve_rooms P sv R_deleteDestination rq u = h_deleteDestination (pf_libs P) hub_service u (rq_URLParam rq ''roomID'')"
| "serve_rooms P sv R_putPersonalMarker rq u = h_putPersonalMarker (pf_libs P) u (rq_URLParam rq ''roomID'') (rq_point rq)"
| "serve_rooms P sv R_deletePersonalMarker rq u = h_deletePersonalMarker (pf_libs P) u (rq_URLParam rq ''roomID'')"
| "serve_rooms P sv R_addStop rq u = h_addStop (pf_libs P) hub_service u (rq_URLParam rq ''roomID'') (rq_point rq)"
| "serve_rooms P sv R_clearStops rq u = h_clearStops (pf_libs P) hub_service u (rq_URLParam rq ''roomID'')"
| "serve_rooms P sv R_patchStop rq u =
     h_patchStop (pf_libs P) hub_service u (rq_URLParam rq ''roomID'') (rq_URLParam rq ''stopID'') (rq_label rq)"
| "serve_rooms P sv R_removeStop rq u =
     h_removeStop (pf_libs P) hub_service u (rq_URLParam rq ''roomID'') (rq_URLParam rq ''stopID'')"
| "serve_rooms P sv R_listMessages rq u =
     h_listMessages (pf_libs P) u (rq_URLParam rq ''roomID'') (rq_Query rq ''before'') (rq_Query rq ''limit'')"
| "serve_rooms P sv R_postMessage rq u = h_postMessage (pf_libs P) hub_service u (rq_URLParam rq ''roomID'') (rq_text rq)"
| "serve_rooms P sv R_mute rq u =
     h_mute (pf_libs P) hub_service u (rq_URLParam rq ''roomID'') (rq_URLParam rq ''userID'') (rq_muted rq)"
| "serve_rooms P sv R_kick rq u = h_kick (pf_libs P) hub_service u (rq_URLParam rq ''roomID'') (rq_URLParam rq ''userID'')"
| "serve_rooms P sv R_transferOwner rq u =
     h_transferOwner (pf_libs P) hub_service u (rq_URLParam rq ''roomID'') (rq_URLParam rq ''userID'')"
| "serve_rooms P sv R_end rq u = h_end (pf_libs P) hub_service u (rq_URLParam rq ''roomID'')"
| "serve_rooms P sv R_voiceToken rq u = h_voiceToken (pf_libs P) (pf_ToJWT P) (sv_livekit sv) u (rq_URLParam rq ''roomID'')"

fun serve_admin :: "platform \<Rightarrow> server \<Rightarrow> AdminConfig \<Rightarrow> admin_endpoint \<Rightarrow> http_request \<Rightarrow> (hub rworld, admin_page) admin_handler" where
  "serve_admin P sv m A_dashboard rq = dashboard (pf_pgts P)"
| "serve_admin P sv m A_feedbackList rq = feedbackList (pf_pgts P)"
| "serve_admin P sv m A_broadcastList rq = broadcastList"
| "serve_admin P sv m A_broadcastNewForm rq = broadcastNewForm"
| "serve_admin P sv m A_broadcastSend rq = broadcastSend (pf_expo P) (sv_expo sv) (rq_form rq)"
| "serve_admin P sv m A_recipientCount rq = recipientCount"
| "serve_admin P sv m A_usersList rq = usersList (pf_ilike P) (rq_Query rq ''q'')"
| "serve_admin P sv m A_userDetail rq = userDetail (pf_libs P) (rq_URLParam rq ''id'')"
| "serve_admin P sv m A_userSoftDelete rq = userSoftDelete (pf_libs P) (rq_URLParam rq ''id'')"
| "serve_admin P sv m A_userRestore rq = userRestore (pf_libs P) (rq_URLParam rq ''id'')"
| "serve_admin P sv m A_userHardDelete rq = userHardDelete (pf_libs P) (rq_Admin rq) (rq_URLParam rq ''id'')"
| "serve_admin P sv m A_settingsPage rq = settingsPage m (rq_Query rq ''flash'') (rq_Query rq ''err'')"
| "serve_admin P sv m A_settingsSubmit rq = settingsSubmit m (rq_form rq)"

fun serve_login :: "platform \<Rightarrow> AdminConfig \<Rightarrow> timestamp \<Rightarrow> login_endpoint \<Rightarrow> http_request \<Rightarrow> login_page admin_answer \<times> cookie option" where
  "serve_login P m now L_loginPage rq = (loginPage (pf_mac P) m now (rq_Admin rq) (rq_Query rq ''err''), None)"
| "serve_login P m now L_loginSubmit rq = loginSubmit (pf_mac P) m now (rq_Admin rq) (rq_form rq)"
| "serve_login P m now L_logout rq = logout (rq_Admin rq)"

text \<open>The group behind \<open>authSvc.Middleware\<close>.\<close>

fun serve_user :: "platform \<Rightarrow> server \<Rightarrow> timestamp \<Rightarrow> user_endpoint \<Rightarrow> http_request \<Rightarrow> hub rworld \<Rightarrow> answer \<times> hub rworld" where
  "serve_user P sv now U_me rq w = map_prod Ans_auth id
     (Middleware (pf_libs P) (sv_auth sv) now (rq_Authorization rq) (\<lambda>u. HandleMe (Some u)) w)"
| "serve_user P sv now U_patchMe rq w = map_prod Ans_auth id
     (Middleware (pf_libs P) (sv_auth sv) now (rq_Authorization rq) (\<lambda>u. HandlePatchMe (Some u) (rq_text rq)) w)"
| "serve_user P sv now U_deleteAccount rq w = map_prod Ans_auth id
     (Middleware (pf_libs P) (sv_auth sv) now (rq_Authorization rq) (\<lambda>u. HandleDeleteAccount (Some u)) w)"
| "serve_user P sv now (U_rooms e) rq w = map_prod Ans_rooms id
     (Middleware (pf_libs P) (sv_auth sv) now (rq_Authorization rq) (serve_rooms P sv e rq) w)"
| "serve_user P sv now U_feedback rq w = map_prod Ans_feedback id
     (Middleware (pf_libs P) (sv_auth sv) now (rq_Authorization rq) (\<lambda>u. Feedback_Submit (Some u) (rq_text rq)) w)"
| "serve_user P sv now U_pushTokens rq w = map_prod Ans_push id
     (Middleware (pf_libs P) (sv_auth sv) now (rq_Authorization rq) (\<lambda>u. Push_Save (pf_case P) (Some u) (rq_register rq)) w)"

text \<open>The router: a route that is not registered is answered with 404.\<close>

fun serve_route :: "platform \<Rightarrow> server \<Rightarrow> timestamp \<Rightarrow> endpoint \<Rightarrow> http_request \<Rightarrow> hub rworld \<Rightarrow> answer \<times> hub rworld" where
  "serve_route P sv now E_healthz rq w = (Ans_text 200 ''{\"status\":\"ok\"}'', w)"
| "serve_route P sv now E_root rq w = (Ans_text 302 ''/admin/'', w)"
| "serve_route P sv now E_config rq w = map_prod Ans_config id (AppConfig_Handler w)"
| "serve_route P sv now E_policy rq w =
     (case sv_policy sv of None \<Rightarrow> (Ans_text 404 ''404 page not found'', w) | Some m \<Rightarrow> (Ans_policy (PolicyHandler m), w))"
| "serve_route P sv now E_deleteAccountPage rq w =
     (case sv_policy sv of None \<Rightarrow> (Ans_text 404 ''404 page not found'', w) | Some m \<Rightarrow> (Ans_policy (DeleteAccountHandler m), w))"
| "serve_route P sv now E_guest rq w = map_prod Ans_auth id (HandleGuest (pf_libs P) (sv_auth sv) now (rq_guest rq) w)"
| "serve_route P sv now E_google rq w = map_prod Ans_auth id (HandleGoogle (pf_libs P) (sv_auth sv) now (rq_oauth rq) w)"
| "serve_route P sv now E_apple rq w = map_prod Ans_auth id (HandleApple (pf_libs P) (sv_auth sv) now (rq_oauth rq) w)"
| "serve_route P sv now (E_user e) rq w = serve_user P sv now e rq w"
| "serve_route P sv now (E_login e) rq w =
     (case sv_admin sv of None \<Rightarrow> (Ans_text 404 ''404 page not found'', w) | Some m \<Rightarrow> (Ans_login (serve_login P m now e rq), w))"
| "serve_route P sv now (E_admin e) rq w =
     (case sv_admin sv of None \<Rightarrow> (Ans_text 404 ''404 page not found'', w)
      | Some m \<Rightarrow> map_prod Ans_admin id (requireAuth (pf_mac P) m now (rq_Admin rq) (serve_admin P sv m e rq) w))"
| "serve_route P sv now E_ws rq w = map_prod Ans_ws id
     (ServeHTTP_open (pf_libs P) (sv_auth sv) now (rq_Query rq ''room'') (rq_Query rq ''token'') (rq_upgraded rq) w)"

section \<open>CORS\<close>

definition cors_headers :: "string list \<Rightarrow> string \<Rightarrow> (string \<times> string) list" where
  "cors_headers allowed origin =
     (if length allowed = 1 \<and> allowed ! 0 = ''*'' then [(''Access-Control-Allow-Origin'', ''*'')]
      else if origin \<in> set allowed then [(''Access-Control-Allow-Origin'', origin)] else []) @
     [(''Access-Control-Allow-Methods'', ''GET, POST, PUT, PATCH, DELETE, OPTIONS''),
      (''Access-Control-Allow-Headers'', ''Authorization, Content-Type''),
      (''Access-Control-Max-Age'', ''300'')]"

definition corsMiddleware ::
  "string list \<Rightarrow> http_request \<Rightarrow> ('w \<Rightarrow> answer \<times> 'w) \<Rightarrow> 'w \<Rightarrow> ((string \<times> string) list \<times> answer) \<times> 'w" where
  "corsMiddleware allowed rq nxt w =
     (if rq_Method rq = ''OPTIONS'' then ((cors_headers allowed (rq_Origin rq), Ans_text 204 []), w)
      else (case nxt w of (a, w') \<Rightarrow> ((cors_headers allowed (rq_Origin rq), a), w')))"

definition serve_http ::
  "platform \<Rightarrow> server \<Rightarrow> timestamp \<Rightarrow> endpoint \<Rightarrow> http_request \<Rightarrow> hub rworld \<Rightarrow>
   ((string \<times> string) list \<times> answer) \<times> hub rworld" where
  "serve_http P sv now e rq = corsMiddleware (sv_origins sv) rq (serve_route P sv now e rq)"

end
