(* ===== verification/System.thy ===== *)
theory System
  imports Server Pumps
begin

text \<open>
  The whole server as a transition system: HTTP requests to any route, frames
  that arrive on any socket, turns of any write pump and the teardown of any
  socket, in any order and under any schedule of faults, times and identifiers.
  Each step runs to its end before the next one starts.
\<close>

section \<open>Every request keeps both halves of the state consistent\<close>

definition system_ok :: "hub rworld \<Rightarrow> bool" where
  "system_ok w \<longleftrightarrow> tables_ok (w_db w) \<and> hub_ok (w_rt w)"

lemma keeps_system:
  fixes m :: "(hub rworld, 'e, 'a) cmd"
  assumes "keeps (\<lambda>w. db_ok (w_db w)) m" "\<And>a. keeps (\<lambda>w. account_tables (w_db w) = a) m"
    and "keeps (\<lambda>w. hub_ok (w_rt w)) m"
  shows "keeps system_ok m"
proof (rule keepsI)
  fix w assume w: "system_ok w"
  have "account_tables (w_db (snd (m w))) = account_tables (w_db w)" by (rule keepsD [OF assms(2)]) simp
  with w keepsD [OF assms(1), of w] keepsD [OF assms(3), of w] show "system_ok (snd (m w))"
    by (auto simp: system_ok_def tables_ok_def dest: accounts_ok_cong)
qed

lemma hub_calls_keep: "calls_keep hub_service hub_ok"
  using hub_bc.call_inv by (auto simp: calls_keep_def)

lemma keeps_service_system [keeps_intros]:
  "keeps system_ok (Service_Create u name)"
  "keeps system_ok (Service_Join tab hub_service u code)"
  "keeps system_ok (Service_Detail hub_service r u)"
  "keeps system_ok (Service_ListActiveForUser hub_service u)"
  "keeps system_ok (Service_SetDestination hub_service r u lat lng name' nts)"
  "keeps system_ok (Service_UpdateDestinationMeta hub_service r u name' nts)"
  "keeps system_ok (Service_ClearDestination hub_service r u)"
  "keeps system_ok (Service_SetPersonalMarker r u lat lng label)"
  "keeps system_ok (Service_ClearPersonalMarker r u)"
  "keeps system_ok (Service_AddStop hub_service r u lat lng label)"
  "keeps system_ok (Service_UpdateStopLabel hub_service r u st label)"
  "keeps system_ok (Service_RemoveStop hub_service r u st)"
  "keeps system_ok (Service_ClearStops hub_service r u)"
  "keeps system_ok (Service_Rename hub_service r u rname)"
  "keeps system_ok (Service_Leave hub_service r u)"
  "keeps system_ok (Service_Mute hub_service r u t muted)"
  "keeps system_ok (Service_Kick hub_service r u t)"
  "keeps system_ok (Service_End hub_service r u)"
  "keeps system_ok (Service_PostMessage hub_service r u body)"
  "keeps system_ok (Service_ListMessages r u before limit)"
  "keeps system_ok (Service_TransferOwnership hub_service r u t)"
  by (rule keeps_system; rule keeps_service keeps_TransferOwnership keeps_service_accounts
      keeps_service_rt [OF hub_calls_keep])+

lemma keeps_AssertMember_system [keeps_intros]: "keeps system_ok (AssertMember r u)"
  unfolding AssertMember_def Store_ActiveMembership_def
  by (rule keeps_system; intro keeps_intros keeps_row [of "\<lambda>d. account_tables d = a" for a])

lemma serve_rooms_ok: "system_ok w \<Longrightarrow> system_ok (snd (serve_rooms P sv e rq u w))"
  by (cases e; simp only: serve_rooms.simps h_voiceToken_def h_listActive_def h_create_def h_join_def h_get_def h_leave_def
      h_rename_def h_mute_def h_kick_def h_transferOwner_def h_putDestination_def h_patchDestination_def
      h_deleteDestination_def h_putPersonalMarker_def h_deletePersonalMarker_def h_addStop_def h_patchStop_def
      h_removeStop_def h_clearStops_def h_postMessage_def h_listMessages_def h_end_def snd_respond;
    erule keepsD [rotated]; intro keeps_intros)

text \<open>Handlers that work on the tables only.\<close>

lemma over_system: "over tables_ok (world.more w) v \<Longrightarrow> system_ok w \<Longrightarrow> system_ok v"
  by (cases w, cases v) (simp add: over_def system_ok_def)

lemma system_over: "system_ok w \<Longrightarrow> over tables_ok (world.more w) w"
  by (simp add: over_def system_ok_def)

section \<open>The transition system\<close>

definition on_hub :: "(hub \<Rightarrow> hub) \<Rightarrow> hub rworld \<Rightarrow> hub rworld" where
  "on_hub f w = w\<lparr>w_rt := f (w_rt w)\<rparr>"

text \<open>Requests arrive for the endpoints in \<open>E\<close>.\<close>

inductive system_step :: "platform \<Rightarrow> server \<Rightarrow> endpoint set \<Rightarrow> hub rworld \<Rightarrow> hub rworld \<Rightarrow> bool" for P sv E where
  request: "e \<in> E \<Longrightarrow> system_step P sv E w (snd (serve_http P sv now e rq w))"
| frame: "system_step P sv E w (on_hub (readPump_frame ts c f) w)"
| pump: "writePump_step ev (h_heap (w_rt w) c) = Some c' \<Longrightarrow> system_step P sv E w (on_hub (on_client c (\<lambda>_. c')) w)"
| closed: "system_step P sv E w (on_hub (ServeHTTP_close c) w)"

text \<open>From a migrated, empty database and an empty hub.\<close>

inductive reachable :: "platform \<Rightarrow> server \<Rightarrow> endpoint set \<Rightarrow> hub rworld \<Rightarrow> bool" for P sv E where
  start: "w_db w = init_db now \<Longrightarrow> w_rt w = NewHub \<Longrightarrow> reachable P sv E w"
| step: "reachable P sv E w \<Longrightarrow> system_step P sv E w w' \<Longrightarrow> reachable P sv E w'"

section \<open>What every step keeps\<close>

lemma ServeHTTP_open_db: "w_db (snd (ServeHTTP_open L s now room token accepted w)) = w_db w"
proof -
  obtain a w1 where a: "ws_admit L s now room token w = (a, w1)" by force
  show ?thesis
  proof (cases a)
    case (Inl answer)
    with a ws_admit_InlD [of L s now room token w answer w1] show ?thesis by (auto simp: ServeHTTP_open_def)
  next
    case (Inr p)
    then obtain roomID user where p: "a = Inr (roomID, user)" by (cases p) auto
    obtain c w2 where st: "ws_start roomID (UserID user) w1 = (c, w2)" by force
    from a p st ws_admit_InrD [OF a [unfolded p]] ws_start_run(1)[OF st] show ?thesis by (auto simp: ServeHTTP_open_def)
  qed
qed

text \<open>
  A property \<open>I\<close> of the tables and a property \<open>H\<close> of the hub that every
  statement of the account code, every room request and every step of the hub keep
  are kept by every step of the system; when they also hold at the start, they hold
  in every reachable state.
\<close>

locale server_steps = account_deletions I for I :: "db \<Rightarrow> bool" +
  fixes H :: "hub \<Rightarrow> bool"
  assumes rooms: "I (w_db w) \<Longrightarrow> H (w_rt w) \<Longrightarrow> I (w_db (snd (serve_rooms P sv e rq u w)))"
      "I (w_db w) \<Longrightarrow> H (w_rt w) \<Longrightarrow> H (w_rt (snd (serve_rooms P sv e rq u w)))"
    and opened: "I (w_db w) \<Longrightarrow> H (w_rt w) \<Longrightarrow> H (w_rt (snd (ServeHTTP_open L s now room token accepted w)))"
    and framed: "H h \<Longrightarrow> H (readPump_frame ts c f h)"
    and pumped: "H h \<Longrightarrow> writePump_step ev (h_heap h c) = Some c' \<Longrightarrow> H (on_client c (\<lambda>_. c') h)"
    and closed: "H h \<Longrightarrow> H (ServeHTTP_close c h)"
begin

lemma over_both:
  fixes w v :: "hub rworld"
  assumes "I (w_db w)" "H (w_rt w)" "\<And>z. over I z w \<Longrightarrow> over I z v"
  shows "I (w_db v) \<and> H (w_rt v)"
proof -
  have "over I (world.more w) v" by (rule assms(3)) (simp add: over_def assms(1))
  with assms(2) rworld_more [of v w] show ?thesis by (simp add: over_def)
qed

lemma Middleware_both:
  fixes w :: "hub rworld"
  assumes "I (w_db w)" "H (w_rt w)"
    and "\<And>u w :: hub rworld. I (w_db w) \<Longrightarrow> H (w_rt w) \<Longrightarrow> I (w_db (snd (nxt u w))) \<and> H (w_rt (snd (nxt u w)))"
  shows "I (w_db (snd (Middleware L s now header nxt w))) \<and> H (w_rt (snd (Middleware L s now header nxt w)))"
proof -
  have "I (w_db v) \<and> H (w_rt v)" if "LoadUser u w = (r, v)" for u r v
    by (rule over_both [OF assms(1,2)]) (use keepsD [OF over_store_reads(4), of I _ w u] that in simp)
  with assms show ?thesis by (auto simp: Middleware_def split: sum.splits prod.splits)
qed

lemma serve_user_both:
  assumes "I (w_db w)" "H (w_rt w)"
  shows "I (w_db (snd (serve_user P sv now e rq w))) \<and> H (w_rt (snd (serve_user P sv now e rq w)))"
proof -
  have 1: "I (w_db (snd (h u v))) \<and> H (w_rt (snd (h u v)))"
    if "\<And>z v. over I z v \<Longrightarrow> over I z (snd (h u v))" "I (w_db v)" "H (w_rt v)"
    for h :: "User \<Rightarrow> hub rworld \<Rightarrow> 'b \<times> hub rworld" and u v
    using over_both [OF that(2,3,1)] by blast
  show ?thesis
    by (cases e) (simp_all add: Middleware_both assms rooms 1 [of "\<lambda>u. HandleMe (Some u)"]
      1 [of "\<lambda>u. HandlePatchMe (Some u) b" for b] 1 [of "\<lambda>u. HandleDeleteAccount (Some u)"]
      1 [of "\<lambda>u. Feedback_Submit (Some u) b" for b] 1 [of "\<lambda>u. Push_Save t (Some u) b" for t b]
      auth_handlers_over app_handlers_over deletion_handlers_over)
qed

lemma serve_admin_over: "over I z w \<Longrightarrow> over I z (snd (serve_admin P sv m e rq w))"
  by (cases e) (simp_all add: admin_handlers_over settings_over deletion_handlers_over)

lemma serve_route_both:
  assumes "I (w_db w)" "H (w_rt w)"
  shows "I (w_db (snd (serve_route P sv now e rq w))) \<and> H (w_rt (snd (serve_route P sv now e rq w)))"
proof -
  note both = over_both [OF assms]
  have adm: "I (w_db (snd (requireAuth mac m now r (serve_admin P sv m a rq) w))) \<and>
      H (w_rt (snd (requireAuth mac m now r (serve_admin P sv m a rq) w)))" for mac m r a
    by (rule both) (erule requireAuth_over [OF _ serve_admin_over])
  show ?thesis
    by (cases e) (simp_all add: assms serve_user_both adm ServeHTTP_open_db opened both auth_handlers_over
        app_handlers_over split: option.splits)
qed

lemma step_both:
  assumes "system_step P sv E w w'" "I (w_db w)" "H (w_rt w)"
  shows "I (w_db w') \<and> H (w_rt w')"
  using assms
proof (induction rule: system_step.induct)
  case (request e w now rq)
  then show ?case using serve_route_both [of w P sv now e rq]
    by (auto simp: serve_http_def corsMiddleware_def split: prod.splits)
qed (auto simp: on_hub_def framed pumped closed)

lemma steps_both:
  assumes "(system_step P sv E)\<^sup>*\<^sup>* w w'" "I (w_db w)" "H (w_rt w)"
  shows "I (w_db w') \<and> H (w_rt w')"
  using assms by (induction rule: rtranclp_induct) (auto dest: step_both)

end

locale server_invariant = server_steps I H for I H +
  assumes init: "I (init_db now)" "H NewHub"
begin

lemma reachable_both: "reachable P sv E w \<Longrightarrow> I (w_db w) \<and> H (w_rt w)"
proof (induction rule: reachable.induct)
  case (start w now)
  then show ?case by (simp add: init)
next
  case (step w w')
  then show ?case by (blast dest: step_both)
qed

end

section \<open>The socket endpoint\<close>

lemma keeps_snapshot_hub: "keeps (\<lambda>w. hub_ok (w_rt w)) (Hub_snapshot roomID selfID)"
proof -
  have "hub_ok (snd (roomFor r h))" if "hub_ok h" for r h
    using roomFor_ok(2)[OF that] by (metis prod.collapse)
  then show ?thesis unfolding Hub_snapshot_def store_methods
    by (intro keeps_andThen keeps_map_err keeps_onErr keeps_asks keeps_effect keeps_stmt_rt [of hub_ok] keeps_ok
        keeps_case_option keeps_result) simp_all
qed

lemma ws_start_ok:
  assumes "system_ok w" "ws_start roomID userID w = (c, w')"
  shows "system_ok w'"
proof -
  have h: "hub_ok (w_rt w)" using assms(1) by (simp add: system_ok_def)
  obtain h1 where al: "alloc_client userID roomID (w_rt w) = (c, h1)"
    using assms(2) by (auto simp: ws_start_def Let_def split: prod.splits)
  obtain b h2 where j: "join roomID c h1 = (b, h2)" by force
  obtain snap w1 where sn: "Hub_snapshot roomID userID (w\<lparr>w_rt := h2\<rparr>) = (snap, w1)" by force
  define h3 where "h3 = (case snap of Inl _ \<Rightarrow> w_rt w1 | Inr sp \<Rightarrow> sendTo c MsgSnapshot (PSnapshot sp) (w_rt w1))"
  have w': "w' = w1\<lparr>w_rt := if b then BroadcastMemberPresent roomID userID h3 else h3\<rparr>"
    using assms(2) al j sn by (auto simp: ws_start_def h3_def Let_def)
  have "hub_ok h1" using hub_ok_alloc [OF h, of userID roomID] al by simp
  moreover have "c < h_next h1" "cl_room (h_heap h1 c) = roomID" using al by (auto simp: alloc_client_def newClient_def)
  ultimately have "hub_ok h2" using hub_ok_join [of h1 c roomID] j by simp
  then have "hub_ok (w_rt w1)" using keepsD [OF keeps_snapshot_hub, of "w\<lparr>w_rt := h2\<rparr>" roomID userID] sn by simp
  then have "hub_ok h3" by (simp add: h3_def hub_ok_sendTo split: sum.splits)
  then have "hub_ok (w_rt w')" by (simp add: w' hub_ok_broadcast hub_broadcasts)
  with ws_start_run(1)[OF assms(2)] assms(1) show ?thesis by (simp add: system_ok_def)
qed

lemma ServeHTTP_open_ok:
  assumes "system_ok w"
  shows "system_ok (snd (ServeHTTP_open L s now room token accepted w))"
proof -
  have same: "system_ok v" if "same_state w v" for v using that assms by (simp add: system_ok_def)
  obtain a w1 where a: "ws_admit L s now room token w = (a, w1)" by force
  show ?thesis
  proof (cases a)
    case (Inl answer)
    with same ws_admit_InlD [of L s now room token w answer w1] a show ?thesis by (auto simp: ServeHTTP_open_def)
  next
    case (Inr p)
    then obtain roomID user where p: "a = Inr (roomID, user)" by (cases p) auto
    have "system_ok w1" using ws_admit_InrD [OF a [unfolded p]] same by blast
    moreover obtain c w2 where st: "ws_start roomID (UserID user) w1 = (c, w2)" by force
    ultimately show ?thesis using a p ws_start_ok [OF _ st] by (auto simp: ServeHTTP_open_def)
  qed
qed

lemma ServeHTTP_close_ok:
  assumes "hub_ok h"
  shows "hub_ok (ServeHTTP_close c h)"
proof -
  let ?h1 = "on_client c (close ''read loop ended'') h"
  obtain a b h2 where l: "leave (cl_room (h_heap h c)) c ?h1 = ((a, b), h2)" by (metis surj_pair)
  have "hub_ok ?h1" using assms by (simp add: hub_ok_on_client)
  from hub_ok_leave [OF this] l have "hub_ok h2" by (metis snd_conv)
  with l show ?thesis by (simp add: ServeHTTP_close_def Let_def hub_broadcasts hub_ok_broadcast)
qed

text \<open>A property of the hub that the calls of the room service keep is kept by the room requests.\<close>

lemma serve_rooms_rt:
  assumes "calls_keep hub_service H" "H (w_rt w)"
  shows "H (w_rt (snd (serve_rooms P sv e rq u w)))"
proof -
  have member: "keeps (\<lambda>w :: hub rworld. H (w_rt w)) (AssertMember r u)" for r u
    unfolding AssertMember_def Store_ActiveMembership_def by (intro keeps_intros)
  show ?thesis
    by (cases e; simp only: serve_rooms.simps h_voiceToken_def h_listActive_def h_create_def h_join_def h_get_def h_leave_def
      h_rename_def h_mute_def h_kick_def h_transferOwner_def h_putDestination_def h_patchDestination_def
      h_deleteDestination_def h_putPersonalMarker_def h_deletePersonalMarker_def h_addStop_def h_patchStop_def
      h_removeStop_def h_clearStops_def h_postMessage_def h_listMessages_def h_end_def snd_respond;
      rule keepsD [where I = "\<lambda>w. H (w_rt w)", OF _ assms(2)]; intro member keeps_service_rt [OF assms(1)] keeps_intros)
qed

interpretation sys: server_invariant tables_ok hub_ok
proof unfold_locales
  show "tables_ok (w_db (snd (serve_rooms P sv e rq u w)))" "hub_ok (w_rt (snd (serve_rooms P sv e rq u w)))"
    if "tables_ok (w_db w)" "hub_ok (w_rt w)" for P sv e rq u w
    using serve_rooms_ok [of w P sv e rq u] that by (simp_all add: system_ok_def)
  show "hub_ok (w_rt (snd (ServeHTTP_open L s now room token accepted w)))"
    if "tables_ok (w_db w)" "hub_ok (w_rt w)" for L s now room token accepted w
    using ServeHTTP_open_ok [of w L s now room token accepted] that by (simp add: system_ok_def)
qed (simp_all add: tables_ok_init hub_ok_NewHub hub_ok_readPump hub_ok_pump ServeHTTP_close_ok)

lemma reachable_ok: "reachable P sv E w \<Longrightarrow> system_ok w"
  using sys.reachable_both by (simp add: system_ok_def)

end
