(* ===== verification/Seats.thy ===== *)
theory Seats
  imports System Membership
begin

text \<open>
  Tables and sockets together: an open socket always belongs to an active member
  of an active room.  Every request, frame and teardown keeps this, except the
  three that delete accounts.
\<close>

section \<open>Seats\<close>

definition seated :: "db \<Rightarrow> uuid \<Rightarrow> uuid \<Rightarrow> bool" where
  "seated d r u \<longleftrightarrow> is_member d r u \<and> (\<exists>row \<in> set (t_rooms d). r_id row = r \<and> room_active row)"

definition sockets_seated :: "hub rworld \<Rightarrow> bool" where
  "sockets_seated w \<longleftrightarrow> (\<forall>r u. open_socket r u (w_rt w) \<longrightarrow> seated (w_db w) r u)"

definition holds :: "(uuid \<times> uuid) set \<Rightarrow> db \<Rightarrow> bool" where
  "holds S d \<longleftrightarrow> (\<forall>(r, u) \<in> S. seated d r u)"

lemma holds_step: "holds S d \<Longrightarrow> (\<And>r u. seated d r u \<Longrightarrow> (r, u) \<in> S \<Longrightarrow> seated d' r u) \<Longrightarrow> holds S d'"
  by (auto simp: holds_def)

lemma seated_cong: "seats d' = seats d \<Longrightarrow> seated d' = seated d"
  by (simp add: seated_def is_member_def seats_def fun_eq_iff)

lemma seated_members:
  assumes "seated d r u" "\<And>m. m \<in> set (t_room_members d) \<Longrightarrow> active_member r u m \<Longrightarrow> p m \<Longrightarrow> active_member r u (f m)"
  shows "seated (d\<lparr>t_room_members := update_where p f (t_room_members d)\<rparr>) r u"
  using assms by (auto simp: seated_def is_member_def bex_update_where)

lemma seated_rooms:
  assumes "seated d r u" "\<And>x. room_active x \<Longrightarrow> p x \<Longrightarrow> r_id x = r \<Longrightarrow> r_id (f x) = r_id x \<and> room_active (f x)"
  shows "seated (d\<lparr>t_rooms := update_where p f (t_rooms d)\<rparr>) r u"
  using assms by (auto simp: seated_def is_member_def bex_update_where)

lemma seated_more:
  "seated d r u \<Longrightarrow> seated (d\<lparr>t_rooms := t_rooms d @ xs\<rparr>) r u"
  "seated d r u \<Longrightarrow> seated (d\<lparr>t_room_members := t_room_members d @ ms\<rparr>) r u"
  by (auto simp: seated_def is_member_def)

section \<open>The room service\<close>

lemma keeps_holds_stmt:
  assumes "\<And>now uid d x d' r u. q now uid d = Inr (x, d') \<Longrightarrow> seated d r u \<Longrightarrow> (r, u) \<in> S \<Longrightarrow> seated d' r u"
  shows "keeps (\<lambda>w. holds S (w_db w)) (stmt q)"
  by (rule keeps_stmt) (use assms holds_step in blast)

lemma statement_seats:
  "insert_room a b c now uid d = Inr (x1, d') \<Longrightarrow> seated d r u \<Longrightarrow> seated d' r u"
  "insert_member r' u' ro now uid d = Inr (x2, d') \<Longrightarrow> seated d r u \<Longrightarrow> seated d' r u"
  "upsert_member r' u' now uid d = Inr (x2, d') \<Longrightarrow> seated d r u \<Longrightarrow> seated d' r u"
  "set_owner r' u' now uid d = Inr (n, d') \<Longrightarrow> seated d r u \<Longrightarrow> seated d' r u"
  "set_destination r' u' lat lng nm nt now uid d = Inr (x4, d') \<Longrightarrow> seated d r u \<Longrightarrow> seated d' r u"
proof -
  show "seated d' r u" if "insert_room a b c now uid d = Inr (x1, d')" "seated d r u"
    using that by (auto simp: insert_room_def seated_more split: if_splits)
  show ins: "seated d' r u" if "insert_member r' u' ro now uid d = Inr (x2, d')" "seated d r u" for ro
    using that by (auto simp: insert_member_def seated_more split: if_splits)
  show "seated d' r u" if "upsert_member r' u' now uid d = Inr (x2, d')" "seated d r u"
    using that ins by (auto simp: upsert_member_def active_member_def joined_def is_membership_def
        intro!: seated_members split: if_splits)
  show "seated d' r u" if "set_owner r' u' now uid d = Inr (n, d')" "seated d r u"
    using that by (auto simp: set_owner_def update_rooms_def room_active_def intro!: seated_rooms split: if_splits)
  show "seated d' r u" if "set_destination r' u' lat lng nm nt now uid d = Inr (x4, d')" "seated d r u"
    using that by (auto simp: set_destination_def update_room_returning_def room_active_def intro!: seated_rooms
        split: if_splits option.splits)
qed

lemma other_statement_seats:
  "upsert_marker r u lat lng nm now uid d = Inr (x5, d') \<Longrightarrow> seats d' = seats d"
  "insert_stop r u lat lng nm now uid d = Inr (x6, d') \<Longrightarrow> seats d' = seats d"
  "update_stop_label r u nm now uid d = Inr (x7, d') \<Longrightarrow> seats d' = seats d"
  "insert_message r u s now uid d = Inr (x8, d') \<Longrightarrow> seats d' = seats d"
  by (auto simp: room_statements seats_def Let_def split: if_splits option.splits)

lemma role_update_seats:
  "update_members p (\<lambda>now m. m\<lparr>rm_role := ro\<rparr>) now uid d = Inr (n, d') \<Longrightarrow> seated d r u \<Longrightarrow> seated d' r u"
  "update_members p (\<lambda>now m. m\<lparr>rm_muted := b\<rparr>) now uid d = Inr (n, d') \<Longrightarrow> seated d r u \<Longrightarrow> seated d' r u"
  by (auto simp: update_members_def active_member_def joined_def is_membership_def intro!: seated_members)

lemma keeps_over: "(\<And>z. keeps (over I z) m) \<Longrightarrow> keeps (\<lambda>w. I (w_db w)) m"
  by (auto simp: keeps_def over_def)

lemma over_holds [keeps_intros]:
  "keeps (over (holds S) z) (tx_stmt now (insert_room a b c))"
  "keeps (over (holds S) z) (tx_stmt now (insert_member r u ro))"
  "keeps (over (holds S) z) (tx_stmt now (set_owner r u))"
  "keeps (over (holds S) z) (tx_stmt now (update_members p (\<lambda>now m. m\<lparr>rm_role := ro\<rparr>)))"
  "keeps (over (holds S) z) (tx_stmt now (sql_select f))"
  by (rule over_tx_stmt, erule holds_step, rule statement_seats role_update_seats, assumption, assumption)+
    (rule over_tx_stmt, simp add: sql_select_def)

lemma keeps_tx_holds [keeps_intros]:
  "keeps (\<lambda>w. holds S (w_db w)) (Store_CreateRoom u code name)"
  "keeps (\<lambda>w. holds S (w_db w)) (Store_TransferOwnership r u v)"
  unfolding Store_CreateRoom_def Store_TransferOwnership_def by (intro keeps_over over_tx keeps_intros)+

lemma keeps_stores_holds [keeps_intros]:
  "keeps (\<lambda>w. holds S (w_db w)) (Store_UpsertMember r u)"
  "keeps (\<lambda>w. holds S (w_db w)) (Store_SetMuted r u b)"
  "keeps (\<lambda>w. holds S (w_db w)) (Store_UpdateName r name)"
  "keeps (\<lambda>w. holds S (w_db w)) (Store_SetDestination r u lat lng name' nts)"
  "keeps (\<lambda>w. holds S (w_db w)) (Store_UpdateDestinationMeta r name' nts)"
  "keeps (\<lambda>w. holds S (w_db w)) (Store_ClearDestination r)"
  "keeps (\<lambda>w. holds S (w_db w)) (Store_UpsertPersonalMarker r u lat lng name')"
  "keeps (\<lambda>w. holds S (w_db w)) (Store_DeletePersonalMarker r u)"
  "keeps (\<lambda>w. holds S (w_db w)) (Store_AddStop r u lat lng name')"
  "keeps (\<lambda>w. holds S (w_db w)) (Store_ClearStops r)"
  "keeps (\<lambda>w. holds S (w_db w)) (Store_RemoveStop r st)"
  "keeps (\<lambda>w. holds S (w_db w)) (Store_UpdateStopLabel r st name')"
  "keeps (\<lambda>w. holds S (w_db w)) (Store_CreateMessage r u body)"
  unfolding store_methods
  by (intro keeps_andThen keeps_map_err keeps_ok keeps_rows_or_not_found keeps_result keeps_holds_stmt;
      auto simp: update_rooms_def update_room_returning_def room_active_def seated_cong [of "d\<lparr>t_room_stops := x\<rparr>" d for d x]
        seated_cong [of "d\<lparr>t_personal_markers := x\<rparr>" d for d x] seats_def intro!: seated_rooms
        dest: statement_seats role_update_seats other_statement_seats [THEN seated_cong] split: if_splits option.splits)+

lemma keeps_random_holds [keeps_intros]: "keeps (\<lambda>w. holds S (w_db w)) generateCode"
  by (rule keeps_generateCode [of "holds S"])

lemma keeps_create_holds [keeps_intros]: "keeps (\<lambda>w. holds S (w_db w)) (create_loop k u name)"
  by (induction k) (simp_all add: keeps_intros)

lemmas keeps_db_holds = keeps_reads [of "holds S" for S] keeps_notify [of "holds S" for S]
  keeps_guards [of "holds S" for S] keeps_broadcastStops [of "holds S" for S]

lemma keeps_service_holds:
  "keeps (\<lambda>w. holds S (w_db w)) (Service_Create u name)"
  "keeps (\<lambda>w. holds S (w_db w)) (Service_Join tab s u code)"
  "keeps (\<lambda>w. holds S (w_db w)) (Service_Detail s r u)"
  "keeps (\<lambda>w. holds S (w_db w)) (Service_ListActiveForUser s u)"
  "keeps (\<lambda>w. holds S (w_db w)) (Service_SetDestination s r u lat lng name' nts)"
  "keeps (\<lambda>w. holds S (w_db w)) (Service_UpdateDestinationMeta s r u name' nts)"
  "keeps (\<lambda>w. holds S (w_db w)) (Service_ClearDestination s r u)"
  "keeps (\<lambda>w. holds S (w_db w)) (Service_SetPersonalMarker r u lat lng label)"
  "keeps (\<lambda>w. holds S (w_db w)) (Service_ClearPersonalMarker r u)"
  "keeps (\<lambda>w. holds S (w_db w)) (Service_AddStop s r u lat lng label)"
  "keeps (\<lambda>w. holds S (w_db w)) (Service_UpdateStopLabel s r u st label)"
  "keeps (\<lambda>w. holds S (w_db w)) (Service_RemoveStop s r u st)"
  "keeps (\<lambda>w. holds S (w_db w)) (Service_ClearStops s r u)"
  "keeps (\<lambda>w. holds S (w_db w)) (Service_Rename s r u rname)"
  "keeps (\<lambda>w. holds S (w_db w)) (Service_Mute s r u t muted)"
  "keeps (\<lambda>w. holds S (w_db w)) (Service_PostMessage s r u body)"
  "keeps (\<lambda>w. holds S (w_db w)) (Service_ListMessages r u before limit)"
  "keeps (\<lambda>w. holds S (w_db w)) (Service_TransferOwnership s r u t)"
  unfolding service_methods by (intro keeps_intros keeps_db_holds)+

section \<open>Sockets only close\<close>

text \<open>Every socket of \<open>h'\<close> is the same socket in \<open>h\<close>, and what was closed stays closed.\<close>

definition fewer :: "hub \<Rightarrow> hub \<Rightarrow> bool" where
  "fewer h h' \<longleftrightarrow> (\<forall>r u c. socket_of r u h' = Some c \<longrightarrow> socket_of r u h = Some c) \<and>
     (\<forall>c. cl_closed (h_heap h c) \<longrightarrow> cl_closed (h_heap h' c))"

lemma fewer_open: "fewer h h' \<Longrightarrow> open_socket r u h' \<Longrightarrow> open_socket r u h"
  by (auto simp: fewer_def open_socket_def split: option.splits)

lemma fewer_refl [simp]: "fewer h h"
  by (simp add: fewer_def)

lemma fewer_trans: "fewer h h1 \<Longrightarrow> fewer h1 h2 \<Longrightarrow> fewer h h2"
  by (simp add: fewer_def)

lemma fewer_on_client: "(\<And>x. cl_closed x \<Longrightarrow> cl_closed (f x)) \<Longrightarrow> fewer h (on_client c f h)"
  by (simp add: fewer_def)

lemma fewer_to_all: "(\<And>x. cl_closed x \<Longrightarrow> cl_closed (f x)) \<Longrightarrow> fewer h (to_all f cs h)"
proof (induction cs arbitrary: h)
  case (Cons c cs)
  have "to_all f (c # cs) h = to_all f cs (on_client c f h)" by (simp add: to_all_def)
  with Cons fewer_on_client [of f h c] show ?case by (metis fewer_trans)
qed (simp add: to_all_def)

lemma fewer_sends [simp]: "fewer h (broadcast r t p ex h)" "fewer h (sendTo c t p h)"
  by (auto simp: broadcast_def sendTo_def enqueue_keeps_closed intro: fewer_to_all fewer_on_client split: option.splits)

lemma fewer_state [simp]: "fewer h (recordLocation r ev h)" "fewer h (snd (SetEmergency r u a h))"
  by (auto simp: fewer_def recordLocation_def SetEmergency_def roomFor_def socket_of_def newRoomState_def Let_def
      split: option.splits if_splits)

lemma fewer_then:
  "fewer h h1 \<Longrightarrow> fewer h (broadcast r t p ex h1)" "fewer h h1 \<Longrightarrow> fewer h (sendTo c t p h1)"
  using fewer_sends fewer_trans by blast+

lemma fewer_readPump: "fewer h (readPump_frame ts c f h)"
proof (cases f)
  case (InFrame t loc act)
  have "fewer h h1" if "SetEmergency r u a h = (b, h1)" for r u a b h1
    using fewer_state(2)[of h r u a] that by simp
  with InFrame show ?thesis
    by (auto simp: Let_def hub_broadcasts fewer_then split: option.splits prod.splits)
qed simp

lemma fewer_leave: "fewer h (snd (leave r c h))"
  by (auto simp: leave_def fewer_def socket_of_def Let_def delete_conv' split: option.splits if_splits)

lemma fewer_close: "fewer h (ServeHTTP_close c h)"
proof -
  let ?h1 = "on_client c (close ''read loop ended'') h"
  obtain a b h2 where l: "leave (cl_room (h_heap h c)) c ?h1 = ((a, b), h2)" by (metis surj_pair)
  have "fewer h ?h1" by (rule fewer_on_client) simp
  moreover have "fewer ?h1 h2" using fewer_leave [of ?h1 "cl_room (h_heap h c)" c] l by simp
  ultimately have "fewer h h2" by (rule fewer_trans)
  with l show ?thesis by (auto simp: ServeHTTP_close_def Let_def hub_broadcasts fewer_then)
qed

lemma fewer_pump:
  assumes "writePump_step e (h_heap h c) = Some c'"
  shows "fewer h (on_client c (\<lambda>_. c') h)"
  using assms by (cases e) (auto simp: fewer_def shutdown_def client_write_def split: if_splits list.splits)

lemma fewer_call:
  assumes "bc_call hub_broadcaster f" "hub_ok h"
  shows "fewer h (f h)"
proof -
  have "h_rooms (f h) = h_rooms h" using hub_call_frame [OF assms] by blast
  then have "socket_of r u (f h) = socket_of r u h" for r u by (intro socket_of_rooms) simp
  then show ?thesis using hub_call_frame [OF assms] by (auto simp: fewer_def)
qed

end
