(* ===== verification/PresenceSpec.thy ===== *)
theory PresenceSpec
  imports Seats
begin

text \<open>
  An abstract specification of presence, without rooms, heaps or association lists,
  and the proof that the hub implements it.
\<close>

section \<open>The specification\<close>

text \<open>
  For every room: the socket of each present user, who raised an emergency, and the
  last position of each user.
\<close>

record presence =
  ps_socket :: "uuid \<Rightarrow> uuid \<Rightarrow> cid option"
  ps_emergency :: "uuid \<Rightarrow> uuid \<Rightarrow> bool"
  ps_location :: "uuid \<Rightarrow> uuid \<Rightarrow> LocationEvent option"

definition spec_empty :: presence where
  "spec_empty = \<lparr>ps_socket = (\<lambda>_ _. None), ps_emergency = (\<lambda>_ _. False), ps_location = (\<lambda>_ _. None)\<rparr>"

definition put :: "uuid \<Rightarrow> uuid \<Rightarrow> 'v \<Rightarrow> (uuid \<Rightarrow> uuid \<Rightarrow> 'v) \<Rightarrow> uuid \<Rightarrow> uuid \<Rightarrow> 'v" where
  "put r u v f = f(r := (f r)(u := v))"

definition spec_connect :: "uuid \<Rightarrow> uuid \<Rightarrow> cid \<Rightarrow> presence \<Rightarrow> bool \<times> presence" where
  "spec_connect r u c p = (ps_socket p r u = None, p\<lparr>ps_socket := put r u (Some c) (ps_socket p)\<rparr>)"

text \<open>Nothing is remembered about a room nobody is connected to once somebody has left it.\<close>

definition spec_forget :: "uuid \<Rightarrow> presence \<Rightarrow> presence" where
  "spec_forget r p =
     (if \<forall>u. ps_socket p r u = None
      then p\<lparr>ps_emergency := (ps_emergency p)(r := \<lambda>_. False), ps_location := (ps_location p)(r := \<lambda>_. None)\<rparr> else p)"

definition spec_disconnect :: "uuid \<Rightarrow> uuid \<Rightarrow> cid \<Rightarrow> presence \<Rightarrow> (bool \<times> bool) \<times> presence" where
  "spec_disconnect r u c p =
     (if ps_socket p r u = Some c
      then ((True, ps_emergency p r u), spec_forget r (p\<lparr>ps_socket := put r u None (ps_socket p),
        ps_emergency := put r u False (ps_emergency p), ps_location := put r u None (ps_location p)\<rparr>))
      else ((False, False), spec_forget r p))"

definition spec_emergency :: "uuid \<Rightarrow> uuid \<Rightarrow> bool \<Rightarrow> presence \<Rightarrow> bool \<times> presence" where
  "spec_emergency r u active p = (active \<noteq> ps_emergency p r u, p\<lparr>ps_emergency := put r u active (ps_emergency p)\<rparr>)"

definition spec_locate :: "uuid \<Rightarrow> LocationEvent \<Rightarrow> presence \<Rightarrow> presence" where
  "spec_locate r ev p = p\<lparr>ps_location := put r (LevUserID ev) (Some ev) (ps_location p)\<rparr>"

text \<open>A frame from the socket of the user \<open>u\<close> in the room \<open>r\<close>, read at the time \<open>ts\<close>.\<close>

fun spec_frame :: "uuid \<Rightarrow> uuid \<Rightarrow> int \<Rightarrow> inbound \<Rightarrow> presence \<Rightarrow> presence" where
  "spec_frame r u ts BadFrame p = p"
| "spec_frame r u ts (InFrame t loc act) p =
     (if t = ClientMsgLocation then (case loc of None \<Rightarrow> p | Some l \<Rightarrow> spec_locate r (location_event u l ts) p)
      else if t = ClientMsgEmergency then (case act of None \<Rightarrow> p | Some active \<Rightarrow> snd (spec_emergency r u active p))
      else p)"

section \<open>The hub implements it\<close>

definition presence_of :: "hub \<Rightarrow> presence" where
  "presence_of h = \<lparr>ps_socket = (\<lambda>r u. socket_of r u h), ps_emergency = (\<lambda>r u. u \<in> set (EmergencyUserIDs r h)),
     ps_location = (\<lambda>r u. location_of r u h)\<rparr>"

lemma presence_of_simps [simp]:
  "ps_socket (presence_of h) r u = socket_of r u h" "ps_emergency (presence_of h) r u = (u \<in> set (EmergencyUserIDs r h))"
  "ps_location (presence_of h) r u = location_of r u h"
  by (simp_all add: presence_of_def)

lemma presence_eqI:
  "(\<And>r u. socket_of r u h = ps_socket p r u) \<Longrightarrow> (\<And>r u. (u \<in> set (EmergencyUserIDs r h)) = ps_emergency p r u) \<Longrightarrow>
   (\<And>r u. location_of r u h = ps_location p r u) \<Longrightarrow> presence_of h = p"
  by (cases p) (simp add: presence_of_def fun_eq_iff)

lemma presence_of_cong: "h_rooms h' = h_rooms h \<Longrightarrow> presence_of h' = presence_of h"
  by (simp add: presence_of_def socket_of_def EmergencyUserIDs_def location_of_def)

lemma presence_of_new: "presence_of NewHub = spec_empty"
  by (simp add: presence_of_def spec_empty_def NewHub_def socket_of_def EmergencyUserIDs_def location_of_def)

lemma join_refines:
  assumes "join r c h = (became, h')"
  shows "spec_connect r (cl_user (h_heap h c)) c (presence_of h) = (became, presence_of h')"
proof -
  obtain rs h1 where r: "roomFor r h = (rs, h1)" by force
  define h2 where "h2 = (case map_of (rs_clients rs) (cl_user (h_heap h c)) of None \<Rightarrow> h1
    | Some e \<Rightarrow> on_client e (close ''replaced by new connection'') h1)"
  have "h_rooms h2 = h_rooms h1" by (simp add: h2_def split: option.splits)
  then have "h_rooms h' = (h_rooms h)(r := Some (rs\<lparr>rs_clients := AList.update (cl_user (h_heap h c)) c (rs_clients rs)\<rparr>))"
    using assms r roomFor_frame [OF r] by (auto simp: join_def Let_def h2_def [symmetric])
  moreover have "EmergencyUserIDs r h = rs_emergencies rs" "location_of r u h = map_of (rs_locations rs) u" for u
    using r by (auto simp: roomFor_def EmergencyUserIDs_def location_of_def newRoomState_def split: option.splits)
  ultimately have "EmergencyUserIDs r' h' = EmergencyUserIDs r' h" "location_of r' u h' = location_of r' u h" for r' u
    by (auto simp: EmergencyUserIDs_def location_of_def)
  with join_run(1,2)[OF assms] show ?thesis
    by (auto simp: spec_connect_def put_def intro!: presence_eqI [symmetric])
qed

lemma leave_refines:
  assumes "leave r c h = (res, h')"
  shows "spec_disconnect r (cl_user (h_heap h c)) c (presence_of h) = (res, presence_of h')"
proof (cases "h_rooms h r")
  case None
  then have "presence_of h = spec_forget r (presence_of h)"
    by (intro presence_eqI) (auto simp: spec_forget_def EmergencyUserIDs_def location_of_def socket_of_def)
  with assms None show ?thesis by (simp add: leave_def spec_disconnect_def socket_of_def)
next
  case (Some rs)
  let ?u = "cl_user (h_heap h c)"
  define rs' where "rs' = (if map_of (rs_clients rs) ?u = Some c
    then rs\<lparr>rs_clients := AList.delete ?u (rs_clients rs), rs_locations := AList.delete ?u (rs_locations rs),
            rs_emergencies := removeAll ?u (rs_emergencies rs)\<rparr> else rs)"
  have rooms: "h_rooms h' = (h_rooms h)(r := if rs_clients rs' = [] then None else Some rs')"
    and res: "res = (map_of (rs_clients rs) ?u = Some c, map_of (rs_clients rs) ?u = Some c \<and> ?u \<in> set (rs_emergencies rs))"
    using assms Some by (auto simp: leave_def Let_def rs'_def [symmetric])
  have empty: "rs_clients rs' = [] \<longleftrightarrow> (\<forall>v. map_of (rs_clients rs') v = None)"
    by (cases "rs_clients rs'") (auto simp: fun_eq_iff)
  show ?thesis
  proof (cases "map_of (rs_clients rs) ?u = Some c")
    case True
    then show ?thesis using res rooms empty Some
      by (auto simp: spec_disconnect_def spec_forget_def put_def rs'_def socket_of_def EmergencyUserIDs_def location_of_def
          delete_conv' intro!: presence_eqI [symmetric] split: if_splits)
  next
    case False
    then show ?thesis using res rooms empty Some
      by (auto simp: spec_disconnect_def spec_forget_def rs'_def socket_of_def EmergencyUserIDs_def location_of_def
          intro!: presence_eqI [symmetric] split: if_splits)
  qed
qed

lemma SetEmergency_refines:
  assumes "SetEmergency r u active h = (changed, h')"
  shows "spec_emergency r u active (presence_of h) = (changed, presence_of h')"
proof -
  have "presence_of h' = snd (spec_emergency r u active (presence_of h))"
    by (rule presence_eqI) (simp_all add: SetEmergency_frame [OF assms] spec_emergency_def put_def)
  with SetEmergency_frame [OF assms] show ?thesis by (simp add: spec_emergency_def)
qed

lemma recordLocation_refines: "presence_of (recordLocation r ev h) = spec_locate r ev (presence_of h)"
  by (rule presence_eqI) (simp_all add: recordLocation_frame spec_locate_def put_def)

lemma presence_of_sends [simp]:
  "presence_of (broadcast r t p ex h) = presence_of h" "presence_of (sendTo c t p h) = presence_of h"
  "presence_of (on_client c f h) = presence_of h" "presence_of (snd (roomFor r h)) = presence_of h"
  "presence_of (snd (alloc_client u r h)) = presence_of h"
  by (auto simp: sendTo_def alloc_client_def intro: presence_of_cong)
    (auto simp: presence_of_def roomFor_def socket_of_def EmergencyUserIDs_def location_of_def newRoomState_def
      fun_eq_iff split: option.splits)

lemma snapshot_presence: "presence_of (w_rt (snd (Hub_snapshot roomID selfID w))) = presence_of (w_rt w)"
proof -
  have "keeps (\<lambda>v. presence_of (w_rt v) = presence_of (w_rt w)) (Hub_snapshot roomID selfID)"
    unfolding Hub_snapshot_def store_methods
    by (intro keeps_andThen keeps_map_err keeps_onErr keeps_asks keeps_effect
        keeps_stmt_rt [of "\<lambda>h. presence_of h = presence_of (w_rt w)"] keeps_ok keeps_case_option keeps_result) simp_all
  then show ?thesis by (rule keepsD) simp
qed

lemma ws_start_refines:
  assumes "ws_start r u w = (c, w')"
  shows "presence_of (w_rt w') = snd (spec_connect r u c (presence_of (w_rt w)))"
proof -
  obtain h1 where al: "alloc_client u r (w_rt w) = (c, h1)" "cl_user (h_heap h1 c) = u" "presence_of h1 = presence_of (w_rt w)"
    using assms presence_of_sends(5)[of u r "w_rt w"]
    by (auto simp: ws_start_def Let_def alloc_client_def newClient_def split: prod.splits)
  obtain b h2 where j: "join r c h1 = (b, h2)" by force
  obtain snap w1 where sn: "Hub_snapshot r u (w\<lparr>w_rt := h2\<rparr>) = (snap, w1)" by force
  have "presence_of (w_rt w1) = presence_of h2" using snapshot_presence [of r u "w\<lparr>w_rt := h2\<rparr>"] sn by simp
  moreover have "presence_of (w_rt w') = presence_of (w_rt w1)"
    using assms al(1) j sn by (auto simp: ws_start_def Let_def BroadcastMemberPresent_def split: sum.splits)
  ultimately show ?thesis using join_refines [OF j] al by simp
qed

lemma close_refines:
  "presence_of (ServeHTTP_close c h) =
   snd (spec_disconnect (cl_room (h_heap h c)) (cl_user (h_heap h c)) c (presence_of h))"
proof -
  let ?h1 = "on_client c (close ''read loop ended'') h"
  obtain a b h2 where l: "leave (cl_room (h_heap h c)) c ?h1 = ((a, b), h2)" by (metis surj_pair)
  from leave_refines [OF l] have "presence_of h2 = snd (spec_disconnect (cl_room (h_heap h c)) (cl_user (h_heap h c)) c (presence_of h))"
    by simp
  then show ?thesis using l by (simp add: ServeHTTP_close_def Let_def BroadcastMemberAbsent_def BroadcastEmergency_def)
qed

lemma frame_refines:
  "presence_of (readPump_frame ts c f h) = spec_frame (cl_room (h_heap h c)) (cl_user (h_heap h c)) ts f (presence_of h)"
proof (cases f)
  case (InFrame t loc act)
  have "presence_of (case SetEmergency r u active h of (changed, h1) \<Rightarrow> if changed then BroadcastEmergency r u active h1 else h1) =
      snd (spec_emergency r u active (presence_of h))" for r u active
    using SetEmergency_refines [of r u active h]
    by (cases "SetEmergency r u active h") (simp add: BroadcastEmergency_def)
  moreover have "ClientMsgPing \<noteq> ClientMsgLocation" "ClientMsgPing \<noteq> ClientMsgEmergency"
    by (simp_all add: ClientMsgPing_def ClientMsgLocation_def ClientMsgEmergency_def)
  ultimately show ?thesis
    by (simp add: InFrame Let_def recordLocation_refines split: option.splits)
qed simp

lemma call_refines: "bc_call hub_broadcaster f \<Longrightarrow> presence_of (f h) = presence_of h"
  by (erule bc_call.cases) (auto simp: hub_broadcaster_def hub_broadcasts intro: presence_of_cong)

text \<open>
  C8: The hub implements the specification of presence.  A new hub knows nobody; opening
  a socket, closing one and every frame a client sends act on the sockets, the
  emergencies and the positions of the rooms exactly as the specification says, with
  the same results of \<open>join\<close>, \<open>leave\<close> and \<open>SetEmergency\<close>; no announcement of the room
  service has any effect on them; and the three queries answer what the specification
  knows.
\<close>
theorem hub_refines_presence:
  "presence_of NewHub = spec_empty \<and>
   (case ws_start r u w of (c, w') \<Rightarrow> presence_of (w_rt w') = snd (spec_connect r u c (presence_of (w_rt w)))) \<and>
   presence_of (ServeHTTP_close c h) =
     snd (spec_disconnect (cl_room (h_heap h c)) (cl_user (h_heap h c)) c (presence_of h)) \<and>
   presence_of (readPump_frame ts c f h) =
     spec_frame (cl_room (h_heap h c)) (cl_user (h_heap h c)) ts f (presence_of h) \<and>
   fst (join r c h) = fst (spec_connect r (cl_user (h_heap h c)) c (presence_of h)) \<and>
   fst (leave r c h) = fst (spec_disconnect r (cl_user (h_heap h c)) c (presence_of h)) \<and>
   fst (SetEmergency r u active h) = fst (spec_emergency r u active (presence_of h)) \<and>
   (bc_call hub_broadcaster g \<longrightarrow> presence_of (g h) = presence_of h) \<and>
   IsPresent r u h = (ps_socket (presence_of h) r u \<noteq> None) \<and>
   set (PresentUserIDs r h) = {u. ps_socket (presence_of h) r u \<noteq> None} \<and>
   set (EmergencyUserIDs r h) = {u. ps_emergency (presence_of h) r u}"
proof -
  have "case ws_start r u w of (c, w') \<Rightarrow> presence_of (w_rt w') = snd (spec_connect r u c (presence_of (w_rt w)))"
    using ws_start_refines [of r u w] by (simp split: prod.splits)
  moreover have "fst (join r c h) = fst (spec_connect r (cl_user (h_heap h c)) c (presence_of h))"
    using join_refines [of r c h] by (metis fst_conv surj_pair)
  moreover have "fst (leave r c h) = fst (spec_disconnect r (cl_user (h_heap h c)) c (presence_of h))"
    using leave_refines [of r c h] by (metis fst_conv surj_pair)
  moreover have "fst (SetEmergency r u active h) = fst (spec_emergency r u active (presence_of h))"
    using SetEmergency_refines [of r u active h] by (metis fst_conv surj_pair)
  moreover have "set (PresentUserIDs r h) = {u. ps_socket (presence_of h) r u \<noteq> None}"
    by (cases "h_rooms h r") (auto simp: PresentUserIDs_def socket_of_def dom_map_of_conv_image_fst [symmetric] dom_def)
  ultimately show ?thesis
    by (simp add: presence_of_new close_refines frame_refines call_refines IsPresent_socket)
qed

theorem hub_refines_presence_witness:
  "presence_of (KickConnection 10 2 1 demo_hub) = presence_of demo_hub \<and>
   ps_socket (presence_of demo_hub) 10 2 = Some 1 \<and>
   ps_socket (presence_of (ServeHTTP_close 1 demo_hub)) 10 2 = None"
proof -
  have "bc_call hub_broadcaster (KickConnection 10 2 1)"
    using bc_call.kick [of hub_broadcaster 10 2 1] by (simp add: hub_broadcaster_def)
  then have "presence_of (KickConnection 10 2 1 demo_hub) = presence_of demo_hub"
    using hub_refines_presence [where g = "KickConnection 10 2 1" and h = demo_hub and w = "demo_world demo_hub"] by blast
  moreover have "socket_of 10 2 demo_hub = Some 1" "socket_of 10 2 (ServeHTTP_close 1 demo_hub) = None" by code_simp+
  ultimately show ?thesis by (simp only: presence_of_simps)
qed

end
