(* ===== verification/HubRace.thy ===== *)
theory HubRace
  imports HubInvariant
begin

text \<open>
  The methods of \<open>internal/realtime/hub.go\<close> cut at their locks.  A room state
  is a pointer that a method may still hold after the room has left the map, so the
  room states live in a store of their own.  Every connection is a thread that runs one
  section between two locks at a time, and the sections of all threads interleave
  freely.
\<close>

section \<open>Sections\<close>

type_synonym rid = nat

text \<open>What a thread does with a room state once it holds a pointer to it: \<open>join\<close>,
  \<open>recordLocation\<close>, \<open>SetEmergency\<close>, and the readers (\<open>snapshot\<close>).\<close>

datatype work = Insert | Record LocationEvent | Flag bool | Peek

datatype pc = Idle | Looking work | Creating work | Holding work rid | Serving | Leaving | Removing rid | Dropping | Gone

record shared =
  sh_rooms :: "uuid \<Rightarrow> rid option"
  sh_states :: "rid \<Rightarrow> roomState"
  sh_next :: rid
  sh_heap :: "cid \<Rightarrow> client"
  sh_pc :: "cid \<Rightarrow> pc"

definition shared_start :: shared where
  "shared_start = \<lparr>sh_rooms = (\<lambda>_. None), sh_states = (\<lambda>_. newRoomState), sh_next = 0,
     sh_heap = (\<lambda>_. newClient 0 0), sh_pc = (\<lambda>_. Idle)\<rparr>"

definition goto :: "cid \<Rightarrow> pc \<Rightarrow> shared \<Rightarrow> shared" where
  "goto c p s = s\<lparr>sh_pc := (sh_pc s)(c := p)\<rparr>"

text \<open>The section of \<open>roomFor\<close> under the write lock of the hub.\<close>

definition roomFor_create :: "uuid \<Rightarrow> shared \<Rightarrow> rid \<times> shared" where
  "roomFor_create r s =
     (case sh_rooms s r of
        Some rid \<Rightarrow> (rid, s)
      | None \<Rightarrow> (sh_next s, s\<lparr>sh_rooms := (sh_rooms s)(r := Some (sh_next s)),
          sh_states := (sh_states s)(sh_next s := newRoomState), sh_next := Suc (sh_next s)\<rparr>))"

text \<open>The sections under the lock of a room state.\<close>

definition set_state :: "rid \<Rightarrow> roomState \<Rightarrow> shared \<Rightarrow> shared" where
  "set_state rid rs s = s\<lparr>sh_states := (sh_states s)(rid := rs)\<rparr>"

fun locked :: "work \<Rightarrow> cid \<Rightarrow> rid \<Rightarrow> shared \<Rightarrow> shared" where
  "locked Insert c rid s =
     (let rs = sh_states s rid; uid = cl_user (sh_heap s c);
          s1 = (case map_of (rs_clients rs) uid of None \<Rightarrow> s
            | Some e \<Rightarrow> s\<lparr>sh_heap := (sh_heap s)(e := close ''replaced by new connection'' (sh_heap s e))\<rparr>)
      in set_state rid (rs\<lparr>rs_clients := AList.update uid c (rs_clients rs)\<rparr>) s1)"
| "locked (Record ev) c rid s =
     (let rs = sh_states s rid in set_state rid (rs\<lparr>rs_locations := AList.update (LevUserID ev) ev (rs_locations rs)\<rparr>) s)"
| "locked (Flag active) c rid s =
     (let rs = sh_states s rid; uid = cl_user (sh_heap s c); has = uid \<in> set (rs_emergencies rs)
      in if active \<and> \<not> has then set_state rid (rs\<lparr>rs_emergencies := uid # rs_emergencies rs\<rparr>) s
         else if \<not> active \<and> has then set_state rid (rs\<lparr>rs_emergencies := removeAll uid (rs_emergencies rs)\<rparr>) s
         else s)"
| "locked Peek c rid s = s"

definition leave_remove :: "cid \<Rightarrow> rid \<Rightarrow> shared \<Rightarrow> shared" where
  "leave_remove c rid s =
     (let rs = sh_states s rid; uid = cl_user (sh_heap s c)
      in if map_of (rs_clients rs) uid = Some c
         then set_state rid (rs\<lparr>rs_clients := AList.delete uid (rs_clients rs),
                rs_locations := AList.delete uid (rs_locations rs),
                rs_emergencies := removeAll uid (rs_emergencies rs)\<rparr>) s
         else s)"

text \<open>The section of \<open>leave\<close> under the write lock of the hub.\<close>

definition leave_drop :: "uuid \<Rightarrow> shared \<Rightarrow> shared" where
  "leave_drop r s =
     (case sh_rooms s r of
        Some rid \<Rightarrow> if rs_clients (sh_states s rid) = [] then s\<lparr>sh_rooms := (sh_rooms s)(r := None)\<rparr> else s
      | None \<Rightarrow> s)"

section \<open>Threads\<close>

text \<open>
  A connection begins (\<open>ServeHTTP\<close> calls \<open>join\<close>), takes up work while it is served,
  and finishes; \<open>Advance\<close> runs its next section.  \<open>None\<close>: not possible now.
\<close>

datatype thread_move = Begin uuid uuid | Take work | Finish | Advance

fun move :: "thread_move \<Rightarrow> cid \<Rightarrow> shared \<Rightarrow> shared option" where
  "move (Begin u r) c s =
     (if sh_pc s c = Idle
      then Some (goto c (Looking Insert) (s\<lparr>sh_heap := (sh_heap s)(c := newClient u r)\<rparr>)) else None)"
| "move (Take k) c s = (if sh_pc s c = Serving \<and> k \<noteq> Insert then Some (goto c (Looking k) s) else None)"
| "move Finish c s = (if sh_pc s c = Serving then Some (goto c Leaving s) else None)"
| "move Advance c s =
     (let r = cl_room (sh_heap s c) in
      case sh_pc s c of
        Looking k \<Rightarrow> Some (goto c (case sh_rooms s r of Some rid \<Rightarrow> Holding k rid | None \<Rightarrow> Creating k) s)
      | Creating k \<Rightarrow> (case roomFor_create r s of (rid, s') \<Rightarrow> Some (goto c (Holding k rid) s'))
      | Holding k rid \<Rightarrow> Some (goto c Serving (locked k c rid s))
      | Leaving \<Rightarrow> Some (goto c (case sh_rooms s r of Some rid \<Rightarrow> Removing rid | None \<Rightarrow> Gone) s)
      | Removing rid \<Rightarrow>
          (let s' = leave_remove c rid s
           in Some (goto c (if rs_clients (sh_states s' rid) = [] then Dropping else Gone) s'))
      | Dropping \<Rightarrow> Some (goto c Gone (leave_drop r s))
      | _ \<Rightarrow> None)"

inductive interleaving :: "shared \<Rightarrow> bool" where
  start: "interleaving shared_start"
| step: "interleaving s \<Longrightarrow> move m c s = Some s' \<Longrightarrow> interleaving s'"

text \<open>A schedule is a list of moves.\<close>

fun moves :: "(thread_move \<times> cid) list \<Rightarrow> shared \<Rightarrow> shared option" where
  "moves [] s = Some s"
| "moves ((m, c) # ms) s = (case move m c s of None \<Rightarrow> None | Some s' \<Rightarrow> moves ms s')"

lemma interleaving_moves: "moves ms s = Some s' \<Longrightarrow> interleaving s \<Longrightarrow> interleaving s'"
  by (induction ms s rule: moves.induct) (auto split: option.splits intro: interleaving.step)

definition listed :: "uuid \<Rightarrow> uuid \<Rightarrow> shared \<Rightarrow> bool" where
  "listed r u s = (case sh_rooms s r of None \<Rightarrow> False | Some rid \<Rightarrow> map_of (rs_clients (sh_states s rid)) u \<noteq> None)"

section \<open>An invariant of all interleavings\<close>

text \<open>The thread at \<open>p\<close> will look at the room \<open>rid\<close> again before it is gone.\<close>

fun responsible :: "pc \<Rightarrow> rid \<Rightarrow> bool" where
  "responsible Idle rid = False"
| "responsible Gone rid = False"
| "responsible (Removing rid') rid = (rid' = rid)"
| "responsible _ rid = True"

definition registered :: "shared \<Rightarrow> uuid \<Rightarrow> rid \<Rightarrow> uuid \<times> cid \<Rightarrow> bool" where
  "registered s r rid = (\<lambda>(u, c). cl_user (sh_heap s c) = u \<and> cl_room (sh_heap s c) = r \<and>
     responsible (sh_pc s c) rid \<and> sh_pc s c \<noteq> Dropping)"

definition pointer :: "pc \<Rightarrow> rid option" where
  "pointer p = (case p of Holding k rid \<Rightarrow> Some rid | Removing rid \<Rightarrow> Some rid | _ \<Rightarrow> None)"

definition room_safe :: "shared \<Rightarrow> uuid \<Rightarrow> rid \<Rightarrow> bool" where
  "room_safe s r rid \<longleftrightarrow> rid < sh_next s \<and> distinct (map fst (rs_clients (sh_states s rid))) \<and>
     (\<forall>x \<in> set (rs_clients (sh_states s rid)). registered s r rid x) \<and>
     (\<exists>c. cl_room (sh_heap s c) = r \<and> responsible (sh_pc s c) rid) \<and>
     (\<forall>r'. sh_rooms s r' = Some rid \<longrightarrow> r' = r) \<and>
     (\<forall>c. pointer (sh_pc s c) = Some rid \<longrightarrow> cl_room (sh_heap s c) = r)"

definition race_ok :: "shared \<Rightarrow> bool" where
  "race_ok s \<longleftrightarrow> (\<forall>r rid. sh_rooms s r = Some rid \<longrightarrow> room_safe s r rid) \<and>
     (\<forall>c rid. pointer (sh_pc s c) = Some rid \<longrightarrow> rid < sh_next s)"

lemma race_okD:
  assumes "race_ok s"
  shows "sh_rooms s r = Some rid \<Longrightarrow> room_safe s r rid" "pointer (sh_pc s c) = Some rid \<Longrightarrow> rid < sh_next s"
  using assms by (auto simp: race_ok_def)

lemma goto_simps [simp]:
  "sh_rooms (goto c p s) = sh_rooms s" "sh_states (goto c p s) = sh_states s" "sh_next (goto c p s) = sh_next s"
  "sh_heap (goto c p s) = sh_heap s" "sh_pc (goto c p s) = (sh_pc s)(c := p)"
  by (simp_all add: goto_def)

lemma set_state_simps [simp]:
  "sh_rooms (set_state rid rs s) = sh_rooms s" "sh_states (set_state rid rs s) = (sh_states s)(rid := rs)"
  "sh_next (set_state rid rs s) = sh_next s" "sh_heap (set_state rid rs s) = sh_heap s" "sh_pc (set_state rid rs s) = sh_pc s"
  by (simp_all add: set_state_def)

lemma race_ok_start: "race_ok shared_start"
  by (simp add: race_ok_def shared_start_def pointer_def)

text \<open>A thread may go on when it stays responsible, or when somebody else is.\<close>

lemma race_ok_goto:
  assumes ok: "race_ok s"
    and duty: "\<And>rid. sh_rooms s (cl_room (sh_heap s c)) = Some rid \<Longrightarrow>
      responsible p rid \<and> p \<noteq> Dropping \<or>
      c \<notin> snd ` set (rs_clients (sh_states s rid)) \<and>
        (responsible p rid \<or> (\<exists>c'. c' \<noteq> c \<and> cl_room (sh_heap s c') = cl_room (sh_heap s c) \<and> responsible (sh_pc s c') rid))"
    and ptr: "\<And>rid. pointer p = Some rid \<Longrightarrow> rid < sh_next s \<and> (\<forall>r. sh_rooms s r = Some rid \<longrightarrow> r = cl_room (sh_heap s c))"
  shows "race_ok (goto c p s)"
proof -
  have "room_safe (goto c p s) r rid" if r: "sh_rooms s r = Some rid" for r rid
  proof -
    note safe = race_okD(1)[OF ok r, unfolded room_safe_def]
    have "registered (goto c p s) r rid x" if "x \<in> set (rs_clients (sh_states s rid))" for x
    proof (cases x)
      case (Pair u d)
      then have "registered s r rid (u, d)" using safe that by blast
      moreover have "d = c \<Longrightarrow> responsible p rid \<and> p \<noteq> Dropping"
        using calculation duty [of rid] r Pair that by (force simp: registered_def)
      ultimately show ?thesis by (simp add: registered_def Pair)
    qed
    moreover have "\<exists>d. cl_room (sh_heap s d) = r \<and> responsible (sh_pc (goto c p s) d) rid"
    proof -
      from safe obtain d where "cl_room (sh_heap s d) = r" "responsible (sh_pc s d) rid" by blast
      with duty [of rid] r show ?thesis by (cases "d = c") (auto intro: exI [of _ c])
    qed
    moreover have "cl_room (sh_heap s d) = r" if "pointer (sh_pc (goto c p s) d) = Some rid" for d
    proof (cases "d = c")
      case True
      with that have "pointer p = Some rid" by simp
      from ptr [OF this] r True show ?thesis by blast
    next
      case False
      with that safe show ?thesis by simp
    qed
    ultimately show ?thesis using safe by (simp add: room_safe_def)
  qed
  then show ?thesis using ok ptr by (auto simp: race_ok_def)
qed

lemma race_ok_set_state:
  assumes "race_ok s"
    and "\<And>r. sh_rooms s r = Some rid \<Longrightarrow> distinct (map fst (rs_clients rs)) \<and> (\<forall>x \<in> set (rs_clients rs). registered s r rid x)"
  shows "race_ok (set_state rid rs s)"
  using assms by (auto simp: race_ok_def room_safe_def registered_def)

lemma race_ok_heap:
  assumes "race_ok s" "\<And>c. cl_user (h c) = cl_user (sh_heap s c)" "\<And>c. cl_room (h c) = cl_room (sh_heap s c)"
  shows "race_ok (s\<lparr>sh_heap := h\<rparr>)"
  using assms by (auto simp: race_ok_def room_safe_def registered_def)

lemma race_ok_create:
  assumes ok: "race_ok s" and c: "sh_pc s c = Creating k"
  shows "race_ok (snd (roomFor_create (cl_room (sh_heap s c)) s))"
proof (cases "sh_rooms s (cl_room (sh_heap s c))")
  case None
  have "responsible (sh_pc s c) n" for n by (simp add: c)
  moreover have "sh_rooms s r \<noteq> Some (sh_next s)" "pointer (sh_pc s d) \<noteq> Some (sh_next s)" for r d
    using race_okD(1)[OF ok, of r "sh_next s"] race_okD(2)[OF ok, of d "sh_next s"] by (auto simp: room_safe_def)
  ultimately show ?thesis using ok None
    by (auto simp: race_ok_def room_safe_def registered_def roomFor_create_def newRoomState_def less_SucI)
qed (simp add: roomFor_create_def ok)

lemma race_ok_drop: "race_ok s \<Longrightarrow> race_ok (leave_drop r s)"
  by (auto simp: race_ok_def room_safe_def registered_def leave_drop_def split: option.splits)

lemma race_ok_begin:
  assumes ok: "race_ok s" and c: "sh_pc s c = Idle"
  shows "race_ok (s\<lparr>sh_heap := (sh_heap s)(c := newClient u r)\<rparr>)"
proof -
  have "d \<noteq> c" if "registered s r' rid (v, d)" for r' rid v d
    using that c by (auto simp: registered_def)
  moreover have "d \<noteq> c" if "responsible (sh_pc s d) rid" for d rid using that c by auto
  moreover have "d \<noteq> c" if "pointer (sh_pc s d) = Some rid" for d rid using that c by (auto simp: pointer_def)
  ultimately have "room_safe (s\<lparr>sh_heap := (sh_heap s)(c := newClient u r)\<rparr>) r' rid" if "room_safe s r' rid" for r' rid
    using that unfolding room_safe_def registered_def by (simp split: prod.splits) (metis (no_types, lifting))
  then show ?thesis using ok by (auto simp: race_ok_def)
qed

lemma set_update_sub: "x \<in> set (AList.update k v al) \<Longrightarrow> x = (k, v) \<or> x \<in> set al"
  by (induction al) (auto split: if_splits)

lemma race_ok_locked:
  assumes ok: "race_ok s" and c: "sh_pc s c = Holding k rid"
  shows "race_ok (locked k c rid s)"
proof (cases k)
  case Insert
  define h where "h = (case map_of (rs_clients (sh_states s rid)) (cl_user (sh_heap s c)) of None \<Rightarrow> sh_heap s
    | Some e \<Rightarrow> (sh_heap s)(e := close ''replaced by new connection'' (sh_heap s e)))"
  have h: "cl_user (h d) = cl_user (sh_heap s d)" "cl_room (h d) = cl_room (sh_heap s d)" for d
    by (simp_all add: h_def split: option.splits)
  have s: "locked k c rid s = set_state rid (sh_states s rid\<lparr>rs_clients :=
      AList.update (cl_user (sh_heap s c)) c (rs_clients (sh_states s rid))\<rparr>) (s\<lparr>sh_heap := h\<rparr>)"
    by (simp add: Insert h_def Let_def split: option.splits)
  have ptr: "pointer (sh_pc s c) = Some rid" by (simp add: c pointer_def)
  have "registered (s\<lparr>sh_heap := h\<rparr>) r rid x"
    if r: "sh_rooms s r = Some rid" and x: "x \<in> set (AList.update (cl_user (sh_heap s c)) c (rs_clients (sh_states s rid)))" for r x
    using set_update_sub [OF x]
  proof
    assume "x = (cl_user (sh_heap s c), c)"
    with race_okD(1)[OF ok r] ptr c show ?thesis by (simp add: registered_def h room_safe_def)
  next
    assume "x \<in> set (rs_clients (sh_states s rid))"
    with race_okD(1)[OF ok r] have "registered s r rid x" by (simp add: room_safe_def)
    then show ?thesis by (auto simp: registered_def h)
  qed
  then show ?thesis unfolding s
    using race_okD(1)[OF ok, of _ rid] by (intro race_ok_set_state race_ok_heap ok h) (auto simp: room_safe_def distinct_update)
next
  case (Flag b)
  show ?thesis using ok race_okD(1)[OF ok, of _ rid]
    by (simp add: Flag Let_def race_ok_set_state room_safe_def)
qed (use race_okD(1)[OF ok, of _ rid] in \<open>simp_all add: Let_def ok race_ok_set_state room_safe_def\<close>)

lemma race_ok_remove:
  assumes "race_ok s"
  shows "race_ok (leave_remove c rid s)"
  using assms race_okD(1)[OF assms, of _ rid]
  by (auto simp: leave_remove_def Let_def room_safe_def AList.delete_eq distinct_map_filter intro!: race_ok_set_state)

lemma leave_remove_simps [simp]:
  "sh_rooms (leave_remove c rid s) = sh_rooms s" "sh_next (leave_remove c rid s) = sh_next s"
  "sh_heap (leave_remove c rid s) = sh_heap s" "sh_pc (leave_remove c rid s) = sh_pc s"
  by (simp_all add: leave_remove_def Let_def)

lemma registered_other:
  assumes ok: "race_ok s" and r: "sh_rooms s r = Some rid" and ne: "rs_clients (sh_states s rid) \<noteq> []"
    and c: "c \<notin> snd ` set (rs_clients (sh_states s rid))"
  shows "\<exists>c'. c' \<noteq> c \<and> cl_room (sh_heap s c') = r \<and> responsible (sh_pc s c') rid"
proof -
  obtain u c' where x: "(u, c') \<in> set (rs_clients (sh_states s rid))" using ne by (cases "rs_clients (sh_states s rid)") auto
  with race_okD(1)[OF ok r] have "registered s r rid (u, c')" by (simp add: room_safe_def)
  moreover have "c' \<noteq> c" using x c by force
  ultimately show ?thesis by (auto simp: registered_def)
qed

lemma leave_remove_gone:
  assumes ok: "race_ok s" and r: "sh_rooms s r = Some rid"
  shows "c \<notin> snd ` set (rs_clients (sh_states (leave_remove c rid s) rid))"
proof -
  note safe = race_okD(1)[OF ok r, unfolded room_safe_def]
  have "map_of (rs_clients (sh_states s rid)) u = Some c \<and> u = cl_user (sh_heap s c)"
    if "(u, c) \<in> set (rs_clients (sh_states s rid))" for u
    using that safe by (force simp: registered_def intro: map_of_is_SomeI)
  then show ?thesis by (auto simp: leave_remove_def Let_def AList.delete_eq)
qed

lemma dropping_unregistered:
  assumes "race_ok s" "sh_rooms s r = Some rid" "sh_pc s c = Dropping"
  shows "c \<notin> snd ` set (rs_clients (sh_states s rid))"
  using race_okD(1)[OF assms(1,2)] assms(3) by (auto simp: room_safe_def registered_def)

text \<open>Every move of every thread keeps the invariant.\<close>

lemma race_ok_advance:
  assumes ok: "race_ok s" and m: "move Advance c s = Some s'"
  shows "race_ok s'"
proof -
  let ?r = "cl_room (sh_heap s c)"
  note safe = race_okD(1)[OF ok, unfolded room_safe_def]
  show ?thesis
  proof (cases "sh_pc s c")
    case (Looking k)
    then have s': "s' = goto c (case sh_rooms s ?r of Some rid \<Rightarrow> Holding k rid | None \<Rightarrow> Creating k) s" using m by simp
    show ?thesis unfolding s'
      by (rule race_ok_goto [OF ok]) (use safe in \<open>auto simp: pointer_def split: option.splits\<close>)
  next
    case (Creating k)
    obtain rid s1 where cr: "roomFor_create ?r s = (rid, s1)" by force
    have s1: "race_ok s1" "sh_rooms s1 ?r = Some rid" "sh_heap s1 = sh_heap s"
      using race_ok_create [OF ok Creating] cr by (auto simp: roomFor_create_def split: option.splits)
    have s': "s' = goto c (Holding k rid) s1" using m Creating cr by simp
    have "rid < sh_next s1" "\<forall>r. sh_rooms s1 r = Some rid \<longrightarrow> r = ?r"
      using race_okD(1)[OF s1(1,2)] unfolding room_safe_def by blast+
    then show ?thesis unfolding s' by (intro race_ok_goto [OF s1(1)]) (simp_all add: pointer_def s1(3))
  next
    case (Holding k rid)
    then have s': "s' = goto c Serving (locked k c rid s)" using m by simp
    show ?thesis unfolding s' by (rule race_ok_goto [OF race_ok_locked [OF ok Holding]]) (auto simp: pointer_def)
  next
    case Leaving
    then have s': "s' = goto c (case sh_rooms s ?r of Some rid \<Rightarrow> Removing rid | None \<Rightarrow> Gone) s" using m by simp
    show ?thesis unfolding s'
      by (rule race_ok_goto [OF ok]) (use safe in \<open>auto simp: pointer_def split: option.splits\<close>)
  next
    case (Removing rid)
    let ?s = "leave_remove c rid s"
    have s': "s' = goto c (if rs_clients (sh_states ?s rid) = [] then Dropping else Gone) ?s" using m Removing by (simp add: Let_def)
    note ok' = race_ok_remove [OF ok, of c rid]
    show ?thesis unfolding s'
    proof (rule race_ok_goto [OF ok'])
      fix rid' assume r: "sh_rooms ?s (cl_room (sh_heap ?s c)) = Some rid'"
      show "responsible (if rs_clients (sh_states ?s rid) = [] then Dropping else Gone) rid' \<and>
          (if rs_clients (sh_states ?s rid) = [] then Dropping else Gone) \<noteq> Dropping \<or>
        c \<notin> snd ` set (rs_clients (sh_states ?s rid')) \<and>
          (responsible (if rs_clients (sh_states ?s rid) = [] then Dropping else Gone) rid' \<or>
           (\<exists>c'. c' \<noteq> c \<and> cl_room (sh_heap ?s c') = cl_room (sh_heap ?s c) \<and> responsible (sh_pc ?s c') rid'))"
      proof (cases "rid' = rid")
        case True
        have "c \<notin> snd ` set (rs_clients (sh_states ?s rid))" using leave_remove_gone [OF ok] r True by simp
        with registered_other [OF ok' r] True show ?thesis by simp
      next
        case False
        with race_okD(1)[OF ok', OF r] Removing show ?thesis
          by (fastforce simp: room_safe_def registered_def)
      qed
    qed (auto simp: pointer_def split: if_splits)
  next
    case Dropping
    then have s': "s' = goto c Gone (leave_drop ?r s)" using m by simp
    have d: "sh_heap (leave_drop ?r s) = sh_heap s" "sh_states (leave_drop ?r s) = sh_states s" "sh_pc (leave_drop ?r s) = sh_pc s"
      "sh_rooms (leave_drop ?r s) ?r = Some rid \<Longrightarrow> rs_clients (sh_states s rid) \<noteq> []" for rid
      by (auto simp: leave_drop_def split: option.splits if_splits)
    show ?thesis unfolding s'
    proof (rule race_ok_goto [OF race_ok_drop [OF ok]])
      fix rid assume r: "sh_rooms (leave_drop ?r s) (cl_room (sh_heap (leave_drop ?r s) c)) = Some rid"
      note dropping_unregistered [OF race_ok_drop [OF ok] r] registered_other [OF race_ok_drop [OF ok] r]
      with Dropping d r show "responsible Gone rid \<and> Gone \<noteq> Dropping \<or>
        c \<notin> snd ` set (rs_clients (sh_states (leave_drop ?r s) rid)) \<and>
          (responsible Gone rid \<or> (\<exists>c'. c' \<noteq> c \<and> cl_room (sh_heap (leave_drop ?r s) c') =
            cl_room (sh_heap (leave_drop ?r s) c) \<and> responsible (sh_pc (leave_drop ?r s) c') rid))"
        by simp
    qed (simp add: pointer_def)
  qed (use m in simp_all)
qed

lemma race_ok_move: "move m c s = Some s' \<Longrightarrow> race_ok s \<Longrightarrow> race_ok s'"
proof (cases m)
  case Advance
  then show "move m c s = Some s' \<Longrightarrow> race_ok s \<Longrightarrow> race_ok s'" using race_ok_advance by blast
qed (auto intro!: race_ok_goto race_ok_begin simp: pointer_def split: if_splits)

lemma interleaving_ok: "interleaving s \<Longrightarrow> race_ok s"
  by (induction rule: interleaving.induct) (auto intro: race_ok_start race_ok_move)

section \<open>Uninterrupted sections are the methods of the hub\<close>

definition flat :: "cid \<Rightarrow> shared \<Rightarrow> hub" where
  "flat n s = \<lparr>h_rooms = (\<lambda>r. map_option (sh_states s) (sh_rooms s r)), h_heap = sh_heap s, h_next = n\<rparr>"

fun hub_method :: "work \<Rightarrow> cid \<Rightarrow> hub \<Rightarrow> hub" where
  "hub_method Insert c h = snd (join (cl_room (h_heap h c)) c h)"
| "hub_method (Record ev) c h = recordLocation (cl_room (h_heap h c)) ev h"
| "hub_method (Flag active) c h = snd (SetEmergency (cl_room (h_heap h c)) (cl_user (h_heap h c)) active h)"
| "hub_method Peek c h = snd (roomFor (cl_room (h_heap h c)) h)"

lemma flat_goto [simp]: "flat n (goto c p s) = flat n s"
  by (simp add: flat_def)

lemma flat_state:
  assumes "race_ok s" "sh_rooms s r = Some rid"
  shows "flat n (set_state rid rs s) = put_room r rs (flat n s)"
proof -
  have "sh_rooms s r' \<noteq> Some rid" if "r' \<noteq> r" for r'
    using race_okD(1)[OF assms] that unfolding room_safe_def by blast
  then show ?thesis using assms(2) by (auto simp: flat_def put_room_def fun_eq_iff map_option_case split: option.splits)
qed

lemma flat_locked:
  assumes ok: "race_ok s" and r: "sh_rooms s (cl_room (sh_heap s c)) = Some rid"
  shows "flat n (locked k c rid s) = hub_method k c (flat n s)"
proof -
  have look: "roomFor (cl_room (sh_heap s c)) (flat n s) = (sh_states s rid, flat n s)"
    using r by (simp add: roomFor_def flat_def)
  have heap: "h_heap (flat n s) = sh_heap s" by (simp add: flat_def)
  show ?thesis
  proof (cases k)
    case Insert
    show ?thesis
    proof (cases "map_of (rs_clients (sh_states s rid)) (cl_user (sh_heap s c))")
      case None
      then show ?thesis by (simp add: Insert join_def look heap Let_def flat_state [OF ok r])
    next
      case (Some e)
      let ?s = "s\<lparr>sh_heap := (sh_heap s)(e := close ''replaced by new connection'' (sh_heap s e))\<rparr>"
      have "race_ok ?s" by (rule race_ok_heap [OF ok]) auto
      moreover have "flat n ?s = on_client e (close ''replaced by new connection'') (flat n s)"
        by (simp add: flat_def on_client_def)
      ultimately show ?thesis using r by (simp add: Insert join_def look heap Let_def Some flat_state [of ?s])
    qed
  next
    case (Record ev)
    then show ?thesis by (simp add: recordLocation_def look heap Let_def flat_state [OF ok r])
  next
    case (Flag b)
    then show ?thesis by (simp add: SetEmergency_def look heap Let_def flat_state [OF ok r])
  qed (simp add: look heap)
qed

lemma method_roomFor:
  assumes "race_ok s" "sh_rooms s (cl_room (sh_heap s c)) = None"
  shows "hub_method k c (flat n (snd (roomFor_create (cl_room (sh_heap s c)) s))) = hub_method k c (flat n s)"
proof -
  let ?h = "flat n (snd (roomFor_create (cl_room (sh_heap s c)) s))"
  have fresh: "sh_rooms s r \<noteq> Some (sh_next s)" for r
    using race_okD(1)[OF assms(1), of r "sh_next s"] by (auto simp: room_safe_def)
  have "h_heap ?h = h_heap (flat n s)" "roomFor (cl_room (sh_heap s c)) ?h = roomFor (cl_room (sh_heap s c)) (flat n s)"
    using assms(2) fresh
    by (auto simp: flat_def roomFor_create_def roomFor_def put_room_def fun_eq_iff map_option_case split: option.splits)
  then show ?thesis
    by (cases k) (simp_all add: join_def recordLocation_def SetEmergency_def flat_def)
qed

lemma method_run:
  assumes ok: "race_ok s" and c: "sh_pc s c = Looking k"
  shows "\<exists>j s'. moves (replicate j (Advance, c)) s = Some s' \<and> sh_pc s' c = Serving \<and> flat n s' = hub_method k c (flat n s)"
proof (cases "sh_rooms s (cl_room (sh_heap s c))")
  case (Some rid)
  then have "moves (replicate 2 (Advance, c)) s = Some (goto c Serving (locked k c rid (goto c (Holding k rid) s)))"
    using c by (simp add: numeral_2_eq_2)
  moreover have "flat n (locked k c rid (goto c (Holding k rid) s)) = hub_method k c (flat n (goto c (Holding k rid) s))"
  proof (rule flat_locked)
    show "race_ok (goto c (Holding k rid) s)"
      using race_ok_advance [OF ok, of c "goto c (Holding k rid) s"] c Some by simp
  qed (simp add: Some)
  ultimately show ?thesis by (intro exI [of _ 2]) simp
next
  case None
  let ?s1 = "goto c (Creating k) s"
  obtain s2 where cr: "roomFor_create (cl_room (sh_heap s c)) ?s1 = (sh_next s, s2)"
    using None by (simp add: roomFor_create_def)
  let ?s3 = "goto c (Holding k (sh_next s)) s2"
  have h: "sh_heap s2 = sh_heap s" "sh_rooms s2 (cl_room (sh_heap s c)) = Some (sh_next s)"
    using None cr by (auto simp: roomFor_create_def)
  have m: "move Advance c s = Some ?s1" "move Advance c ?s1 = Some ?s3"
    "move Advance c ?s3 = Some (goto c Serving (locked k c (sh_next s) ?s3))"
    using c None cr h by simp_all
  have ok1: "race_ok ?s1" using race_ok_advance [OF ok m(1)] .
  have ok3: "race_ok ?s3" using race_ok_advance [OF ok1 m(2)] .
  have "moves (replicate 3 (Advance, c)) s = Some (goto c Serving (locked k c (sh_next s) ?s3))"
    using m by (simp add: numeral_3_eq_3 del: move.simps)
  moreover have "flat n (locked k c (sh_next s) ?s3) = hub_method k c (flat n ?s3)"
    by (rule flat_locked [OF ok3]) (simp add: h)
  moreover have "hub_method k c (flat n ?s3) = hub_method k c (flat n s)"
    using method_roomFor [OF ok1, of c] None cr by simp
  ultimately show ?thesis by (intro exI [of _ 3]) simp
qed

lemma leave_run:
  assumes ok: "race_ok s" and c: "sh_pc s c = Leaving"
  shows "\<exists>j s'. moves (replicate j (Advance, c)) s = Some s' \<and> sh_pc s' c = Gone \<and>
    flat n s' = snd (leave (cl_room (sh_heap s c)) c (flat n s))"
proof (cases "sh_rooms s (cl_room (sh_heap s c))")
  case None
  then show ?thesis using c by (intro exI [of _ 1]) (simp add: leave_def flat_def)
next
  case (Some rid)
  let ?r = "cl_room (sh_heap s c)"
  let ?s1 = "goto c (Removing rid) s"
  let ?s2 = "leave_remove c rid ?s1"
  have m: "move Advance c s = Some ?s1" using c Some by simp
  have ok1: "race_ok ?s1" using race_ok_advance [OF ok m] .
  have r1: "sh_rooms ?s1 ?r = Some rid" using Some by simp
  have f2: "flat n ?s2 = put_room ?r (sh_states ?s2 rid) (flat n s)"
  proof (cases "map_of (rs_clients (sh_states s rid)) (cl_user (sh_heap s c)) = Some c")
    case True
    then show ?thesis by (simp add: leave_remove_def Let_def flat_state [OF ok1 r1])
  next
    case False
    then show ?thesis using Some by (auto simp: leave_remove_def Let_def flat_def put_room_def)
  qed
  have lv: "snd (leave ?r c (flat n s)) =
      (if rs_clients (sh_states ?s2 rid) = [] then (flat n ?s2)\<lparr>h_rooms := (h_rooms (flat n ?s2))(?r := None)\<rparr> else flat n ?s2)"
    using Some unfolding f2 by (auto simp: leave_def flat_def leave_remove_def Let_def)
  show ?thesis
  proof (cases "rs_clients (sh_states ?s2 rid) = []")
    case True
    let ?s3 = "goto c Dropping ?s2"
    have "move Advance c ?s1 = Some ?s3" using True by (simp add: Let_def)
    moreover have "move Advance c ?s3 = Some (goto c Gone (leave_drop ?r ?s3))" by (simp add: Let_def)
    ultimately have "moves (replicate 3 (Advance, c)) s = Some (goto c Gone (leave_drop ?r ?s3))"
      using m by (simp add: numeral_3_eq_3 del: move.simps)
    moreover have "flat n (leave_drop ?r ?s3) = (flat n ?s2)\<lparr>h_rooms := (h_rooms (flat n ?s2))(?r := None)\<rparr>"
      using True Some by (auto simp: leave_drop_def flat_def)
    ultimately show ?thesis using True lv by (intro exI [of _ 3]) simp
  next
    case False
    then have "move Advance c ?s1 = Some (goto c Gone ?s2)" by (simp add: Let_def)
    then have "moves (replicate 2 (Advance, c)) s = Some (goto c Gone ?s2)"
      using m by (simp add: numeral_2_eq_2 del: move.simps)
    then show ?thesis using False lv by (intro exI [of _ 2]) simp
  qed
qed

section \<open>What holds whatever the schedule\<close>

definition two_connections :: "(thread_move \<times> cid) list" where
  "two_connections = [(Begin 1 10, 0), (Advance, 0), (Begin 2 10, 1), (Advance, 0), (Advance, 1), (Advance, 0), (Advance, 1)]"

definition two_served :: shared where
  "two_served = the (moves two_connections shared_start)"

lemma two_served_run: "interleaving two_served"
proof -
  have "moves two_connections shared_start \<noteq> None" by code_simp
  then have "moves two_connections shared_start = Some two_served" by (auto simp: two_served_def)
  then show ?thesis by (rule interleaving_moves [OF _ interleaving.start])
qed

text \<open>
  C9: However the goroutines of the connections interleave between the locks of the
  hub, presence is never stale: a user is listed in a room only while a connection of
  that user to that room is still being served or on its way out.  And the hub forgets
  every room: once all connections are gone, no room is left in its map.
\<close>
theorem presence_never_stale:
  assumes "interleaving s"
  shows "(listed r u s \<longrightarrow> (\<exists>c. cl_user (sh_heap s c) = u \<and> cl_room (sh_heap s c) = r \<and> sh_pc s c \<notin> {Idle, Dropping, Gone})) \<and>
    ((\<forall>c. sh_pc s c \<in> {Idle, Gone}) \<longrightarrow> sh_rooms s r = None)"
proof -
  note safe = race_okD(1)[OF interleaving_ok [OF assms], unfolded room_safe_def registered_def]
  have alive: "p \<noteq> Idle \<and> p \<noteq> Gone" if "responsible p rid" for p rid using that by (cases p) auto
  have "\<exists>c. cl_user (sh_heap s c) = u \<and> cl_room (sh_heap s c) = r \<and> sh_pc s c \<notin> {Idle, Dropping, Gone}" if "listed r u s"
  proof -
    from that obtain rid c where r: "sh_rooms s r = Some rid" and c: "(u, c) \<in> set (rs_clients (sh_states s rid))"
      by (auto simp: listed_def split: option.splits dest: map_of_SomeD)
    have "cl_user (sh_heap s c) = u \<and> cl_room (sh_heap s c) = r \<and> responsible (sh_pc s c) rid \<and> sh_pc s c \<noteq> Dropping"
      using safe [OF r] c by fast
    with alive [of "sh_pc s c" rid] show ?thesis by (intro exI [of _ c]) simp
  qed
  moreover have "sh_rooms s r = None" if "\<forall>c. sh_pc s c \<in> {Idle, Gone}"
  proof (rule ccontr)
    assume "sh_rooms s r \<noteq> None"
    then obtain rid where "sh_rooms s r = Some rid" by auto
    from safe [OF this] obtain c where "responsible (sh_pc s c) rid" by blast
    with alive that show False by blast
  qed
  ultimately show ?thesis by blast
qed

theorem presence_never_stale_witness:
  "listed 10 2 two_served \<and> (\<exists>c. cl_user (sh_heap two_served c) = 2 \<and> cl_room (sh_heap two_served c) = 10 \<and>
     sh_pc two_served c \<notin> {Idle, Dropping, Gone})"
proof -
  have "listed 10 2 two_served" by code_simp
  with presence_never_stale [OF two_served_run, of 10 2] show ?thesis by blast
qed

text \<open>
  C10: The methods of the hub cut at their locks are the methods of the model: a
  connection that is not interrupted runs the sections of \<open>join\<close>, \<open>recordLocation\<close>,
  \<open>SetEmergency\<close> or of a read through \<open>roomFor\<close> to the end, and those of \<open>leave\<close>
  likewise, with exactly the effect of the method on rooms and clients.
\<close>
theorem sections_are_methods:
  assumes "interleaving s"
  shows "(sh_pc s c = Looking k \<longrightarrow>
      (\<exists>j s'. moves (replicate j (Advance, c)) s = Some s' \<and> sh_pc s' c = Serving \<and> flat n s' = hub_method k c (flat n s))) \<and>
    (sh_pc s c = Leaving \<longrightarrow>
      (\<exists>j s'. moves (replicate j (Advance, c)) s = Some s' \<and> sh_pc s' c = Gone \<and>
        flat n s' = snd (leave (cl_room (sh_heap s c)) c (flat n s))))"
  using method_run [OF interleaving_ok [OF assms]] leave_run [OF interleaving_ok [OF assms]] by blast

theorem sections_are_methods_witness:
  "\<exists>s j s'. move Finish 1 two_served = Some s \<and> moves (replicate j (Advance, 1)) s = Some s' \<and> sh_pc s' 1 = Gone \<and>
     flat 2 s' = snd (leave 10 1 (flat 2 s))"
proof -
  have pc: "sh_pc two_served 1 = Serving" "cl_room (sh_heap two_served 1) = 10" by code_simp+
  then have m: "move Finish 1 two_served = Some (goto 1 Leaving two_served)" by simp
  have "interleaving (goto 1 Leaving two_served)" by (rule interleaving.step [OF two_served_run m])
  from sections_are_methods [OF this, of 1] m pc(2) show ?thesis by auto
qed

text \<open>
  One schedule goes wrong.  A connection that has looked its room up and not yet
  registered is overtaken by the departure of the last client: the room leaves the map,
  and the connection registers in a room state that nobody can reach.  It is served, and
  no broadcast or presence report includes it.
\<close>

definition orphan_schedule :: "(thread_move \<times> cid) list" where
  "orphan_schedule = [(Begin 1 10, 0), (Advance, 0), (Advance, 0), (Advance, 0), (Begin 2 10, 1), (Advance, 1),
     (Finish, 0), (Advance, 0), (Advance, 0), (Advance, 0), (Advance, 1)]"

lemma served_but_not_listed:
  "\<exists>s. moves orphan_schedule shared_start = Some s \<and> interleaving s \<and> sh_pc s 1 = Serving \<and>
     cl_user (sh_heap s 1) = 2 \<and> cl_room (sh_heap s 1) = 10 \<and> \<not> cl_closed (sh_heap s 1) \<and> \<not> listed 10 2 s"
proof -
  let ?s = "the (moves orphan_schedule shared_start)"
  have "moves orphan_schedule shared_start \<noteq> None" by code_simp
  then have m: "moves orphan_schedule shared_start = Some ?s" by auto
  moreover have "interleaving ?s" by (rule interleaving_moves [OF m interleaving.start])
  moreover have "sh_pc ?s 1 = Serving" "cl_user (sh_heap ?s 1) = 2" "cl_room (sh_heap ?s 1) = 10"
    "\<not> cl_closed (sh_heap ?s 1)" "\<not> listed 10 2 ?s" by code_simp+
  ultimately show ?thesis by blast
qed

end
