(* ===== verification/Entitlements.thy ===== *)
theory Entitlements
  imports Auth
begin

text \<open>
  The entitlements of an account between the database and the client
  (\<open>internal/auth/auth.go\<close>).  An account carries the text of its JSONB column; a nil
  map is \<open>None\<close>, and the codec of \<open>encoding/json\<close> for maps is a parameter.
\<close>

record 'j json_maps =
  jm_empty :: 'j
  jm_Marshal :: "'j \<Rightarrow> string + string"
  jm_Unmarshal :: "string \<Rightarrow> string + 'j option"

definition Entitlements_MarshalJSON :: "'j json_maps \<Rightarrow> 'j option \<Rightarrow> string + string" where
  "Entitlements_MarshalJSON J e = (case e of None \<Rightarrow> Inr ''{}'' | Some m \<Rightarrow> jm_Marshal J m)"

text \<open>The Go types a driver may hand to \<open>Scan\<close>.\<close>

datatype scan_source = SrcNil | SrcBytes string | SrcString string | SrcOther string

definition scan_raw :: "'j json_maps \<Rightarrow> string \<Rightarrow> go_error + 'j option" where
  "scan_raw J raw =
     (if raw = [] then Inr (Some (jm_empty J))
      else case jm_Unmarshal J raw of Inl e \<Rightarrow> Inl (OtherError (''entitlements: '' @ e)) | Inr m \<Rightarrow> Inr m)"

fun Entitlements_Scan :: "'j json_maps \<Rightarrow> scan_source \<Rightarrow> go_error + 'j option" where
  "Entitlements_Scan J SrcNil = Inr (Some (jm_empty J))"
| "Entitlements_Scan J (SrcBytes raw) = scan_raw J raw"
| "Entitlements_Scan J (SrcString v) = scan_raw J v"
| "Entitlements_Scan J (SrcOther t) = Inl (OtherError (''entitlements: unsupported scan type '' @ t))"

text \<open>
  What the code relies on: the text of a map decodes to that map, \<open>{}\<close> to the empty map,
  and no text of a map is empty.
\<close>

definition json_map_law :: "'j json_maps \<Rightarrow> bool" where
  "json_map_law J \<longleftrightarrow> (\<forall>m raw. jm_Marshal J m = Inr raw \<longrightarrow> raw \<noteq> [] \<and> jm_Unmarshal J raw = Inr (Some m)) \<and>
     jm_Unmarshal J ''{}'' = Inr (Some (jm_empty J))"

text \<open>What was sent to a client reads back as the same map, and nil as the empty one.\<close>

lemma scan_marshal:
  assumes "json_map_law J" "Entitlements_MarshalJSON J e = Inr raw"
  shows "Entitlements_Scan J (SrcBytes raw) = Inr (Some (case e of None \<Rightarrow> jm_empty J | Some m \<Rightarrow> m))"
    "Entitlements_Scan J (SrcString raw) = Inr (Some (case e of None \<Rightarrow> jm_empty J | Some m \<Rightarrow> m))"
  using assms by (auto simp: json_map_law_def Entitlements_MarshalJSON_def scan_raw_def split: option.splits)

text \<open>The JSON value \<open>null\<close> in the column is the one way to a nil map, and the client still sees an object.\<close>

lemma scan_nil: "Entitlements_Scan J src = Inr None \<Longrightarrow> \<exists>raw. jm_Unmarshal J raw = Inr None \<and> src \<in> {SrcBytes raw, SrcString raw}"
  by (cases src) (auto simp: scan_raw_def split: if_splits sum.splits)

end
