(* ===== verification/Startup.thy ===== *)
theory Startup
  imports Server "HOL-Library.List_Lexorder" "HOL-Library.Char_ord"
begin

text \<open>
  \<open>internal/db/db.go\<close> with the files under \<open>migrations\<close>, the templates of the
  administration pages, and \<open>main\<close> up to the point where it serves.  The files are
  applied again at every start, so they have to leave an up-to-date database alone.
\<close>

section \<open>The schema\<close>

text \<open>
  The statements of the migration files.  \<open>CreateTable t cs refs\<close> lists the columns and
  the tables its foreign keys refer to; an added column may carry a reference as well.
\<close>

datatype ddl =
    CreateExtension string
  | CreateTable string "string list" "string list"
  | CreateIndex string string "string list"
  | AddColumns string "string list" "string list"
  | DropTable string
  | SeedConfig string string

record schema =
  sc_extensions :: "string list"
  sc_tables :: "(string \<times> string list) list"
  sc_indexes :: "(string \<times> string) list"
  sc_rows :: db

definition has_tables :: "schema \<Rightarrow> string list \<Rightarrow> bool" where
  "has_tables s ts \<longleftrightarrow> list_all (\<lambda>t. map_of (sc_tables s) t \<noteq> None) ts"

text \<open>
  \<open>IF NOT EXISTS\<close> and \<open>IF EXISTS\<close> turn a statement that has nothing to do into a no-op;
  a missing table or column is an error.  A table disappears with its indexes.
\<close>

fun exec_ddl :: "timestamp \<Rightarrow> ddl \<Rightarrow> schema \<Rightarrow> go_error + schema" where
  "exec_ddl now (CreateExtension e) s =
     Inr (if e \<in> set (sc_extensions s) then s else s\<lparr>sc_extensions := sc_extensions s @ [e]\<rparr>)"
| "exec_ddl now (CreateTable t cs refs) s =
     (if map_of (sc_tables s) t \<noteq> None then Inr s
      else if \<not> has_tables s refs then Inl (PgError ''42P01'')
      else Inr (s\<lparr>sc_tables := sc_tables s @ [(t, cs)]\<rparr>))"
| "exec_ddl now (CreateIndex i t cs) s =
     (case map_of (sc_tables s) t of
        None \<Rightarrow> Inl (PgError ''42P01'')
      | Some ds \<Rightarrow>
        if i \<in> set (map fst (sc_indexes s)) then Inr s
        else if \<not> set cs \<subseteq> set ds then Inl (PgError ''42703'')
        else Inr (s\<lparr>sc_indexes := sc_indexes s @ [(i, t)]\<rparr>))"
| "exec_ddl now (AddColumns t cs refs) s =
     (case map_of (sc_tables s) t of
        None \<Rightarrow> Inl (PgError ''42P01'')
      | Some ds \<Rightarrow>
        if \<not> has_tables s refs then Inl (PgError ''42P01'')
        else Inr (s\<lparr>sc_tables := AList.update t (ds @ filter (\<lambda>c. c \<notin> set ds) cs) (sc_tables s)\<rparr>))"
| "exec_ddl now (DropTable t) s =
     Inr (s\<lparr>sc_tables := AList.delete t (sc_tables s), sc_indexes := filter (\<lambda>(i, u). u \<noteq> t) (sc_indexes s)\<rparr>)"
| "exec_ddl now (SeedConfig k v) s =
     (if map_of (sc_tables s) ''app_config'' = None then Inl (PgError ''42P01'')
      else if k \<in> ac_key ` set (t_app_config (sc_rows s)) then Inr s
      else Inr (s\<lparr>sc_rows := (sc_rows s)\<lparr>t_app_config := t_app_config (sc_rows s) @
        [\<lparr>ac_key = k, ac_value = v, ac_updated_at = now\<rparr>]\<rparr>\<rparr>))"

text \<open>The statements of one file are one simple query and so one transaction.\<close>

fun exec_all :: "timestamp \<Rightarrow> ddl list \<Rightarrow> schema \<Rightarrow> go_error + schema" where
  "exec_all now [] s = Inr s"
| "exec_all now (q # qs) s = (case exec_ddl now q s of Inl e \<Rightarrow> Inl e | Inr s' \<Rightarrow> exec_all now qs s')"

section \<open>The migration files\<close>

definition m0001_init :: "ddl list" where
  "m0001_init = [
     CreateExtension ''pgcrypto'',
     CreateTable ''users'' [''id'', ''display_name'', ''avatar_url'', ''created_at''] [],
     CreateTable ''rooms'' [''id'', ''code'', ''name'', ''owner_id'', ''created_at'', ''ended_at''] [''users''],
     CreateIndex ''rooms_code_active_uniq'' ''rooms'' [''code''],
     CreateTable ''room_members'' [''room_id'', ''user_id'', ''role'', ''muted'', ''kicked'', ''joined_at'', ''left_at'']
       [''rooms'', ''users''],
     CreateIndex ''room_members_user_active_idx'' ''room_members'' [''user_id'']]"

definition m0002_waypoints :: "ddl list" where
  "m0002_waypoints = [
     CreateTable ''waypoints'' [''id'', ''room_id'', ''created_by'', ''lat'', ''lng'', ''label'', ''created_at''] [''rooms'', ''users''],
     CreateIndex ''waypoints_room_idx'' ''waypoints'' [''room_id'']]"

definition m0003_room_destination :: "ddl list" where
  "m0003_room_destination = [
     AddColumns ''rooms'' [''dest_lat'', ''dest_lng'', ''dest_set_at'', ''dest_set_by''] [''users''],
     DropTable ''waypoints'']"

definition m0004_feedback_push_broadcasts :: "ddl list" where
  "m0004_feedback_push_broadcasts = [
     CreateTable ''feedback'' [''id'', ''user_id'', ''message'', ''created_at''] [''users''],
     CreateIndex ''feedback_created_at_idx'' ''feedback'' [''created_at''],
     CreateTable ''push_tokens'' [''token'', ''user_id'', ''platform'', ''updated_at''] [''users''],
     CreateIndex ''push_tokens_user_idx'' ''push_tokens'' [''user_id''],
     CreateTable ''broadcasts'' [''id'', ''title'', ''body'', ''sent_at'', ''recipients'', ''delivered'', ''failed''] [],
     CreateIndex ''broadcasts_sent_at_idx'' ''broadcasts'' [''sent_at'']]"

definition m0005_oauth_and_account_deletion :: "ddl list" where
  "m0005_oauth_and_account_deletion = [
     AddColumns ''users'' [''email'', ''entitlements'', ''deleted_at''] [],
     CreateTable ''user_identities'' [''id'', ''user_id'', ''provider'', ''subject'', ''email'', ''created_at''] [''users''],
     CreateIndex ''user_identities_user_idx'' ''user_identities'' [''user_id''],
     CreateTable ''app_config'' [''key'', ''value'', ''updated_at''] [],
     SeedConfig ''min_client_version'' ''0.0.0'']"

definition m0006_messages :: "ddl list" where
  "m0006_messages = [
     CreateTable ''messages'' [''id'', ''room_id'', ''user_id'', ''body'', ''created_at''] [''rooms'', ''users''],
     CreateIndex ''messages_room_created_idx'' ''messages'' [''room_id'', ''created_at'', ''id'']]"

definition m0007_personal_markers :: "ddl list" where
  "m0007_personal_markers = [
     CreateTable ''personal_markers'' [''room_id'', ''user_id'', ''lat'', ''lng'', ''label'', ''updated_at''] [''rooms'', ''users'']]"

definition m0008_room_stops :: "ddl list" where
  "m0008_room_stops = [
     CreateTable ''room_stops'' [''id'', ''room_id'', ''lat'', ''lng'', ''label'', ''position'', ''created_by'', ''created_at'']
       [''rooms'', ''users''],
     CreateIndex ''room_stops_room_position_idx'' ''room_stops'' [''room_id'', ''position'', ''created_at'']]"

definition m0009_destination_meta :: "ddl list" where
  "m0009_destination_meta = [AddColumns ''rooms'' [''dest_name'', ''dest_notes''] []]"

text \<open>The embedded directory.\<close>

definition migrationFiles :: "(string \<times> ddl list) list" where
  "migrationFiles = [
     (''0001_init.sql'', m0001_init),
     (''0002_waypoints.sql'', m0002_waypoints),
     (''0003_room_destination.sql'', m0003_room_destination),
     (''0004_feedback_push_broadcasts.sql'', m0004_feedback_push_broadcasts),
     (''0005_oauth_and_account_deletion.sql'', m0005_oauth_and_account_deletion),
     (''0006_messages.sql'', m0006_messages),
     (''0007_personal_markers.sql'', m0007_personal_markers),
     (''0008_room_stops.sql'', m0008_room_stops),
     (''0009_destination_meta.sql'', m0009_destination_meta)]"

section \<open>Migrate\<close>

text \<open>
  \<open>files\<close> is the embedded directory: its entries and their statements.  \<open>fault\<close>
  tells which round trips fail before they reach the database.
\<close>

fun migrate_loop :: "(nat \<Rightarrow> string option) \<Rightarrow> timestamp \<Rightarrow> (string \<Rightarrow> ddl list option) \<Rightarrow> nat \<Rightarrow> string list \<Rightarrow> schema \<Rightarrow>
    go_error option \<times> schema" where
  "migrate_loop fault now file k [] s = (None, s)"
| "migrate_loop fault now file k (name # names) s =
     (case file name of
        None \<Rightarrow> (Some (OtherError (''read '' @ name)), s)
      | Some raw \<Rightarrow>
        (case fault k of
           Some msg \<Rightarrow> (Some (OtherError (''apply '' @ name @ '': '' @ msg)), s)
         | None \<Rightarrow>
           (case exec_all now raw s of
              Inl e \<Rightarrow> (Some (OtherError (''apply '' @ name)), s)
            | Inr s' \<Rightarrow> migrate_loop fault now file (Suc k) names s')))"

definition HasSuffix :: "string \<Rightarrow> string \<Rightarrow> bool" where
  "HasSuffix s t \<longleftrightarrow> length t \<le> length s \<and> drop (length s - length t) s = t"

definition Migrate :: "(string \<times> ddl list) list \<Rightarrow> (nat \<Rightarrow> string option) \<Rightarrow> timestamp \<Rightarrow> schema \<Rightarrow> go_error option \<times> schema" where
  "Migrate files fault now s =
     migrate_loop fault now (map_of files) 0 (sort (filter (\<lambda>n. HasSuffix n ''.sql'') (map fst files))) s"

text \<open>A new database, and the schema that all files together produce, with the rows \<open>d\<close>.\<close>

definition no_rows :: db where
  "no_rows = (init_db 0)\<lparr>t_app_config := []\<rparr>"

definition empty_schema :: schema where
  "empty_schema = \<lparr>sc_extensions = [], sc_tables = [], sc_indexes = [], sc_rows = no_rows\<rparr>"

definition migrated :: "db \<Rightarrow> schema" where
  "migrated d = \<lparr>sc_extensions = [''pgcrypto''],
     sc_tables = [
       (''users'', [''id'', ''display_name'', ''avatar_url'', ''created_at'', ''email'', ''entitlements'', ''deleted_at'']),
       (''rooms'', [''id'', ''code'', ''name'', ''owner_id'', ''created_at'', ''ended_at'', ''dest_lat'', ''dest_lng'', ''dest_set_at'',
          ''dest_set_by'', ''dest_name'', ''dest_notes'']),
       (''room_members'', [''room_id'', ''user_id'', ''role'', ''muted'', ''kicked'', ''joined_at'', ''left_at'']),
       (''feedback'', [''id'', ''user_id'', ''message'', ''created_at'']),
       (''push_tokens'', [''token'', ''user_id'', ''platform'', ''updated_at'']),
       (''broadcasts'', [''id'', ''title'', ''body'', ''sent_at'', ''recipients'', ''delivered'', ''failed'']),
       (''user_identities'', [''id'', ''user_id'', ''provider'', ''subject'', ''email'', ''created_at'']),
       (''app_config'', [''key'', ''value'', ''updated_at'']),
       (''messages'', [''id'', ''room_id'', ''user_id'', ''body'', ''created_at'']),
       (''personal_markers'', [''room_id'', ''user_id'', ''lat'', ''lng'', ''label'', ''updated_at'']),
       (''room_stops'', [''id'', ''room_id'', ''lat'', ''lng'', ''label'', ''position'', ''created_by'', ''created_at''])],
     sc_indexes = [(''rooms_code_active_uniq'', ''rooms''), (''room_members_user_active_idx'', ''room_members''),
       (''feedback_created_at_idx'', ''feedback''), (''push_tokens_user_idx'', ''push_tokens''),
       (''broadcasts_sent_at_idx'', ''broadcasts''), (''user_identities_user_idx'', ''user_identities''),
       (''messages_room_created_idx'', ''messages''), (''room_stops_room_position_idx'', ''room_stops'')],
     sc_rows = d\<rparr>"

text \<open>A migrated database in which the second file was applied once more, and not yet the third.\<close>

definition half_migrated :: "db \<Rightarrow> schema" where
  "half_migrated d = (migrated d)
     \<lparr>sc_tables := sc_tables (migrated d) @
        [(''waypoints'', [''id'', ''room_id'', ''created_by'', ''lat'', ''lng'', ''label'', ''created_at''])],
      sc_indexes := sc_indexes (migrated d) @ [(''waypoints_room_idx'', ''waypoints'')]\<rparr>"

lemma migrated_simps [simp]: "sc_rows (migrated d) = d" "sc_rows (half_migrated d) = d" "migrated d \<noteq> empty_schema"
  by (simp_all add: migrated_def half_migrated_def empty_schema_def)

definition migration_names :: "string list" where
  "migration_names = map fst migrationFiles"

lemma Migrate_files: "Migrate migrationFiles fault now s = migrate_loop fault now (map_of migrationFiles) 0 migration_names s"
proof -
  have "sort (filter (\<lambda>n. HasSuffix n ''.sql'') (map fst migrationFiles)) = migration_names" by code_simp
  then show ?thesis by (simp add: Migrate_def)
qed

lemma migrate_prefix:
  "\<exists>j. snd (migrate_loop fault now file k ns s) = snd (migrate_loop (\<lambda>_. None) now file k (take j ns) s)"
proof (induction ns arbitrary: k s)
  case (Cons n ns)
  show ?case
  proof (cases "file n = None \<or> fault k \<noteq> None")
    case True
    then show ?thesis by (intro exI [of _ 0]) (auto split: option.splits)
  next
    case False
    then obtain raw where raw: "file n = Some raw" "fault k = None" by auto
    show ?thesis
    proof (cases "exec_all now raw s")
      case (Inl e)
      with raw show ?thesis by (intro exI [of _ 0]) simp
    next
      case (Inr s')
      from Cons.IH [of "Suc k" s'] obtain j where
        "snd (migrate_loop fault now file (Suc k) ns s') = snd (migrate_loop (\<lambda>_. None) now file (Suc k) (take j ns) s')" by blast
      with raw Inr show ?thesis by (intro exI [of _ "Suc j"]) simp
    qed
  qed
qed simp

lemma migrate_fault_free:
  "(\<And>i. i < k + length ns \<Longrightarrow> fault i = None) \<Longrightarrow>
   migrate_loop fault now file k ns s = migrate_loop (\<lambda>_. None) now file k ns s"
  by (induction ns arbitrary: k s) (auto split: option.splits sum.splits)

lemmas file_defs = m0001_init_def m0002_waypoints_def m0003_room_destination_def m0004_feedback_push_broadcasts_def
  m0005_oauth_and_account_deletion_def m0006_messages_def m0007_personal_markers_def m0008_room_stops_def m0009_destination_meta_def

lemma map_of_files:
  "map_of migrationFiles ''0001_init.sql'' = Some m0001_init"
  "map_of migrationFiles ''0002_waypoints.sql'' = Some m0002_waypoints"
  "map_of migrationFiles ''0003_room_destination.sql'' = Some m0003_room_destination"
  "map_of migrationFiles ''0004_feedback_push_broadcasts.sql'' = Some m0004_feedback_push_broadcasts"
  "map_of migrationFiles ''0005_oauth_and_account_deletion.sql'' = Some m0005_oauth_and_account_deletion"
  "map_of migrationFiles ''0006_messages.sql'' = Some m0006_messages"
  "map_of migrationFiles ''0007_personal_markers.sql'' = Some m0007_personal_markers"
  "map_of migrationFiles ''0008_room_stops.sql'' = Some m0008_room_stops"
  "map_of migrationFiles ''0009_destination_meta.sql'' = Some m0009_destination_meta"
  by (simp_all add: migrationFiles_def)

lemma exec_migrated:
  assumes "''min_client_version'' \<in> ac_key ` set (t_app_config d)"
  shows "exec_all now m0001_init (migrated d) = Inr (migrated d)"
    "exec_all now m0002_waypoints (migrated d) = Inr (half_migrated d)"
    "exec_all now m0003_room_destination (half_migrated d) = Inr (migrated d)"
    "exec_all now m0004_feedback_push_broadcasts (migrated d) = Inr (migrated d)"
    "exec_all now m0005_oauth_and_account_deletion (migrated d) = Inr (migrated d)"
    "exec_all now m0006_messages (migrated d) = Inr (migrated d)"
    "exec_all now m0007_personal_markers (migrated d) = Inr (migrated d)"
    "exec_all now m0008_room_stops (migrated d) = Inr (migrated d)"
    "exec_all now m0009_destination_meta (migrated d) = Inr (migrated d)"
    "exec_all now m0001_init (half_migrated d) = Inr (half_migrated d)"
    "exec_all now m0002_waypoints (half_migrated d) = Inr (half_migrated d)"
  using assms by (simp_all add: file_defs migrated_def half_migrated_def has_tables_def)

lemma migration_names_code: "migration_names = [''0001_init.sql'', ''0002_waypoints.sql'', ''0003_room_destination.sql'',
    ''0004_feedback_push_broadcasts.sql'', ''0005_oauth_and_account_deletion.sql'', ''0006_messages.sql'',
    ''0007_personal_markers.sql'', ''0008_room_stops.sql'', ''0009_destination_meta.sql'']"
  by (simp add: migration_names_def migrationFiles_def)

lemma take_migration_names: "j \<in> {0..<9} \<or> take j migration_names = migration_names"
  by (auto simp: migration_names_code not_less)

lemma migrate_migrated:
  assumes "''min_client_version'' \<in> ac_key ` set (t_app_config d)"
  shows "migrate_loop (\<lambda>_. None) now (map_of migrationFiles) 0 migration_names (migrated d) = (None, migrated d)"
    "migrate_loop (\<lambda>_. None) now (map_of migrationFiles) 0 migration_names (half_migrated d) = (None, migrated d)"
    "snd (migrate_loop (\<lambda>_. None) now (map_of migrationFiles) 0 (take j migration_names) (migrated d)) \<in> {migrated d, half_migrated d}"
proof -
  show all: "migrate_loop (\<lambda>_. None) now (map_of migrationFiles) 0 migration_names (migrated d) = (None, migrated d)"
    "migrate_loop (\<lambda>_. None) now (map_of migrationFiles) 0 migration_names (half_migrated d) = (None, migrated d)"
    by (simp_all add: migration_names_code map_of_files exec_migrated [OF assms])
  show "snd (migrate_loop (\<lambda>_. None) now (map_of migrationFiles) 0 (take j migration_names) (migrated d)) \<in> {migrated d, half_migrated d}"
  proof (cases "take j migration_names = migration_names")
    case False
    then consider "j = 0" | "j = 1" | "j = 2" | "j = 3" | "j = 4" | "j = 5" | "j = 6" | "j = 7" | "j = 8"
      using take_migration_names [of j] by force
    then show ?thesis by cases (simp_all add: migration_names_code map_of_files exec_migrated [OF assms])
  qed (simp add: all)
qed

text \<open>
  A restart on an up-to-date database, whatever round trips fail: the rows stay as they
  are, and the next start without faults finds the same schema again.
\<close>

lemma migrate_again:
  assumes "''min_client_version'' \<in> ac_key ` set (t_app_config d)"
  shows "case Migrate migrationFiles fault now (migrated d) of (err, s) \<Rightarrow>
    sc_rows s = d \<and> Migrate migrationFiles (\<lambda>_. None) now' s = (None, migrated d) \<and>
    ((\<forall>k < 9. fault k = None) \<longrightarrow> err = None \<and> s = migrated d)"
proof -
  obtain err s where run: "Migrate migrationFiles fault now (migrated d) = (err, s)" by force
  obtain j where "s = snd (migrate_loop (\<lambda>_. None) now (map_of migrationFiles) 0 (take j migration_names) (migrated d))"
    using migrate_prefix [of fault now "map_of migrationFiles" 0 migration_names "migrated d"] run by (auto simp: Migrate_files)
  with migrate_migrated(3)[OF assms, of now j] have s: "s = migrated d \<or> s = half_migrated d" by auto
  then have "sc_rows s = d" "Migrate migrationFiles (\<lambda>_. None) now' s = (None, migrated d)"
    using migrate_migrated(1,2)[OF assms] by (auto simp: Migrate_files)
  moreover have "err = None \<and> s = migrated d" if "\<forall>k < 9. fault k = None"
  proof -
    have "length migration_names = 9" by (simp add: migration_names_code)
    with that have "Migrate migrationFiles fault now (migrated d) = migrate_loop (\<lambda>_. None) now (map_of migrationFiles) 0 migration_names (migrated d)"
      unfolding Migrate_files by (intro migrate_fault_free) simp
    with run migrate_migrated(1)[OF assms] show ?thesis by simp
  qed
  ultimately show ?thesis using run by simp
qed

text \<open>The first start: an empty database is brought to the schema with the seeded row, in one run or in several.\<close>

lemma exec_fresh:
  "migrate_loop (\<lambda>_. None) now (map_of migrationFiles) 0 migration_names empty_schema = (None, migrated (init_db now))"
  by (simp add: migration_names_code map_of_files file_defs empty_schema_def migrated_def no_rows_def init_db_def has_tables_def)

definition after_files :: "timestamp \<Rightarrow> nat \<Rightarrow> schema" where
  "after_files now j = snd (migrate_loop (\<lambda>_. None) now (map_of migrationFiles) 0 (take j migration_names) empty_schema)"

lemma migrate_resumed:
  "migrate_loop (\<lambda>_. None) now' (map_of migrationFiles) 0 migration_names (after_files now 0) = (None, migrated (init_db now'))"
  "migrate_loop (\<lambda>_. None) now' (map_of migrationFiles) 0 migration_names (after_files now 1) = (None, migrated (init_db now'))"
  "migrate_loop (\<lambda>_. None) now' (map_of migrationFiles) 0 migration_names (after_files now 2) = (None, migrated (init_db now'))"
  "migrate_loop (\<lambda>_. None) now' (map_of migrationFiles) 0 migration_names (after_files now 3) = (None, migrated (init_db now'))"
  "migrate_loop (\<lambda>_. None) now' (map_of migrationFiles) 0 migration_names (after_files now 4) = (None, migrated (init_db now'))"
  "migrate_loop (\<lambda>_. None) now' (map_of migrationFiles) 0 migration_names (after_files now 5) = (None, migrated (init_db now))"
  "migrate_loop (\<lambda>_. None) now' (map_of migrationFiles) 0 migration_names (after_files now 6) = (None, migrated (init_db now))"
  "migrate_loop (\<lambda>_. None) now' (map_of migrationFiles) 0 migration_names (after_files now 7) = (None, migrated (init_db now))"
  "migrate_loop (\<lambda>_. None) now' (map_of migrationFiles) 0 migration_names (after_files now 8) = (None, migrated (init_db now))"
  by code_simp+

lemma migrate_fresh:
  "\<exists>t \<in> {now, now'}. Migrate migrationFiles (\<lambda>_. None) now' (snd (Migrate migrationFiles fault now empty_schema)) =
     (None, migrated (init_db t))"
proof -
  obtain j where s: "snd (Migrate migrationFiles fault now empty_schema) = after_files now j"
    using migrate_prefix [of fault now "map_of migrationFiles" 0 migration_names empty_schema]
    by (auto simp: Migrate_files after_files_def)
  show ?thesis
  proof (cases "take j migration_names = migration_names")
    case True
    have "''min_client_version'' \<in> ac_key ` set (t_app_config (init_db now))" by (simp add: init_db_def)
    moreover have "snd (Migrate migrationFiles fault now empty_schema) = migrated (init_db now)"
      unfolding s after_files_def True exec_fresh by simp
    ultimately show ?thesis using migrate_migrated(1) by (simp add: Migrate_files [of "\<lambda>_. None"])
  next
    case False
    then consider "j = 0" | "j = 1" | "j = 2" | "j = 3" | "j = 4" | "j = 5" | "j = 6" | "j = 7" | "j = 8"
      using take_migration_names [of j] by force
    then show ?thesis unfolding s Migrate_files [of "\<lambda>_. None"] by cases (simp_all add: migrate_resumed [simplified])
  qed
qed

lemma tables_ok_seeded: "tables_ok d \<Longrightarrow> ''min_client_version'' \<in> ac_key ` set (t_app_config d)"
  by (auto simp: tables_ok_def accounts_ok_def settings_ok_def config_value_def KeyMinClientVersion_def
      dest!: find_SomeD intro: rev_image_eqI split: option.splits)

lemma migrate_done:
  "fst (migrate_loop fault now file k ns s) = None \<Longrightarrow>
   migrate_loop fault now file k ns s = migrate_loop (\<lambda>_. None) now file k ns s"
  by (induction ns arbitrary: k s) (auto split: option.splits sum.splits)

lemma Migrate_done:
  "Migrate migrationFiles fault now s = (None, s') \<Longrightarrow> Migrate migrationFiles (\<lambda>_. None) now s = (None, s')"
  using migrate_done [of fault now "map_of migrationFiles" 0 migration_names s] by (simp add: Migrate_files)

section \<open>Connecting\<close>

text \<open>The connection pool of pgx: what the code sets of its configuration, and its three calls.\<close>

record PoolConfig =
  pl_MaxConns :: int
  pl_MinConns :: int
  pl_MaxConnLifetime :: int
  pl_ConnString :: string

record 'p pgxpool =
  px_ParseConfig :: "string \<Rightarrow> string + PoolConfig"
  px_NewWithConfig :: "PoolConfig \<Rightarrow> string + 'p"
  px_Ping :: "'p \<Rightarrow> string option"

text \<open>The pools that were closed again come second.\<close>

definition Connect :: "'p pgxpool \<Rightarrow> string \<Rightarrow> (go_error + 'p) \<times> 'p list" where
  "Connect X url =
     (case px_ParseConfig X url of
        Inl e \<Rightarrow> (Inl (OtherError (''parse db url: '' @ e)), [])
      | Inr cfg \<Rightarrow>
        (case px_NewWithConfig X (cfg\<lparr>pl_MaxConns := 20, pl_MinConns := 2, pl_MaxConnLifetime := 3600 * Second\<rparr>) of
           Inl e \<Rightarrow> (Inl (OtherError (''connect db: '' @ e)), [])
         | Inr pool \<Rightarrow>
           (case px_Ping X pool of
              Some e \<Rightarrow> (Inl (OtherError (''ping db: '' @ e)), [pool])
            | None \<Rightarrow> (Inr pool, []))))"

section \<open>Templates of the administration pages\<close>

text \<open>\<open>html/template\<close>: parsing the layout, cloning it, adding a file to it, parsing a file alone.\<close>

record 't templates =
  tm_layout :: "string + 't"
  tm_Clone :: "'t \<Rightarrow> string + 't"
  tm_add :: "'t \<Rightarrow> string \<Rightarrow> string + 't"
  tm_alone :: "string \<Rightarrow> string + 't"

definition withLayout :: "string list" where
  "withLayout = [''dashboard.html'', ''feedback.html'', ''broadcasts.html'', ''broadcast_new.html'', ''users.html'',
     ''user_detail.html'', ''settings.html'']"

definition standalone :: "string list" where
  "standalone = [''login.html'', ''broadcast_result.html'', ''_recipient_count.html'']"

fun parse_each :: "(string \<Rightarrow> string + 't) \<Rightarrow> string list \<Rightarrow> (string \<rightharpoonup> 't) \<Rightarrow> string + (string \<rightharpoonup> 't)" where
  "parse_each parse [] pages = Inr pages"
| "parse_each parse (name # ns) pages =
     (case parse name of Inl e \<Rightarrow> Inl e | Inr t \<Rightarrow> parse_each parse ns (pages(name \<mapsto> t)))"

definition parsePages :: "'t templates \<Rightarrow> string + (string \<rightharpoonup> 't)" where
  "parsePages T =
     (case tm_layout T of
        Inl e \<Rightarrow> Inl (''parse layout: '' @ e)
      | Inr layout \<Rightarrow>
        (case parse_each (\<lambda>name. case tm_Clone T layout of Inl e \<Rightarrow> Inl e
             | Inr clone \<Rightarrow> (case tm_add T clone name of Inl e \<Rightarrow> Inl (''parse '' @ name @ '': '' @ e) | Inr t \<Rightarrow> Inr t))
           withLayout Map.empty of
           Inl e \<Rightarrow> Inl e
         | Inr pages \<Rightarrow>
           parse_each (\<lambda>name. case tm_alone T name of Inl e \<Rightarrow> Inl (''parse '' @ name @ '': '' @ e) | Inr t \<Rightarrow> Inr t)
             standalone pages))"

text \<open>
  \<open>render\<close>: which template a page is executed with, and under which entry point, or the
  error for an unknown name.  \<open>defines\<close> is \<open>Template.Lookup\<close>.
\<close>

definition admin_render :: "('t \<Rightarrow> string \<Rightarrow> bool) \<Rightarrow> (string \<rightharpoonup> 't) \<Rightarrow> string \<Rightarrow> string + 't \<times> string" where
  "admin_render defines pages name =
     (case pages name of
        None \<Rightarrow> Inl (''unknown template: '' @ name)
      | Some t \<Rightarrow> Inr (t, if defines t ''layout'' then ''layout'' else name))"

text \<open>The template the handlers give each page to.\<close>

fun template_of :: "admin_page \<Rightarrow> string" where
  "template_of (DashboardPage _ _ _ _ _ _) = ''dashboard.html''"
| "template_of (FeedbackPage _) = ''feedback.html''"
| "template_of (BroadcastsPage _) = ''broadcasts.html''"
| "template_of (BroadcastNewPage _) = ''broadcast_new.html''"
| "template_of (BroadcastErrorPage _) = ''broadcast_result.html''"
| "template_of (BroadcastResultPage _ _ _ _) = ''broadcast_result.html''"
| "template_of (RecipientCountPage _) = ''_recipient_count.html''"
| "template_of (UsersPage _ _) = ''users.html''"
| "template_of (UserDetailPage _ _) = ''user_detail.html''"
| "template_of (SettingsPage _ _ _) = ''settings.html''"

lemma parse_each_dom: "parse_each parse ns pages = Inr pages' \<Longrightarrow> dom pages' = dom pages \<union> set ns"
  by (induction parse ns pages rule: parse_each.induct) (auto split: sum.splits)

text \<open>No page of the handlers is ever unknown to \<open>render\<close>.\<close>

lemma pages_complete:
  assumes "parsePages T = Inr pages"
  shows "\<exists>t e. admin_render defines pages (template_of page) = Inr (t, e)" "\<exists>t e. admin_render defines pages ''login.html'' = Inr (t, e)"
proof -
  have "dom pages = set withLayout \<union> set standalone"
    using assms unfolding parsePages_def by (simp split: sum.splits) (drule parse_each_dom, drule parse_each_dom, simp)
  then have d: "pages name \<noteq> None \<longleftrightarrow> name \<in> set withLayout \<union> set standalone" for name by blast
  have "template_of page \<in> set withLayout \<union> set standalone" by (cases page) (simp_all add: withLayout_def standalone_def)
  then show "\<exists>t e. admin_render defines pages (template_of page) = Inr (t, e)"
    using d by (auto simp: admin_render_def split: option.splits)
  have "''login.html'' \<in> set withLayout \<union> set standalone" by (simp add: standalone_def)
  then show "\<exists>t e. admin_render defines pages ''login.html'' = Inr (t, e)"
    using d by (auto simp: admin_render_def split: option.splits)
qed

section \<open>The process\<close>

text \<open>\<open>main\<close> until it serves: exit with status 1, or the server over the migrated database.\<close>

datatype 'p process = Exit nat | Serves server 'p

definition main_start ::
  "(nat \<Rightarrow> nat \<Rightarrow> nat \<Rightarrow> nat) \<Rightarrow> string \<Rightarrow> env \<Rightarrow> 'p pgxpool \<Rightarrow> startup \<Rightarrow> (nat \<Rightarrow> string option) \<Rightarrow> timestamp \<Rightarrow> schema \<Rightarrow>
   'p process \<times> schema" where
  "main_start fl today env X su fault now s =
     (case Load fl today env of
        Inl _ \<Rightarrow> (Exit 1, s)
      | Inr cfg \<Rightarrow>
        (case Connect X (cfg_DatabaseURL cfg) of
           (Inl _, _) \<Rightarrow> (Exit 1, s)
         | (Inr pool, _) \<Rightarrow>
           (case Migrate migrationFiles fault now s of
              (Some _, s') \<Rightarrow> (Exit 1, s')
            | (None, s') \<Rightarrow> (Serves (main_server su cfg) pool, s'))))"

text \<open>What a loaded configuration guarantees of the server built from it.\<close>

lemma startup_config:
  assumes "Load fl today env = Inr cfg"
  shows "16 \<le> length (as_secret (sv_auth (main_server su cfg))) \<and>
    as_google (sv_auth (main_server su cfg)) \<noteq> Some [] \<and> as_apple (sv_auth (main_server su cfg)) \<noteq> Some [] \<and>
    (\<forall>m. sv_admin (main_server su cfg) = Some m \<longrightarrow> TrimSpace (ad_Password m) \<noteq> [] \<and> 16 \<le> length (ad_CookieSecret m))"
  using assms by (auto simp: Load_def Let_def main_server_def main_auth_def main_admin_def Admin_New_def NewGoogleVerifier_def
      NewAppleVerifier_def split: if_splits sum.splits)

end
