(* ===== verification/TableTypes.thy ===== *)
theory TableTypes
  imports System CreateJoin Route
begin

text \<open>
  The types of the stored values that the schema does not express and that only
  the validation in front of the statements ensures: six-digit room codes,
  positions on the globe, labels, notes, messages, names, feedback and
  broadcasts within their limits, push tokens of the Expo format, and valid text
  in every column.  Every row of every reachable state is of its type.
\<close>

section \<open>The type of a row\<close>

definition on_earth :: "float64 \<Rightarrow> float64 \<Rightarrow> bool" where
  "on_earth lat lng \<longleftrightarrow> -90 \<le> lat \<and> lat \<le> 90 \<and> -180 \<le> lng \<and> lng \<le> 180"

text \<open>An optional text that is not empty and has at most \<open>n\<close> characters.\<close>

definition short_text :: "nat \<Rightarrow> string option \<Rightarrow> bool" where
  "short_text n v \<longleftrightarrow> pred_option (\<lambda>s. s \<noteq> [] \<and> RuneCountInString s \<le> n) v"

definition label_typed :: "nat \<Rightarrow> string option \<Rightarrow> bool" where
  "label_typed n v \<longleftrightarrow> pg_text_opt v \<and> short_text n v"

definition code_typed :: "string \<Rightarrow> bool" where
  "code_typed c \<longleftrightarrow> length c = 6 \<and> list_all digit c"

definition room_typed :: "room_row \<Rightarrow> bool" where
  "room_typed r \<longleftrightarrow> code_typed (r_code r) \<and> pg_text_opt (r_name r) \<and>
     (case (r_dest_lat r, r_dest_lng r) of (Some lat, Some lng) \<Rightarrow> on_earth lat lng | _ \<Rightarrow> True) \<and>
     label_typed 120 (r_dest_name r) \<and> label_typed 500 (r_dest_notes r)"

definition marker_typed :: "marker_row \<Rightarrow> bool" where
  "marker_typed p \<longleftrightarrow> on_earth (pm_lat p) (pm_lng p) \<and> label_typed 120 (pm_label p)"

definition stop_typed :: "stop_row \<Rightarrow> bool" where
  "stop_typed s \<longleftrightarrow> on_earth (st_lat s) (st_lng s) \<and> label_typed 120 (st_label s)"

definition message_typed :: "message_row \<Rightarrow> bool" where
  "message_typed m \<longleftrightarrow> label_typed 2000 (Some (ms_body m)) \<and> TrimSpace (ms_body m) = ms_body m"

definition user_typed :: "user_row \<Rightarrow> bool" where
  "user_typed u \<longleftrightarrow> label_typed 40 (Some (u_display_name u)) \<and> pg_text_opt (u_avatar_url u) \<and> pg_text_opt (u_email u)"

definition identity_typed :: "identity_row \<Rightarrow> bool" where
  "identity_typed i \<longleftrightarrow> ui_provider i \<in> {''google'', ''apple'', ''guest''} \<and> pg_text (ui_subject i) \<and> pg_text_opt (ui_email i)"

definition feedback_typed :: "feedback_row \<Rightarrow> bool" where
  "feedback_typed f \<longleftrightarrow> pg_text (fb_message f) \<and> cut_ok 2000 (fb_message f)"

definition push_typed :: "push_row \<Rightarrow> bool" where
  "push_typed t \<longleftrightarrow> pg_text (pt_token t) \<and> token_ok (pt_token t) \<and> pt_platform t \<in> {''ios'', ''android''}"

definition broadcast_typed :: "broadcast_row \<Rightarrow> bool" where
  "broadcast_typed b \<longleftrightarrow> pg_text (bc_title b) \<and> cut_ok 80 (bc_title b) \<and> pg_text (bc_body b) \<and> cut_ok 240 (bc_body b) \<and>
     int4 (bc_recipients b) \<and> int4 (bc_delivered b) \<and> int4 (bc_failed b)"

definition rows_typed :: "db \<Rightarrow> bool" where
  "rows_typed d \<longleftrightarrow> list_all user_typed (t_users d) \<and> list_all room_typed (t_rooms d) \<and>
     list_all marker_typed (t_personal_markers d) \<and> list_all stop_typed (t_room_stops d) \<and>
     list_all message_typed (t_messages d) \<and> list_all identity_typed (t_user_identities d) \<and>
     list_all feedback_typed (t_feedback d) \<and> list_all push_typed (t_push_tokens d) \<and>
     list_all broadcast_typed (t_broadcasts d) \<and> list_all (\<lambda>c. pg_text (ac_key c) \<and> pg_text (ac_value c)) (t_app_config d)"

lemmas row_types = room_typed_def marker_typed_def stop_typed_def message_typed_def user_typed_def identity_typed_def
  feedback_typed_def push_typed_def broadcast_typed_def

lemma rows_typedD:
  assumes "rows_typed d"
  shows "r \<in> set (t_rooms d) \<Longrightarrow> room_typed r" "u \<in> set (t_users d) \<Longrightarrow> user_typed u"
  using assms by (auto simp: rows_typed_def list_all_iff)

lemma room_typedD:
  assumes "room_typed r"
  shows "r_dest_lat r = Some lat \<Longrightarrow> r_dest_lng r = Some lng \<Longrightarrow> on_earth lat lng" "short_text 120 (r_dest_name r)"
  using assms by (simp_all add: room_typed_def label_typed_def)

lemma rows_typed_init: "rows_typed (init_db now)"
proof -
  have "pg_text ''min_client_version'' \<and> pg_text ''0.0.0''" by code_simp
  then show ?thesis by (simp add: rows_typed_def init_db_def)
qed

lemma list_all_update_where:
  "list_all P rs \<Longrightarrow> (\<And>r. r \<in> set rs \<Longrightarrow> P r \<Longrightarrow> p r \<Longrightarrow> P (f r)) \<Longrightarrow> list_all P (update_where p f rs)"
  by (auto simp: list_all_iff in_update_where)

lemma list_all_delete_where: "list_all P rs \<Longrightarrow> list_all P (delete_where p rs)"
  by (auto simp: list_all_iff)

section \<open>The statements of the account code\<close>

lemma name_ok_typed: "pg_text s \<Longrightarrow> name_ok s \<Longrightarrow> label_typed 40 (Some s)"
  by (simp add: label_typed_def short_text_def name_ok_def pg_text_opt_def)

lemma delete_user_typed: "rows_typed d \<Longrightarrow> delete_user u now uid d = Inr (x, d') \<Longrightarrow> rows_typed d'"
  by (auto simp: delete_user_def cascade_user_def rows_typed_def feedback_typed_def split: if_splits
      intro!: list_all_delete_where list_all_update_where)

lemma account_statements_typed:
  assumes "rows_typed d"
  shows "name_ok name \<Longrightarrow> insert_user name avatar email now uid d = Inr (x1, d') \<Longrightarrow> rows_typed d'"
    "name_ok name \<Longrightarrow> update_display_name name u now uid d = Inr (x1, d') \<Longrightarrow> rows_typed d'"
    "update_email e u now uid d = Inr (n, d') \<Longrightarrow> rows_typed d'"
    "insert_identity u p sub email now uid d = Inr (x2, d') \<Longrightarrow> rows_typed d'"
    "cut_ok 2000 m \<Longrightarrow> insert_feedback u m now uid d = Inr (x3, d') \<Longrightarrow> rows_typed d'"
    "token_ok tok \<Longrightarrow> upsert_token u tok pl now uid d = Inr (x2, d') \<Longrightarrow> rows_typed d'"
    "rows_typed (delete_tokens ts d)"
    "cut_ok 80 t \<Longrightarrow> cut_ok 240 b \<Longrightarrow> insert_broadcast t b i j k now uid d = Inr (x4, d') \<Longrightarrow> rows_typed d'"
    "upsert_config key v now uid d = Inr (x2, d') \<Longrightarrow> rows_typed d'"
    "restore_user u now uid d = Inr (x2, d') \<Longrightarrow> rows_typed d'"
    "stamp_deleted u now uid d = Inr (x2, d') \<Longrightarrow> rows_typed d'"
    "end_owned_rooms u now uid d = Inr (x2, d') \<Longrightarrow> rows_typed d'"
    "kick_memberships u now uid d = Inr (x2, d') \<Longrightarrow> rows_typed d'"
    "delete_user u now uid d = Inr (x2, d') \<Longrightarrow> rows_typed d'"
  using assms
  by (auto simp: insert_user_def new_user_def update_display_name_def update_email_def insert_identity_def
      upsert_token_def delete_tokens_def insert_broadcast_def upsert_config_def restore_user_def stamp_deleted_def
      end_owned_rooms_def kick_memberships_def delete_user_def cascade_user_def
      rows_typed_def row_types name_ok_typed pg_text_opt_def Let_def
      elim!: insert_feedback_InrD split: if_splits option.splits intro!: list_all_delete_where list_all_update_where)

section \<open>The statements of the room store\<close>

lemma room_statements_typed:
  assumes "rows_typed d"
  shows "code_typed code \<Longrightarrow> insert_room code name u now uid d = Inr (x1, d') \<Longrightarrow> rows_typed d'"
    "insert_member r u role now uid d = Inr (x2, d') \<Longrightarrow> rows_typed d'"
    "upsert_member r u now uid d = Inr (x2, d') \<Longrightarrow> rows_typed d'"
    "update_members p f now uid d = Inr (n, d') \<Longrightarrow> rows_typed d'"
    "set_owner r u now uid d = Inr (n, d') \<Longrightarrow> rows_typed d'"
    "on_earth lat lng \<Longrightarrow> short_text 120 label \<Longrightarrow> short_text 500 notes \<Longrightarrow>
       set_destination r u lat lng label notes now uid d = Inr (x3, d') \<Longrightarrow> rows_typed d'"
    "on_earth lat lng \<Longrightarrow> short_text 120 label \<Longrightarrow> upsert_marker r u lat lng label now uid d = Inr (x4, d') \<Longrightarrow> rows_typed d'"
    "on_earth lat lng \<Longrightarrow> short_text 120 label \<Longrightarrow> insert_stop r u lat lng label now uid d = Inr (x5, d') \<Longrightarrow> rows_typed d'"
    "short_text 120 label \<Longrightarrow> update_stop_label r st label now uid d = Inr (x5, d') \<Longrightarrow> rows_typed d'"
    "short_text 2000 (Some body) \<Longrightarrow> TrimSpace body = body \<Longrightarrow> insert_message r u body now uid d = Inr (x6, d') \<Longrightarrow> rows_typed d'"
  using assms
  by (auto simp: room_statements new_room_def rows_typed_def row_types label_typed_def
      pg_text_opt_def [of None] pg_text_opt_def [of "Some x" for x] short_text_def [of _ None] Let_def
      split: if_splits option.splits intro!: list_all_update_where)
lemma rows_typed_rooms:
  assumes "rows_typed d" "\<And>r. room_typed r \<Longrightarrow> p r \<Longrightarrow> room_typed (f r)"
  shows "rows_typed (d\<lparr>t_rooms := update_where p f (t_rooms d)\<rparr>)"
  using assms by (auto simp: rows_typed_def intro!: list_all_update_where)

lemma rows_typed_deletes:
  assumes "rows_typed d"
  shows "rows_typed (d\<lparr>t_personal_markers := delete_where p (t_personal_markers d)\<rparr>)"
    "rows_typed (d\<lparr>t_room_stops := delete_where q (t_room_stops d)\<rparr>)"
  using assms by (simp_all add: rows_typed_def list_all_delete_where)

abbreviation keeps_types :: "(('h rworld, 'e, 'a) cmd) \<Rightarrow> bool" where
  "keeps_types \<equiv> keeps (\<lambda>w. rows_typed (w_db w))"

lemma types_update_rooms:
  assumes "\<And>now r. room_typed r \<Longrightarrow> p r \<Longrightarrow> list_all pg_text_opt texts \<Longrightarrow> room_typed (f now r)"
  shows "keeps_types (stmt (update_room_returning texts p f))"
    "texts = [] \<Longrightarrow> keeps_types (stmt (update_rooms p f))"
  by (rule keeps_stmt; use assms in \<open>auto simp: update_rooms_def update_room_returning_def split: if_splits option.splits
      intro!: rows_typed_rooms\<close>)+

lemma types_members [keeps_intros]:
  "keeps_types (Store_UpsertMember r u)" "keeps_types (Store_MarkLeft r u)" "keeps_types (Store_SetMuted r u b)"
  "keeps_types (Store_Kick r u)"
  unfolding Store_UpsertMember_def Store_MarkLeft_def Store_SetMuted_def Store_Kick_def
  by (intro keeps_andThen keeps_ok keeps_rows_or_not_found keeps_stmt; erule (1) room_statements_typed(3,4))+

lemma types_rooms [keeps_intros]:
  "keeps_types (Store_EndRoom r)" "keeps_types (Store_UpdateName r name)" "keeps_types (Store_ClearDestination r)"
  unfolding Store_EndRoom_def Store_UpdateName_def Store_ClearDestination_def
  by (intro keeps_andThen keeps_map_err keeps_ok keeps_rows_or_not_found types_update_rooms(1)
      types_update_rooms(2)[of _ "[]"]; simp add: room_typed_def)+

lemma types_deletes [keeps_intros]:
  "keeps_types (Store_DeletePersonalMarker r u)" "keeps_types (Store_ClearStops r)" "keeps_types (Store_RemoveStop r st)"
  unfolding Store_DeletePersonalMarker_def Store_ClearStops_def Store_RemoveStop_def
  by (intro keeps_andThen keeps_rows_or_not_found keeps_stmt; clarsimp simp: rows_typed_deletes)+

lemma types_store_checked [keeps_intros]:
  "on_earth lat lng \<Longrightarrow> short_text 120 label \<Longrightarrow> short_text 500 notes \<Longrightarrow>
     keeps_types (Store_SetDestination r u lat lng label notes)"
  "short_text 120 label \<Longrightarrow> short_text 500 notes \<Longrightarrow> keeps_types (Store_UpdateDestinationMeta r label notes)"
  "on_earth lat lng \<Longrightarrow> short_text 120 label \<Longrightarrow> keeps_types (Store_UpsertPersonalMarker r u lat lng label)"
  "on_earth lat lng \<Longrightarrow> short_text 120 label \<Longrightarrow> keeps_types (Store_AddStop r u lat lng label)"
  "short_text 120 label \<Longrightarrow> keeps_types (Store_UpdateStopLabel r st label)"
  "short_text 2000 (Some body) \<Longrightarrow> TrimSpace body = body \<Longrightarrow> keeps_types (Store_CreateMessage r u body)"
  unfolding store_methods
  by (intro keeps_andThen keeps_map_err keeps_result keeps_stmt types_update_rooms(1);
      auto simp: room_typed_def label_typed_def intro: room_statements_typed)+

lemma types_CreateRoom [keeps_intros]: "code_typed code \<Longrightarrow> keeps_types (Store_CreateRoom u code name)"
  unfolding Store_CreateRoom_def
  by (rule keeps_tx) (auto simp: ok_def elim!: andThen_InrE dest!: tx_stmt_InrD intro: room_statements_typed)

lemma types_TransferOwnership [keeps_intros]: "keeps_types (Store_TransferOwnership r u v)"
proof (rule keepsI)
  fix w :: "'h rworld" assume w: "rows_typed (w_db w)"
  obtain res w' where t: "Store_TransferOwnership r u v w = (res, w')" by force
  show "rows_typed (w_db (snd (Store_TransferOwnership r u v w)))"
  proof (cases res)
    case (Inl e)
    with t w show ?thesis by (simp add: Store_TransferOwnership_def tx_atomic)
  next
    case (Inr x)
    with t have "Store_TransferOwnership r u v w = (Inr (), w')" by simp
    then show ?thesis
      by (rule Store_TransferOwnership_Inr)
        (use t w in \<open>auto simp: hand_over_def room_typed_def rows_typed_def intro!: list_all_update_where\<close>)
  qed
qed

section \<open>The room service\<close>

lemma generateCode_typed:
  "triple (\<lambda>w. rows_typed (w_db w)) generateCode (\<lambda>code w. rows_typed (w_db w) \<and> code_typed code) (\<lambda>_ w. rows_typed (w_db w))"
proof (rule tripleI)
  fix w code w' assume "rows_typed (w_db w)" "generateCode w = (Inr code, w' :: 'b rworld)"
  then show "rows_typed (w_db w') \<and> code_typed code"
    using generate_digits_Inr [of 6 w code w'] by (simp add: generateCode_def code_typed_def digits_at_digits)
next
  fix w e w' assume "rows_typed (w_db w)" "generateCode w = (Inl e, w' :: 'b rworld)"
  then show "rows_typed (w_db w')" using keepsD [OF keeps_generateCode, of rows_typed w] by simp
qed

lemma types_create_loop [keeps_intros]: "keeps_types (create_loop k u name :: ('h, Room) svc)"
proof (induction k)
  case (Suc k)
  have "triple (\<lambda>w :: 'h rworld. rows_typed (w_db w) \<and> code_typed code)
      (onErr (Store_CreateRoom u code name)
        (\<lambda>err. if err = unique_violation then create_loop k u name else fail err) ok)
      (\<lambda>_ w. rows_typed (w_db w)) (\<lambda>_ w. rows_typed (w_db w))" for code
  proof (cases "code_typed code")
    case True
    have "keeps_types (onErr (Store_CreateRoom u code name)
        (\<lambda>err. if err = unique_violation then create_loop k u name else fail err) ok :: ('h, Room) svc)"
      by (intro keeps_intros Suc True)
    then show ?thesis unfolding keeps_triple by (rule triple_conseq) simp_all
  qed (simp add: triple_def)
  then show ?case unfolding keeps_triple create_loop.simps by (rule triple_andThen [OF generateCode_typed])
qed (simp add: keeps_fail)

lemma trim_short: "short_text 120 (trimLabel v)" "short_text 500 (trimNotes v)"
proof -
  have "short_text n (trim_to n v)" if "0 < n" for n
    using trim_to_spec [where n = n and l = "the v"] that
    by (cases v) (auto simp: short_text_def RuneCountInString_def trim_to_def [of _ None] pred_option_def
        split: option.splits)
  then show "short_text 120 (trimLabel v)" "short_text 500 (trimNotes v)"
    by (simp_all add: trimLabel_trim_to trimNotes_trim_to maxMarkerLabelLen_def maxDestNotesLen_def)
qed

lemma not_bad_coords: "\<not> bad_coords lat lng \<Longrightarrow> on_earth lat lng"
  by (simp add: bad_coords_def on_earth_def)

text \<open>The destination that becomes a personal marker comes out of the table.\<close>

lemma types_demote [keeps_intros]: "keeps_types (demote_destination r u)"
proof (rule keepsI)
  fix w :: "'h rworld" assume w: "rows_typed (w_db w)"
  obtain res v where g: "Store_GetDestination r w = (res, v)" by force
  have v: "rows_typed (w_db v)"
    using keepsD [OF keeps_reads(7), of rows_typed w r] w g by simp
  have "\<exists>q \<in> set (t_rooms (w_db v)). r_dest_lat q = Some (DestLat d) \<and> r_dest_lng q = Some (DestLng d) \<and> DestName d = r_dest_name q"
    if "res = Inr (Some d)" for d
    using g that unfolding Store_GetDestination_def
    by (auto simp: result_def ok_def fail_def sql_select_def scan_destination_def elim!: andThen_InrE
        dest!: stmt_InrD find_SomeD split: option.splits) blast
  then have "on_earth (DestLat d) (DestLng d) \<and> short_text 120 (DestName d)" if "res = Inr (Some d)" for d
    using that room_typedD rows_typedD(1)[OF v] by metis
  then have "keeps_types (Store_UpsertPersonalMarker r u (DestLat d) (DestLng d) (DestName d))" if "res = Inr (Some d)" for d
    using that by (intro keeps_intros) blast+
  from keepsD [OF this v] show "rows_typed (w_db (snd (demote_destination r u w)))"
    using g v by (auto simp: demote_destination_def onErr_def ok_def split: sum.splits option.splits prod.splits)
qed

lemmas types_reads [keeps_intros] = keeps_reads [of rows_typed] keeps_notify [of rows_typed] keeps_guards [of rows_typed]
  keeps_broadcastStops [of rows_typed]

lemma types_service [keeps_intros]:
  "keeps_types (Service_Create u name)"
  "keeps_types (Service_Join tab s u code)"
  "keeps_types (Service_Detail s r u)"
  "keeps_types (Service_ListActiveForUser s u)"
  "keeps_types (Service_SetDestination s r u lat lng name' nts)"
  "keeps_types (Service_UpdateDestinationMeta s r u name' nts)"
  "keeps_types (Service_ClearDestination s r u)"
  "keeps_types (Service_SetPersonalMarker r u lat lng label)"
  "keeps_types (Service_ClearPersonalMarker r u)"
  "keeps_types (Service_AddStop s r u lat lng label)"
  "keeps_types (Service_UpdateStopLabel s r u st label)"
  "keeps_types (Service_RemoveStop s r u st)"
  "keeps_types (Service_ClearStops s r u)"
  "keeps_types (Service_Rename s r u rname)"
  "keeps_types (Service_Leave s r u)"
  "keeps_types (Service_Mute s r u t muted)"
  "keeps_types (Service_Kick s r u t)"
  "keeps_types (Service_End s r u)"
  "keeps_types (Service_TransferOwnership s r u t)"
  "keeps_types (Service_ListMessages r u before limit)"
  unfolding Service_Create_def Service_Join_def Service_Detail_def Service_ListActiveForUser_def Service_SetDestination_def
    Service_UpdateDestinationMeta_def Service_ClearDestination_def Service_SetPersonalMarker_def
    Service_ClearPersonalMarker_def Service_AddStop_def Service_UpdateStopLabel_def Service_RemoveStop_def
    Service_ClearStops_def Service_Rename_def Service_Leave_def Service_Mute_def Service_Kick_def Service_End_def
    Service_TransferOwnership_def Service_ListMessages_def Let_def
  by (intro keeps_intros trim_short not_bad_coords; assumption)+

lemma types_PostMessage [keeps_intros]: "keeps_types (Service_PostMessage s r u body)"
  unfolding Service_PostMessage_def Let_def maxMessageLen_def
  by (intro keeps_intros) (simp_all add: short_text_def TrimSpace_idem)

section \<open>Every reachable state\<close>

lemma serve_rooms_typed: "rows_typed (w_db w) \<Longrightarrow> rows_typed (w_db (snd (serve_rooms P sv e rq u w)))"
  by (cases e; simp only: serve_rooms.simps h_voiceToken_def h_listActive_def h_create_def h_join_def h_get_def h_leave_def
      h_rename_def h_mute_def h_kick_def h_transferOwner_def h_putDestination_def h_patchDestination_def
      h_deleteDestination_def h_putPersonalMarker_def h_deletePersonalMarker_def h_addStop_def h_patchStop_def
      h_removeStop_def h_clearStops_def h_postMessage_def h_listMessages_def h_end_def snd_respond;
    erule keepsD [rotated]; intro keeps_intros)

interpretation rows: server_invariant rows_typed "\<lambda>_. True"
  by unfold_locales (simp_all add: rows_typed_init serve_rooms_typed | (erule account_statements_typed; assumption?))+

end
