(* ===== verification/StoreRace.thy ===== *)
theory StoreRace
  imports AccountSafety Membership
begin

text \<open>
  Requests run concurrently: between two store calls of one request the calls of
  any other may run.  Here the unit of interleaving is the store call (one
  statement or one transaction), with arguments that may come from guards checked
  long before.  Every such interleaving is simulated by the same calls on tables
  that satisfy the whole invariant; the two differ only in stale owner roles, which
  overlapping transfers of ownership leave behind.
\<close>

section \<open>Tables up to stale owner roles\<close>

text \<open>The same membership, which on the left may hold the owner role without being the owner.\<close>

definition role_sim :: "member_row \<Rightarrow> member_row \<Rightarrow> bool" where
  "role_sim m m' \<longleftrightarrow> (\<exists>role. m' = m\<lparr>rm_role := role\<rparr> \<and> (role = RoleOwner \<longrightarrow> rm_role m = RoleOwner)) \<and>
     (rm_role m = RoleOwner \<or> rm_role m = RoleMember)"

definition more_owners :: "db \<Rightarrow> db \<Rightarrow> bool" where
  "more_owners d d' \<longleftrightarrow> d' = d\<lparr>t_room_members := t_room_members d'\<rparr> \<and> list_all2 role_sim (t_room_members d) (t_room_members d')"

lemma more_ownersE:
  assumes "more_owners d d'"
  obtains ms where "d' = d\<lparr>t_room_members := ms\<rparr>" "list_all2 role_sim (t_room_members d) ms"
  using assms by (auto simp: more_owners_def)

lemma more_ownersI: "list_all2 role_sim (t_room_members d) ms \<Longrightarrow> more_owners d (d\<lparr>t_room_members := ms\<rparr>)"
  by (simp add: more_owners_def)

lemma role_sim_keys:
  assumes "role_sim m m'"
  shows "rm_room_id m' = rm_room_id m" "rm_user_id m' = rm_user_id m" "rm_left_at m' = rm_left_at m" "rm_kicked m' = rm_kicked m"
  using assms by (auto simp: role_sim_def)

lemma role_sim_conditions:
  assumes "role_sim m m'"
  shows "is_membership r u m' = is_membership r u m" "joined r u m' = joined r u m" "active_member r u m' = active_member r u m"
  using role_sim_keys [OF assms] by (simp_all add: is_membership_def joined_def active_member_def)

lemma sim_ex:
  "list_all2 role_sim ms ms' \<Longrightarrow> (\<And>m m'. role_sim m m' \<Longrightarrow> p m' = p m) \<Longrightarrow> (\<exists>m \<in> set ms'. p m) = (\<exists>m \<in> set ms. p m)"
  by (induction rule: list_all2_induct) auto

lemma sim_rows:
  "list_all2 role_sim ms ms' \<Longrightarrow> (\<And>m m'. role_sim m m' \<Longrightarrow> p m' = p m) \<Longrightarrow> rows_where p ms' = rows_where p ms"
  by (induction rule: list_all2_induct) (auto simp: rows_where_def)

lemma sim_update:
  "list_all2 role_sim ms ms' \<Longrightarrow> (\<And>m m'. role_sim m m' \<Longrightarrow> p m' = p m) \<Longrightarrow>
   (\<And>m m'. role_sim m m' \<Longrightarrow> role_sim (f m) (f m')) \<Longrightarrow> list_all2 role_sim (update_where p f ms) (update_where p f ms')"
  by (induction rule: list_all2_induct) (auto simp: update_where_def)

lemma sim_delete:
  "list_all2 role_sim ms ms' \<Longrightarrow> (\<And>m m'. role_sim m m' \<Longrightarrow> p m' = p m) \<Longrightarrow>
   list_all2 role_sim (delete_where p ms) (delete_where p ms')"
  by (induction rule: list_all2_induct) (auto simp: delete_where_def)

section \<open>Commands on both tables\<close>

definition stmt_sim :: "'a sql \<Rightarrow> bool" where
  "stmt_sim q \<longleftrightarrow> (\<forall>now uid d d'. more_owners d d' \<longrightarrow>
     (case q now uid d of Inl e \<Rightarrow> q now uid d' = Inl e | Inr (x, e) \<Rightarrow> \<exists>e'. q now uid d' = Inr (x, e') \<and> more_owners e e'))"

definition world_sim :: "'z world_scheme \<Rightarrow> 'z world_scheme \<Rightarrow> bool" where
  "world_sim w v \<longleftrightarrow> v = w\<lparr>w_db := w_db v\<rparr> \<and> more_owners (w_db w) (w_db v)"

definition cmd_sim :: "('z, 'a) dbcmd \<Rightarrow> bool" where
  "cmd_sim m \<longleftrightarrow> (\<forall>w v. world_sim w v \<longrightarrow> fst (m v) = fst (m w) \<and> world_sim (snd (m w)) (snd (m v)))"

lemma world_simE:
  assumes "world_sim w v"
  obtains d where "v = w\<lparr>w_db := d\<rparr>" "more_owners (w_db w) d"
  using assms by (auto simp: world_sim_def)

lemma sim_stmt:
  fixes q :: "'a sql"
  assumes "stmt_sim q"
  shows "cmd_sim (stmt q :: ('z, 'a) dbcmd)"
  unfolding cmd_sim_def
proof (intro allI impI)
  fix w v :: "'z world_scheme" assume "world_sim w v"
  then obtain d where d: "v = w\<lparr>w_db := d\<rparr>" "more_owners (w_db w) d" by (rule world_simE)
  note q = assms [unfolded stmt_sim_def, rule_format, OF d(2), of "tk_now (tick_of w)" "tk_uuid (tick_of w)"]
  show "fst (stmt q v) = fst (stmt q w) \<and> world_sim (snd (stmt q w)) (snd (stmt q v))"
    using q d(2) unfolding d(1)
    by (auto simp: stmt_def tick_of_def advance_def world_sim_def split: option.splits sum.splits)
qed

lemma sim_tx_stmt:
  fixes q :: "'a sql"
  assumes "stmt_sim q"
  shows "cmd_sim (tx_stmt now q :: ('z, 'a) dbcmd)"
  unfolding cmd_sim_def
proof (intro allI impI)
  fix w v :: "'z world_scheme" assume "world_sim w v"
  then obtain d where d: "v = w\<lparr>w_db := d\<rparr>" "more_owners (w_db w) d" by (rule world_simE)
  note q = assms [unfolded stmt_sim_def, rule_format, OF d(2), of now "tk_uuid (tick_of w)"]
  show "fst (tx_stmt now q v) = fst (tx_stmt now q w) \<and> world_sim (snd (tx_stmt now q w)) (snd (tx_stmt now q v))"
    using q d(2) unfolding d(1)
    by (auto simp: tx_stmt_def tick_of_def advance_def world_sim_def split: option.splits sum.splits)
qed

lemma sim_onErr:
  assumes "cmd_sim m" "\<And>e. cmd_sim (h e)" "\<And>x. cmd_sim (k x)"
  shows "cmd_sim (onErr m h k)"
  unfolding cmd_sim_def
proof (intro allI impI)
  fix w v :: "'a world_scheme" assume wv: "world_sim w v"
  obtain r w1 v1 where m: "m w = (r, w1)" "m v = (r, v1)" "world_sim w1 v1"
    using assms(1) wv by (metis cmd_sim_def fst_conv snd_conv surj_pair)
  then show "fst (onErr m h k v) = fst (onErr m h k w) \<and> world_sim (snd (onErr m h k w)) (snd (onErr m h k v))"
    using assms(2,3) by (cases r) (simp_all add: onErr_def cmd_sim_def)
qed

lemma sim_simple: "cmd_sim (ok x)" "cmd_sim (fail e)" "cmd_sim (result r)"
  by (simp_all add: cmd_sim_def ok_def fail_def result_def)

lemma sim_andThen: "cmd_sim m \<Longrightarrow> (\<And>x. cmd_sim (k x)) \<Longrightarrow> cmd_sim (andThen m k)"
  unfolding andThen_def by (intro sim_onErr sim_simple)

lemma sim_map_err: "cmd_sim m \<Longrightarrow> cmd_sim (map_err f m)"
  unfolding map_err_def by (intro sim_onErr sim_simple)

lemma sim_rows_or_not_found: "cmd_sim (rows_or_not_found n)"
  by (simp add: rows_or_not_found_def sim_simple)

lemma sim_if: "(b \<Longrightarrow> cmd_sim m) \<Longrightarrow> (\<not> b \<Longrightarrow> cmd_sim n) \<Longrightarrow> cmd_sim (if b then m else n)"
  by simp

lemma sim_tx:
  fixes body :: "timestamp \<Rightarrow> ('z, 'a) dbcmd"
  assumes "\<And>now. cmd_sim (body now)"
  shows "cmd_sim (tx body)"
  unfolding cmd_sim_def
proof (intro allI impI)
  fix w v :: "'z world_scheme" assume "world_sim w v"
  then obtain d where d: "v = w\<lparr>w_db := d\<rparr>" "more_owners (w_db w) d" by (rule world_simE)
  have t: "tick_of v = tick_of w" by (simp add: d(1) tick_of_def)
  let ?start = "\<lambda>w. (advance w)\<lparr>w_aborted := False\<rparr>"
  let ?n = "tk_now (tick_of w)"
  have "world_sim (?start w) (?start v)" using d by (simp add: world_sim_def advance_def)
  then have c: "fst (body ?n (?start v)) = fst (body ?n (?start w))" "world_sim (snd (body ?n (?start w))) (snd (body ?n (?start v)))"
    using assms [of ?n] unfolding cmd_sim_def by blast+
  obtain r w1 where b1: "body ?n (?start w) = (r, w1)" by (rule prod.exhaust)
  obtain r' v1 where b2: "body ?n (?start v) = (r', v1)" by (rule prod.exhaust)
  have b: "body ?n (?start w) = (r, w1)" "body ?n (?start v) = (r, v1)" "world_sim w1 v1" using b1 b2 c by simp_all
  obtain d1 where d1: "v1 = w1\<lparr>w_db := d1\<rparr>" "more_owners (w_db w1) d1" using b(3) by (rule world_simE)
  have t1: "tick_of v1 = tick_of w1" by (simp add: d1(1) tick_of_def)
  have undone: "world_sim (rollback (w_db w) x) (rollback d (x\<lparr>w_db := d1\<rparr>))" for x
    using d(2) by (simp add: world_sim_def rollback_def)
  have adv: "advance v1 = (advance w1)\<lparr>w_db := d1\<rparr>" "advance v = (advance w)\<lparr>w_db := d\<rparr>" "w_aborted v1 = w_aborted w1" "w_db v = d"
    by (simp_all add: d(1) d1(1) advance_def)
  have ends: "world_sim (advance w) (advance v)" "world_sim (advance w1) (advance v1)"
    using d(2) d1(2) by (simp_all add: adv world_sim_def)
  show "fst (tx body v) = fst (tx body w) \<and> world_sim (snd (tx body w)) (snd (tx body v))"
  proof (cases "tk_fault (tick_of w)")
    case None
    then show ?thesis using b(1,2) undone [of w1] undone [of "advance w1"] ends(2)
      by (cases r; cases "tk_fault (tick_of w1)"; cases "w_aborted w1"; simp add: tx_def t t1 adv d1(1) [symmetric])
  qed (simp add: tx_def t ends)
qed

section \<open>Every statement but the transfer\<close>

text \<open>A statement that neither reads nor writes memberships.\<close>

lemma stmt_sim_frame:
  assumes "\<And>now uid d ms. q now uid (d\<lparr>t_room_members := ms\<rparr>) =
      (case q now uid d of Inl e \<Rightarrow> Inl e | Inr (x, e) \<Rightarrow> Inr (x, e\<lparr>t_room_members := ms\<rparr>))"
    and "\<And>now uid d x e. q now uid d = Inr (x, e) \<Longrightarrow> t_room_members e = t_room_members d"
  shows "stmt_sim q"
  unfolding stmt_sim_def
proof (intro allI impI)
  fix now uid d d' assume "more_owners d d'"
  then obtain ms where "d' = d\<lparr>t_room_members := ms\<rparr>" "list_all2 role_sim (t_room_members d) ms" by (rule more_ownersE)
  with assms show "case q now uid d of Inl e \<Rightarrow> q now uid d' = Inl e | Inr (x, e) \<Rightarrow> \<exists>e'. q now uid d' = Inr (x, e') \<and> more_owners e e'"
    by (auto simp: more_owners_def split: sum.splits)
qed

lemma sim_reads: "stmt_sim (sql_row (\<lambda>d. f (t_users d)))" "stmt_sim (select_identity p s)"
  by (rule stmt_sim_frame; simp add: sql_row_def select_identity_def identity_of_def split: option.splits if_splits)+

lemma sim_room_tables:
  "stmt_sim (insert_room code name u)"
  "stmt_sim (update_rooms p f)"
  "stmt_sim (update_room_returning texts p f)"
  "stmt_sim (set_owner r u)"
  "stmt_sim (upsert_marker r u lat lng label)"
  "stmt_sim (update_stop_label r st label)"
  "stmt_sim (insert_message r u body)"
  by (rule stmt_sim_frame; auto simp: room_statements user_by_id_def Let_def split: option.splits if_splits)+

lemma sim_set_destination: "stmt_sim (set_destination r u lat lng label nts)"
  by (rule stmt_sim_frame; simp add: set_destination_def update_room_returning_def split: option.splits if_splits)

lemma sim_insert_stop: "stmt_sim (insert_stop r u lat lng label)"
proof (rule stmt_sim_frame)
  have "next_position r (d\<lparr>t_room_members := ms\<rparr>) = next_position r d" for d ms by (simp add: next_position_def)
  then show "insert_stop r u lat lng label now uid (d\<lparr>t_room_members := ms\<rparr>) =
      (case insert_stop r u lat lng label now uid d of Inl e \<Rightarrow> Inl e | Inr (x, e) \<Rightarrow> Inr (x, e\<lparr>t_room_members := ms\<rparr>))"
    for now uid d ms by (simp add: insert_stop_def Let_def)
qed (auto simp: insert_stop_def Let_def split: if_splits)

lemma sim_account_tables:
  "stmt_sim (insert_user name' avatar email)"
  "stmt_sim (update_display_name name' u)"
  "stmt_sim (update_email e u)"
  "stmt_sim (insert_identity u prov sub email)"
  "stmt_sim (insert_feedback u m)"
  "stmt_sim (upsert_token u tok pl)"
  "stmt_sim (insert_broadcast t b i j k)"
  "stmt_sim (upsert_config key v)"
  "stmt_sim (restore_user u)"
  "stmt_sim (stamp_deleted u)"
  "stmt_sim (end_owned_rooms u)"
  by (rule stmt_sim_frame; auto simp: insert_user_def update_display_name_def live_user_def update_email_def
      insert_identity_def identity_of_def insert_feedback_def scan_entry_def author_name_def upsert_token_def
      insert_broadcast_def upsert_config_def restore_user_def stamp_deleted_def end_owned_rooms_def Let_def
      split: option.splits if_splits)+

text \<open>The statements on memberships read and write everything but the role.\<close>

lemma role_sim_refl: "rm_role m = RoleOwner \<or> rm_role m = RoleMember \<Longrightarrow> role_sim m m"
  by (auto simp: role_sim_def intro: exI [of _ "rm_role m"])

lemma role_sim_map:
  assumes "role_sim m m'" "\<And>m x. f (m\<lparr>rm_role := x\<rparr>) = (f m)\<lparr>rm_role := x\<rparr>" "\<And>m. rm_role (f m) = rm_role m"
  shows "role_sim (f m) (f m')"
  using assms by (auto simp: role_sim_def)

lemma stmt_simI:
  assumes "\<And>now uid d ms. list_all2 role_sim (t_room_members d) ms \<Longrightarrow>
    case q now uid d of Inl e \<Rightarrow> q now uid (d\<lparr>t_room_members := ms\<rparr>) = Inl e
    | Inr (x, e) \<Rightarrow> \<exists>ns. q now uid (d\<lparr>t_room_members := ms\<rparr>) = Inr (x, e\<lparr>t_room_members := ns\<rparr>) \<and> list_all2 role_sim (t_room_members e) ns"
  shows "stmt_sim q"
  unfolding stmt_sim_def
proof (intro allI impI)
  fix now uid d d' assume "more_owners d d'"
  then obtain ms where "d' = d\<lparr>t_room_members := ms\<rparr>" "list_all2 role_sim (t_room_members d) ms" by (rule more_ownersE)
  with assms [of d ms now uid] show "case q now uid d of Inl e \<Rightarrow> q now uid d' = Inl e
    | Inr (x, e) \<Rightarrow> \<exists>e'. q now uid d' = Inr (x, e') \<and> more_owners e e'"
    by (auto split: sum.splits intro: more_ownersI)
qed

lemma sim_update_members:
  assumes "\<And>m m'. role_sim m m' \<Longrightarrow> p m' = p m" "\<And>now m m'. role_sim m m' \<Longrightarrow> role_sim (f now m) (f now m')"
  shows "stmt_sim (update_members p f)"
  by (rule stmt_simI) (auto simp: update_members_def sim_rows [OF _ assms(1)] intro!: exI sim_update assms)

lemma sim_insert_member: "stmt_sim (insert_member r u role)"
  by (rule stmt_simI) (auto simp: insert_member_def new_member_def sim_ex role_sim_conditions
      intro!: exI list_all2_appendI role_sim_refl)

lemma sim_upsert_member: "stmt_sim (upsert_member r u)"
proof (rule stmt_simI)
  fix now uid and d :: db and ms assume ms: "list_all2 role_sim (t_room_members d) ms"
  have ex: "(\<exists>m \<in> set ms. is_membership r u m) = (\<exists>m \<in> set (t_room_members d). is_membership r u m)"
    by (rule sim_ex [OF ms]) (rule role_sim_conditions)
  have "list_all2 role_sim (update_where (is_membership r u) (\<lambda>m. m\<lparr>rm_left_at := None, rm_kicked := False\<rparr>) (t_room_members d))
      (update_where (is_membership r u) (\<lambda>m. m\<lparr>rm_left_at := None, rm_kicked := False\<rparr>) ms)"
    by (rule sim_update [OF ms], simp add: role_sim_conditions, erule role_sim_map, simp_all)
  then show "case upsert_member r u now uid d of Inl e \<Rightarrow> upsert_member r u now uid (d\<lparr>t_room_members := ms\<rparr>) = Inl e
    | Inr (x, e) \<Rightarrow> \<exists>ns. upsert_member r u now uid (d\<lparr>t_room_members := ms\<rparr>) = Inr (x, e\<lparr>t_room_members := ns\<rparr>) \<and>
        list_all2 role_sim (t_room_members e) ns"
    using ms by (auto simp: upsert_member_def ex insert_member_def new_member_def RoleMember_def
        intro!: exI list_all2_appendI role_sim_refl)
qed

lemma sim_kick_memberships: "stmt_sim (kick_memberships u)"
proof (rule stmt_simI)
  fix now uid and d :: db and ms assume ms: "list_all2 role_sim (t_room_members d) ms"
  have "list_all2 role_sim
      (update_where (\<lambda>m. rm_user_id m = u \<and> rm_left_at m = None) (\<lambda>m. m\<lparr>rm_kicked := True, rm_left_at := Some now\<rparr>) (t_room_members d))
      (update_where (\<lambda>m. rm_user_id m = u \<and> rm_left_at m = None) (\<lambda>m. m\<lparr>rm_kicked := True, rm_left_at := Some now\<rparr>) ms)"
    by (rule sim_update [OF ms], simp add: role_sim_keys, erule role_sim_map, simp_all)
  then show "case kick_memberships u now uid d of Inl e \<Rightarrow> kick_memberships u now uid (d\<lparr>t_room_members := ms\<rparr>) = Inl e
    | Inr (x, e) \<Rightarrow> \<exists>ns. kick_memberships u now uid (d\<lparr>t_room_members := ms\<rparr>) = Inr (x, e\<lparr>t_room_members := ns\<rparr>) \<and>
        list_all2 role_sim (t_room_members e) ns"
    by (auto simp: kick_memberships_def)
qed

lemma sim_delete_user: "stmt_sim (delete_user u)"
proof (rule stmt_simI)
  fix now uid and d :: db and ms assume ms: "list_all2 role_sim (t_room_members d) ms"
  let ?d = "d\<lparr>t_room_members := ms\<rparr>" and ?gone = "\<lambda>m. rm_user_id m = u \<or> rm_room_id m \<in> owned_rooms d u"
  have c: "cascade_user u ?d = (cascade_user u d)\<lparr>t_room_members := delete_where ?gone ms\<rparr>"
    by (simp add: cascade_user_def owned_rooms_def)
  have n: "still_named u (cascade_user u ?d) = still_named u (cascade_user u d)" by (simp add: c still_named_def)
  have "list_all2 role_sim (t_room_members (cascade_user u d)) (delete_where ?gone ms)"
    unfolding cascade_user_def by (simp, rule sim_delete [OF ms]) (simp add: role_sim_keys)
  with ms n show "case delete_user u now uid d of Inl e \<Rightarrow> delete_user u now uid ?d = Inl e
    | Inr (x, e) \<Rightarrow> \<exists>ns. delete_user u now uid ?d = Inr (x, e\<lparr>t_room_members := ns\<rparr>) \<and> list_all2 role_sim (t_room_members e) ns"
    by (auto simp: delete_user_def c)
qed

section \<open>Every call but the transfer\<close>

lemma role_sim_set:
  "role_sim m m' \<Longrightarrow> role_sim (m\<lparr>rm_left_at := t\<rparr>) (m'\<lparr>rm_left_at := t\<rparr>)"
  "role_sim m m' \<Longrightarrow> role_sim (m\<lparr>rm_muted := b\<rparr>) (m'\<lparr>rm_muted := b\<rparr>)"
  "role_sim m m' \<Longrightarrow> role_sim (m\<lparr>rm_kicked := k, rm_left_at := t\<rparr>) (m'\<lparr>rm_kicked := k, rm_left_at := t\<rparr>)"
  by (erule role_sim_map; simp)+

lemma sim_deletes:
  "stmt_sim (\<lambda>now uid d. Inr ((), d\<lparr>t_personal_markers := delete_where p (t_personal_markers d)\<rparr>))"
  "stmt_sim (\<lambda>now uid d. Inr ((), d\<lparr>t_room_stops := delete_where q (t_room_stops d)\<rparr>))"
  "stmt_sim (\<lambda>now uid d. Inr (rows_where q (t_room_stops d), d\<lparr>t_room_stops := delete_where q (t_room_stops d)\<rparr>))"
  "stmt_sim (\<lambda>now uid d. if \<not> list_all pg_text ts then Inl bad_text
     else Inr ((), d\<lparr>t_push_tokens := delete_where (\<lambda>t. pt_token t \<in> set ts) (t_push_tokens d)\<rparr>))"
  by (rule stmt_sim_frame; auto split: if_splits)+

lemmas sim_rules = sim_andThen sim_map_err sim_onErr sim_simple sim_rows_or_not_found sim_if sim_stmt sim_tx_stmt sim_tx
  sim_reads sim_room_tables sim_set_destination sim_insert_stop sim_account_tables sim_insert_member sim_upsert_member
  sim_kick_memberships sim_delete_user sim_deletes

lemma sim_members_calls:
  "cmd_sim (Store_MarkLeft r u)" "cmd_sim (Store_SetMuted r u b)" "cmd_sim (Store_Kick r u)"
  unfolding Store_MarkLeft_def Store_SetMuted_def Store_Kick_def
  by (intro sim_rules sim_update_members role_sim_conditions role_sim_set; assumption)+

lemma sim_room_calls:
  "cmd_sim (Store_CreateRoom u code name)" "cmd_sim (Store_UpsertMember r u)" "cmd_sim (Store_EndRoom r)"
  "cmd_sim (Store_UpdateName r name)" "cmd_sim (Store_SetDestination r u lat lng label nts)"
  "cmd_sim (Store_UpdateDestinationMeta r label nts)" "cmd_sim (Store_ClearDestination r)"
  "cmd_sim (Store_UpsertPersonalMarker r u lat lng label)" "cmd_sim (Store_DeletePersonalMarker r u)"
  "cmd_sim (Store_AddStop r u lat lng label)" "cmd_sim (Store_ClearStops r)" "cmd_sim (Store_RemoveStop r st)"
  "cmd_sim (Store_UpdateStopLabel r st label)" "cmd_sim (Store_CreateMessage r u body)"
  unfolding Store_CreateRoom_def Store_UpsertMember_def Store_EndRoom_def Store_UpdateName_def Store_SetDestination_def
    Store_UpdateDestinationMeta_def Store_ClearDestination_def Store_UpsertPersonalMarker_def Store_DeletePersonalMarker_def
    Store_AddStop_def Store_ClearStops_def Store_RemoveStop_def Store_UpdateStopLabel_def Store_CreateMessage_def
  by (intro sim_rules)+

text \<open>The transaction of \<open>HandleDeleteAccount\<close>.\<close>

definition delete_account_tx :: "uuid \<Rightarrow> ('z, unit) dbcmd" where
  "delete_account_tx u = tx (\<lambda>now.
     andThen (tx_stmt now (stamp_deleted u)) (\<lambda>_.
     andThen (tx_stmt now (end_owned_rooms u)) (\<lambda>_.
     tx_stmt now (kick_memberships u))))"

lemma HandleDeleteAccount_tx: "HandleDeleteAccount (Some u) = respond (andThen (delete_account_tx (UserID u)) (\<lambda>_. ok NoContent))"
  by (simp add: HandleDeleteAccount_def delete_account_tx_def)

lemma sim_account_calls:
  "cmd_sim (delete_account_tx u)" "cmd_sim (upsertOAuthUser i)" "cmd_sim (PushStore_DeleteTokens ts)"
  "cmd_sim (AppConfig_Set key v)"
proof -
  show "cmd_sim (upsertOAuthUser i)" unfolding upsertOAuthUser_def resolve_identity_def live_user_def
    by (intro sim_rules sim_reads(1)[of "\<lambda>us. map_option scan_user (List.find (\<lambda>r. u_id r = u \<and> u_deleted_at r = None) us)" for u])
qed (unfold delete_account_tx_def PushStore_DeleteTokens_def AppConfig_Set_def, (intro sim_rules)+)

section \<open>The transfer\<close>

lemma owner_role_user:
  assumes "db_ok d" "m \<in> set (t_room_members d)" "rm_role m = RoleOwner" "row \<in> set (t_rooms d)" "r_id row = rm_room_id m"
  shows "rm_user_id m = r_owner_id row"
proof -
  have "member_key m \<in> member_key ` set (filter (\<lambda>m. rm_role m = RoleOwner) (t_room_members d))" using assms(2,3) by simp
  then have "member_key m \<in> (\<lambda>r. (r_id r, r_owner_id r)) ` set (t_rooms d)"
    using db_okD(4)[OF assms(1), unfolded owners_ok_def] by (simp only:)
  then show ?thesis using distinct_map_unique [OF keys_okD(2)[OF assms(1)] _ assms(4)] assms(5) by fastforce
qed

lemma sim_map:
  "list_all2 role_sim ms ms' \<Longrightarrow> (\<And>m m'. m' \<in> set ms' \<Longrightarrow> role_sim m m' \<Longrightarrow> role_sim (f m) (g m')) \<Longrightarrow>
   list_all2 role_sim (map f ms) (map g ms')"
  by (induction rule: list_all2_induct) auto

lemma role_sim_roles:
  assumes "role_sim m m'" "a = RoleOwner \<or> a = RoleMember" "b = RoleOwner \<Longrightarrow> a = RoleOwner"
  shows "role_sim (m\<lparr>rm_role := a\<rparr>) (m'\<lparr>rm_role := b\<rparr>)"
  using assms by (auto simp: role_sim_def)

lemma role_simD: "role_sim m m' \<Longrightarrow> rm_role m' = RoleOwner \<Longrightarrow> rm_role m = RoleOwner"
  "role_sim m m' \<Longrightarrow> rm_role m = RoleOwner \<or> rm_role m = RoleMember"
  by (auto simp: role_sim_def)

text \<open>
  On the tables with the true owners the transfer runs for the owner of that moment,
  or not at all when the new owner already is the owner.
\<close>

lemma transfer_members_sim:
  assumes ms: "list_all2 role_sim (t_room_members d) ms" and neq: "old \<noteq> new"
    and owner_is: "\<And>x. x \<in> set ms \<Longrightarrow> rm_role x = RoleOwner \<Longrightarrow> rm_room_id x = r \<Longrightarrow> rm_user_id x = cur"
  shows "list_all2 role_sim (t_room_members (hand_over r old new d))
    (map (\<lambda>x. x\<lparr>rm_role := if cur = new then rm_role x else if is_membership r new x then RoleOwner
      else if is_membership r cur x then RoleMember else rm_role x\<rparr>) ms)" (is "list_all2 _ _ (map (\<lambda>x. x\<lparr>rm_role := ?role x\<rparr>) ms)")
  unfolding hand_over_members [OF neq]
proof (rule sim_map [OF ms], rule role_sim_roles)
  fix x x' assume x': "x' \<in> set ms" and x: "role_sim x x'"
  note same = role_sim_conditions [OF x] role_sim_keys [OF x] and roles = role_simD [OF x]
  show "(if is_membership r new x then RoleOwner else if is_membership r old x then RoleMember else rm_role x) = RoleOwner \<or>
      (if is_membership r new x then RoleOwner else if is_membership r old x then RoleMember else rm_role x) = RoleMember"
    using roles(2) by auto
  show "(if is_membership r new x then RoleOwner else if is_membership r old x then RoleMember else rm_role x) = RoleOwner"
    if owner: "?role x' = RoleOwner"
  proof (cases "is_membership r new x")
    case False
    have diff: "RoleMember \<noteq> RoleOwner" by (simp add: RoleOwner_def RoleMember_def)
    have x'o: "rm_role x' = RoleOwner" using owner False diff by (simp only: same if_False split: if_splits)
    have "\<not> is_membership r old x"
    proof
      assume o: "is_membership r old x"
      then have "old = cur" using owner_is [OF x' x'o] same by (simp add: is_membership_def)
      then show False using owner False o neq diff same by (simp split: if_splits)
    qed
    with False roles(1)[OF x'o] show ?thesis by simp
  qed simp
qed

lemma hand_over_members_only:
  "(hand_over r old new d)\<lparr>t_room_members := ms\<rparr> = d\<lparr>t_rooms := t_rooms (hand_over r old new d), t_room_members := ms\<rparr>"
  by (simp add: hand_over_def)

lemma transfer_sim:
  assumes sim: "more_owners d d'" and ok: "tables_ok d'" and neq: "old \<noteq> new"
    and row: "row \<in> set (t_rooms d)" "r_id row = r" "room_active row"
    and m: "m \<in> set (t_room_members d)" "active_member r new m"
  shows "\<exists>e. tables_ok e \<and> more_owners (hand_over r old new d) e"
proof -
  obtain ms where d': "d' = d\<lparr>t_room_members := ms\<rparr>" and ms: "list_all2 role_sim (t_room_members d) ms"
    using sim by (rule more_ownersE)
  note db = tables_okD(1)[OF ok]
  let ?cur = "r_owner_id row"
  have "\<exists>m \<in> set ms. is_membership r new m"
    using m sim_ex [OF ms, of "is_membership r new"] role_sim_conditions(1) by (auto simp: active_member_def joined_def)
  then obtain m' where m': "m' \<in> set ms" "is_membership r new m'" by blast
  have cur: "rm_user_id x = ?cur" if "x \<in> set ms" "rm_role x = RoleOwner" "rm_room_id x = r" for x
    using owner_role_user [OF db, of x row] that row d' by simp
  define e where "e = (if ?cur = new then d' else hand_over r ?cur new d')"
  have rooms: "t_rooms (hand_over r old new d) = t_rooms e"
  proof (cases "?cur = new")
    case True
    have "r_owner_id x = new" if "x \<in> set (t_rooms d)" "r_id x = r" for x
      using distinct_map_unique [OF keys_okD(2)[OF db], of x row] that row True d' by simp
    then have "update_where (\<lambda>r'. r_id r' = r \<and> room_active r') (\<lambda>r. r\<lparr>r_owner_id := new\<rparr>) (t_rooms d) = t_rooms d"
      unfolding update_where_def by (intro map_idI) auto
    with True show ?thesis by (simp add: e_def d' hand_over_def)
  qed (simp add: e_def d' hand_over_def)
  have "tables_ok e"
  proof (cases "?cur = new")
    case False
    have "db_ok (hand_over r ?cur new d')"
      by (rule db_ok_hand_over [OF db, of row r ?cur new m']) (use row m' False d' in auto)
    then show ?thesis using ok False
      by (auto simp: e_def hand_over_def account_tables_def intro: tables_ok_rooms)
  qed (use ok in \<open>simp add: e_def\<close>)
  moreover have "more_owners (hand_over r old new d) e"
  proof -
    have "t_room_members e = map (\<lambda>x. x\<lparr>rm_role := if ?cur = new then rm_role x else if is_membership r new x then RoleOwner
        else if is_membership r ?cur x then RoleMember else rm_role x\<rparr>) ms"
      by (cases "?cur = new") (simp_all add: e_def d' hand_over_members map_idI)
    moreover note transfer_members_sim [OF ms neq cur]
    ultimately have "list_all2 role_sim (t_room_members (hand_over r old new d)) (t_room_members e)" by (simp only:)
    moreover have "e = (hand_over r old new d)\<lparr>t_room_members := t_room_members e\<rparr>"
      unfolding hand_over_members_only rooms by (cases "?cur = new") (simp_all add: e_def d' hand_over_def)
    ultimately show ?thesis by (simp add: more_owners_def)
  qed
  ultimately show ?thesis by blast
qed

section \<open>Interleavings\<close>

text \<open>
  One call of some request.  With \<open>strict\<close> a transfer runs only for the user who
  owns the room at that moment, as it does when transfers do not overlap; otherwise
  the caller may have lost the room since its request was checked.
\<close>

inductive store_step :: "bool \<Rightarrow> world \<Rightarrow> world \<Rightarrow> bool" for strict where
  read: "w_db w' = w_db w \<Longrightarrow> store_step strict w w'"
| create_room: "store_step strict w (snd (Store_CreateRoom u code name w))"
| upsert_member: "store_step strict w (snd (Store_UpsertMember r u w))"
| mark_left: "store_step strict w (snd (Store_MarkLeft r u w))"
| set_muted: "store_step strict w (snd (Store_SetMuted r u b w))"
| kick: "store_step strict w (snd (Store_Kick r u w))"
| end_room: "store_step strict w (snd (Store_EndRoom r w))"
| update_name: "store_step strict w (snd (Store_UpdateName r name w))"
| transfer: "old \<noteq> new \<Longrightarrow> (strict \<Longrightarrow> \<forall>row \<in> set (t_rooms (w_db w)). r_id row = r \<longrightarrow> r_owner_id row = old) \<Longrightarrow>
    store_step strict w (snd (Store_TransferOwnership r old new w))"
| set_destination: "store_step strict w (snd (Store_SetDestination r u lat lng label nts w))"
| update_destination: "store_step strict w (snd (Store_UpdateDestinationMeta r label nts w))"
| clear_destination: "store_step strict w (snd (Store_ClearDestination r w))"
| upsert_marker: "store_step strict w (snd (Store_UpsertPersonalMarker r u lat lng label w))"
| delete_marker: "store_step strict w (snd (Store_DeletePersonalMarker r u w))"
| add_stop: "store_step strict w (snd (Store_AddStop r u lat lng label w))"
| clear_stops: "store_step strict w (snd (Store_ClearStops r w))"
| remove_stop: "store_step strict w (snd (Store_RemoveStop r st w))"
| update_stop: "store_step strict w (snd (Store_UpdateStopLabel r st label w))"
| create_message: "store_step strict w (snd (Store_CreateMessage r u body w))"
| guest: "store_step strict w (snd (stmt (insert_user name' avatar email) w))"
| display_name: "store_step strict w (snd (stmt (update_display_name name' u) w))"
| oauth: "name_ok (IdDisplayName i) \<Longrightarrow> store_step strict w (snd (upsertOAuthUser i w))"
| delete_account: "store_step strict w (snd (delete_account_tx u w))"
| soft_delete_user: "store_step strict w (snd (stmt (stamp_deleted u) w))"
| soft_delete_rooms: "store_step strict w (snd (stmt (end_owned_rooms u) w))"
| soft_delete_members: "store_step strict w (snd (stmt (kick_memberships u) w))"
| hard_delete: "store_step strict w (snd (stmt (delete_user u) w))"
| restore: "store_step strict w (snd (stmt (restore_user u) w))"
| feedback: "store_step strict w (snd (stmt (insert_feedback u m) w))"
| push_token: "store_step strict w (snd (stmt (upsert_token u tok pl) w))"
| delete_tokens: "store_step strict w (snd (PushStore_DeleteTokens ts w))"
| broadcast: "store_step strict w (snd (stmt (insert_broadcast t bd i' j k) w))"
| set_version: "semver v \<Longrightarrow> store_step strict w (snd (AppConfig_Set KeyMinClientVersion v w))"

inductive interleaved :: "bool \<Rightarrow> world \<Rightarrow> bool" for strict where
  start: "w_db w = init_db now \<Longrightarrow> interleaved strict w"
| step: "interleaved strict w \<Longrightarrow> store_step strict w w' \<Longrightarrow> interleaved strict w'"

text \<open>Calls that keep the invariant and act alike on both tables.\<close>

definition settled :: "(world, go_error, 'a) cmd \<Rightarrow> bool" where
  "settled m \<longleftrightarrow> cmd_sim m \<and> keeps (\<lambda>w. tables_ok (w_db w)) m"

lemma settled_room_calls:
  "settled (Store_CreateRoom u code name)" "settled (Store_UpsertMember r u)" "settled (Store_MarkLeft r u)"
  "settled (Store_SetMuted r u b)" "settled (Store_Kick r u)" "settled (Store_EndRoom r)" "settled (Store_UpdateName r name)"
  "settled (Store_SetDestination r u lat lng label nts)" "settled (Store_UpdateDestinationMeta r label nts)"
  "settled (Store_ClearDestination r)" "settled (Store_UpsertPersonalMarker r u lat lng label)"
  "settled (Store_DeletePersonalMarker r u)" "settled (Store_AddStop r u lat lng label)" "settled (Store_ClearStops r)"
  "settled (Store_RemoveStop r st)" "settled (Store_UpdateStopLabel r st label)" "settled (Store_CreateMessage r u body)"
proof -
  have both: "settled m" if "cmd_sim m" "keeps (\<lambda>w. db_ok (w_db w)) m" "\<And>a. keeps (\<lambda>w. account_tables (w_db w) = a) m"
    for m :: "(world, go_error, 'b) cmd"
    unfolding settled_def
  proof (intro conjI that(1) keepsI)
    fix w :: world assume w: "tables_ok (w_db w)"
    have "account_tables (w_db (snd (m w))) = account_tables (w_db w)" by (rule keepsD [OF that(3)]) simp
    with w keepsD [OF that(2), of w] tables_okD(1) show "tables_ok (w_db (snd (m w)))" by (blast intro: tables_ok_rooms)
  qed
  show "settled (Store_CreateRoom u code name)" "settled (Store_UpsertMember r u)" "settled (Store_MarkLeft r u)"
    "settled (Store_SetMuted r u b)" "settled (Store_Kick r u)" "settled (Store_EndRoom r)" "settled (Store_UpdateName r name)"
    "settled (Store_SetDestination r u lat lng label nts)" "settled (Store_UpdateDestinationMeta r label nts)"
    "settled (Store_ClearDestination r)" "settled (Store_UpsertPersonalMarker r u lat lng label)"
    "settled (Store_DeletePersonalMarker r u)" "settled (Store_AddStop r u lat lng label)" "settled (Store_ClearStops r)"
    "settled (Store_RemoveStop r st)" "settled (Store_UpdateStopLabel r st label)" "settled (Store_CreateMessage r u body)"
    by (rule both; intro sim_room_calls sim_members_calls keeps_intros)+
qed

lemma settled_account_calls:
  "settled (stmt (insert_user name' avatar email))" "settled (stmt (update_display_name name' u))"
  "settled (stmt (stamp_deleted u))" "settled (stmt (end_owned_rooms u))" "settled (stmt (kick_memberships u))"
  "settled (stmt (delete_user u))" "settled (stmt (restore_user u))" "settled (stmt (insert_feedback u m))"
  "settled (stmt (upsert_token u tok pl))" "settled (stmt (insert_broadcast t bd i j k))"
  "semver v \<Longrightarrow> settled (AppConfig_Set KeyMinClientVersion v)"
  unfolding settled_def AppConfig_Set_def
  by (intro conjI sim_rules keeps_stmt; (erule statement_tables_ok delete_user_tables_ok; assumption)?)+

lemma settled_transactions:
  "name_ok (IdDisplayName i) \<Longrightarrow> settled (upsertOAuthUser i)" "settled (delete_account_tx u)" "settled (PushStore_DeleteTokens ts)"
proof -
  have both: "settled m" if "cmd_sim m" "keeps (over tables_ok ()) m" for m :: "(world, go_error, 'b) cmd"
    using that by (auto simp: settled_def keeps_def over_def)
  show "name_ok (IdDisplayName i) \<Longrightarrow> settled (upsertOAuthUser i)" "settled (PushStore_DeleteTokens ts)"
    by (rule both; intro sim_account_calls tables.over_upsertOAuthUser tables.over_DeleteTokens; assumption)+
  show "settled (delete_account_tx u)"
    by (rule both [OF sim_account_calls(1)], unfold delete_account_tx_def)
      (intro over_tx keeps_andThen tables.over_deletions)
qed

definition race_ok :: "bool \<Rightarrow> world \<Rightarrow> bool" where
  "race_ok strict w \<longleftrightarrow> (\<exists>d. tables_ok d \<and> more_owners (w_db w) d) \<and> (strict \<longrightarrow> tables_ok (w_db w))"

lemma race_ok_settled:
  assumes "settled m" "race_ok strict w"
  shows "race_ok strict (snd (m w))"
proof -
  obtain d where d: "tables_ok d" "more_owners (w_db w) d" using assms(2) by (auto simp: race_ok_def)
  have "world_sim w (w\<lparr>w_db := d\<rparr>)" using d by (simp add: world_sim_def)
  then have "world_sim (snd (m w)) (snd (m (w\<lparr>w_db := d\<rparr>)))" using assms(1) by (simp add: settled_def cmd_sim_def)
  then have "more_owners (w_db (snd (m w))) (w_db (snd (m (w\<lparr>w_db := d\<rparr>))))" by (simp add: world_sim_def)
  moreover have "tables_ok (w_db (snd (m (w\<lparr>w_db := d\<rparr>))))" using assms(1) d by (simp add: settled_def keeps_def)
  moreover have "strict \<longrightarrow> tables_ok (w_db (snd (m w)))" using assms by (simp add: settled_def keeps_def race_ok_def)
  ultimately show ?thesis unfolding race_ok_def by blast
qed

lemma race_ok_transfer:
  assumes "race_ok strict w" "old \<noteq> new"
    and own: "strict \<Longrightarrow> \<forall>row \<in> set (t_rooms (w_db w)). r_id row = r \<longrightarrow> r_owner_id row = old"
  shows "race_ok strict (snd (Store_TransferOwnership r old new w))"
proof (cases "Store_TransferOwnership r old new w")
  case (Pair res w')
  obtain d where d: "tables_ok d" "more_owners (w_db w) d" using assms(1) by (auto simp: race_ok_def)
  have strict: "tables_ok (w_db w')" if strict
  proof -
    have ok: "tables_ok (w_db w)" using assms(1) that by (simp add: race_ok_def)
    have "db_ok (w_db w')" using TransferOwnership_db_ok [OF tables_okD(1)[OF ok] _ assms(2), of r] own [OF that] Pair by simp
    moreover have "account_tables (w_db w') = account_tables (w_db w)"
      using keepsD [OF keeps_tx_accounts(2), of w "account_tables (w_db w)" r old new] Pair by simp
    ultimately show ?thesis using ok by (blast intro: tables_ok_rooms)
  qed
  have "\<exists>e. tables_ok e \<and> more_owners (w_db w') e"
  proof (cases res)
    case (Inl e)
    with Pair have "w_db w' = w_db w" by (simp add: Store_TransferOwnership_def tx_atomic)
    with d show ?thesis by auto
  next
    case (Inr x)
    with Pair have "Store_TransferOwnership r old new w = (Inr (), w')" by simp
    then show ?thesis
      by (rule Store_TransferOwnership_Inr) (use transfer_sim [OF d(2,1) assms(2)] in auto)
  qed
  with strict Pair show ?thesis by (simp add: race_ok_def)
qed

lemma race_ok_step: "store_step strict w w' \<Longrightarrow> race_ok strict w \<Longrightarrow> race_ok strict w'"
proof (induction rule: store_step.induct)
  case (read w' w)
  then show ?case by (simp add: race_ok_def)
next
  case (transfer old new w r)
  then show ?case by (intro race_ok_transfer) auto
qed (rule race_ok_settled, (rule settled_room_calls settled_account_calls settled_transactions; assumption?), assumption)+

lemma race_ok_interleaved: "interleaved strict w \<Longrightarrow> race_ok strict w"
proof (induction rule: interleaved.induct)
  case (start w now)
  have "more_owners (init_db now) (init_db now)" by (simp add: more_owners_def init_db_def)
  with start show ?case using tables_ok_init by (auto simp: race_ok_def)
qed (rule race_ok_step)

lemma more_owners_facts:
  assumes "tables_ok d" "more_owners d0 d"
  shows "keys_ok d0" "codes_ok d0" "refs_ok d0" "members_ok d0"
    "room \<in> set (t_rooms d0) \<Longrightarrow> \<exists>m \<in> set (t_room_members d0). is_membership (r_id room) (r_owner_id room) m \<and> rm_role m = RoleOwner"
proof -
  obtain ms where d: "d = d0\<lparr>t_room_members := ms\<rparr>" and ms: "list_all2 role_sim (t_room_members d0) ms"
    using assms(2) by (rule more_ownersE)
  note ok = db_okD [OF tables_okD(1)[OF assms(1)]]
  have keys: "map member_key ms = map member_key (t_room_members d0)"
    using ms by (induction rule: list_all2_induct) (auto simp: role_sim_keys)
  show "keys_ok d0" using ok(1) by (simp add: keys_ok_def d keys)
  show "codes_ok d0" using ok(2) by (simp add: d)
  have both: "\<exists>m \<in> set (t_room_members d0). role_sim m m'" if "m' \<in> set ms" for m'
    using ms that by (induction rule: list_all2_induct) auto
  have other: "\<exists>m' \<in> set ms. role_sim m m'" if "m \<in> set (t_room_members d0)" for m
    using ms that by (induction rule: list_all2_induct) auto
  have "room_exists d0 (rm_room_id m) \<and> user_exists d0 (rm_user_id m)" if m: "m \<in> set (t_room_members d0)" for m
  proof -
    obtain m' where "m' \<in> set ms" "role_sim m m'" using other [OF m] by blast
    with ok(3) role_sim_keys(1,2)[of m m'] show ?thesis by (auto simp: refs_ok_def d)
  qed
  with ok(3) show "refs_ok d0" by (simp add: refs_ok_def d)
  have "(rm_role m = RoleOwner \<or> rm_role m = RoleMember) \<and> (rm_kicked m \<longrightarrow> rm_left_at m \<noteq> None)"
    if m: "m \<in> set (t_room_members d0)" for m
  proof -
    obtain m' where m': "m' \<in> set ms" "role_sim m m'" using other [OF m] by blast
    then have "rm_kicked m' \<longrightarrow> rm_left_at m' \<noteq> None" using ok(5) by (simp add: members_ok_def d)
    with role_sim_keys(3,4)[OF m'(2)] role_simD(2)[OF m'(2)] show ?thesis by simp
  qed
  then show "members_ok d0" by (simp add: members_ok_def)
  show "\<exists>m \<in> set (t_room_members d0). is_membership (r_id room) (r_owner_id room) m \<and> rm_role m = RoleOwner"
    if "room \<in> set (t_rooms d0)"
  proof -
    have "(r_id room, r_owner_id room) \<in> member_key ` set (filter (\<lambda>m. rm_role m = RoleOwner) ms)"
      using ok(4) that unfolding owners_ok_def d by auto
    then obtain m' where "m' \<in> set ms" "is_membership (r_id room) (r_owner_id room) m'" "rm_role m' = RoleOwner"
      by (auto simp: is_membership_def)
    with both role_sim_conditions(1) role_simD(1) show ?thesis by metis
  qed
qed

section \<open>Overlapping transfers\<close>

definition race_start :: world where
  "race_start = \<lparr>w_db = init_db 0, w_sched = (\<lambda>i. \<lparr>tk_fault = None, tk_now = int i, tk_uuid = word_of_nat (Suc i)\<rparr>),
     w_pos = 0, w_aborted = False\<rparr>"

text \<open>Three guests, a room of the first one that the others have joined.\<close>

definition race_open :: world where
  "race_open = (let guest = (\<lambda>name w. snd (stmt (insert_user name None None) w));
     w1 = guest ''c'' (guest ''b'' (guest ''a'' race_start));
     w2 = snd (Store_CreateRoom 1 ''123456'' None w1)
   in snd (Store_UpsertMember 5 3 (snd (Store_UpsertMember 5 2 w2))))"

text \<open>The owner hands the room to both; each request passed its checks before the other's transfer.\<close>

definition race_end :: world where
  "race_end = snd (Store_TransferOwnership 5 1 3 (snd (Store_TransferOwnership 5 1 2 race_open)))"

lemma race_open_checks: "is_owner (w_db race_open) 5 1 \<and> is_member (w_db race_open) 5 2 \<and> is_member (w_db race_open) 5 3"
  by code_simp

lemma race_end_owners: "is_owner (w_db race_end) 5 2 \<and> is_owner (w_db race_end) 5 3 \<and> map r_owner_id (t_rooms (w_db race_end)) = [3]"
  by code_simp

lemma race_interleaved: "interleaved False race_end"
  unfolding race_end_def race_open_def Let_def
  by (intro interleaved.step [OF _ store_step.transfer] interleaved.step [OF _ store_step.upsert_member]
      interleaved.step [OF _ store_step.create_room] interleaved.step [OF _ store_step.guest] interleaved.start [where now = 0])
    (simp_all add: race_start_def)

text \<open>
  C5: Requests that run concurrently, their store calls interleaved in any order: the
  declared constraints hold all the same, and up to owner roles that overlapping
  transfers left behind the tables are tables that satisfy the whole invariant; the
  user in the owner column always holds the owner role.  When every transfer is made
  by the user who owns the room at that moment, the whole invariant holds.
\<close>
theorem interleaved_requests:
  assumes "interleaved strict w"
  shows "keys_ok (w_db w) \<and> codes_ok (w_db w) \<and> refs_ok (w_db w) \<and> members_ok (w_db w) \<and>
    (\<exists>d. tables_ok d \<and> more_owners (w_db w) d) \<and>
    (\<forall>room \<in> set (t_rooms (w_db w)). \<exists>m \<in> set (t_room_members (w_db w)).
       is_membership (r_id room) (r_owner_id room) m \<and> rm_role m = RoleOwner) \<and>
    (strict \<longrightarrow> tables_ok (w_db w))"
proof -
  obtain d where d: "tables_ok d" "more_owners (w_db w) d" "strict \<longrightarrow> tables_ok (w_db w)"
    using race_ok_interleaved [OF assms] by (auto simp: race_ok_def)
  with more_owners_facts [OF d(1,2)] show ?thesis by blast
qed

theorem interleaved_requests_witness:
  "is_owner (w_db race_end) 5 2 \<and> is_owner (w_db race_end) 5 3 \<and> keys_ok (w_db race_end) \<and> codes_ok (w_db race_end) \<and>
   (\<exists>d. tables_ok d \<and> more_owners (w_db race_end) d)"
  using interleaved_requests [OF race_interleaved] race_end_owners by blast

end
