(* ===== verification/Streams.thy ===== *)
theory Streams
  imports System
begin

text \<open>
  The frames of one socket over any run of the server: what was written stays
  written, what is queued is written in the order it was queued, without loss or
  repetition, until the pump stops; a closed client stays closed for the reason
  given first.
\<close>

section \<open>A client over time\<close>

definition stream :: "client \<Rightarrow> frame list" where
  "stream c = cl_written c @ cl_send c"

definition later :: "client \<Rightarrow> client \<Rightarrow> bool" where
  "later x y \<longleftrightarrow> cl_user y = cl_user x \<and> cl_room y = cl_room x \<and> prefix (cl_written x) (cl_written y) \<and>
     (cl_closed x \<longrightarrow> cl_closed y \<and> cl_reason y = cl_reason x) \<and>
     (cl_pump x = Stopped \<longrightarrow> cl_pump y = Stopped \<and> cl_written y = cl_written x \<and> cl_shutdown y = cl_shutdown x) \<and>
     (if cl_pump y = Stopped then prefix (cl_written y) (stream x) \<or> prefix (stream x) (cl_written y)
      else prefix (stream x) (stream y))"

lemma later_refl [simp]: "later x x"
  by (simp add: later_def stream_def)

lemma later_trans:
  assumes "later x y" "later y z"
  shows "later x z"
proof (cases "cl_pump y = Stopped")
  case True
  with assms show ?thesis by (auto simp: later_def)
next
  case False
  then have y: "prefix (stream x) (stream y)" using assms(1) by (simp add: later_def)
  have "if cl_pump z = Stopped then prefix (cl_written z) (stream x) \<or> prefix (stream x) (cl_written z)
      else prefix (stream x) (stream z)"
  proof (cases "cl_pump z = Stopped")
    case True
    with assms(2) have "prefix (cl_written z) (stream y) \<or> prefix (stream y) (cl_written z)" by (simp add: later_def)
    with y True show ?thesis using prefix_same_cases prefix_order.trans by auto
  next
    case False
    with assms(2) y show ?thesis by (auto simp: later_def intro: prefix_order.trans)
  qed
  with assms False show ?thesis by (auto simp: later_def intro: prefix_order.trans)
qed

lemma later_close [simp]: "later x (close reason x)"
  by (auto simp: later_def stream_def close_def)

lemma later_enqueue [simp]: "later x (enqueue b x)"
  by (auto simp: later_def stream_def enqueue_def close_def)

text \<open>A turn of the pump only moves the head of the queue to the written frames, or stops.\<close>

lemma later_pump:
  assumes "writePump_step ev x = Some y"
  shows "later x y"
  using assms by (cases ev) (auto simp: later_def stream_def client_write_def shutdown_def close_def split: if_splits list.splits)

section \<open>The hub over time\<close>

definition hub_later :: "hub \<Rightarrow> hub \<Rightarrow> bool" where
  "hub_later h h' \<longleftrightarrow> h_next h \<le> h_next h' \<and> (\<forall>c < h_next h. later (h_heap h c) (h_heap h' c))"

lemma hub_later_refl [simp]: "hub_later h h"
  by (simp add: hub_later_def)

lemma hub_later_trans: "hub_later h h1 \<Longrightarrow> hub_later h1 h2 \<Longrightarrow> hub_later h h2"
  unfolding hub_later_def by (meson later_trans order.strict_trans2 order_trans)

lemma hub_later_same: "h_next h' = h_next h \<Longrightarrow> h_heap h' = h_heap h \<Longrightarrow> hub_later h h'"
  by (simp add: hub_later_def)

lemma hub_later_on_client: "later (h_heap h c) (f (h_heap h c)) \<Longrightarrow> hub_later h (on_client c f h)"
  by (simp add: hub_later_def on_client_def)

lemma hub_later_to_all: "(\<And>x. later x (f x)) \<Longrightarrow> hub_later h (to_all f cs h)"
proof (induction cs arbitrary: h)
  case (Cons c cs)
  have "to_all f (c # cs) h = to_all f cs (on_client c f h)" by (simp add: to_all_def)
  with Cons hub_later_on_client [of h c f] show ?case by (metis hub_later_trans)
qed (simp add: to_all_def)

lemma hub_later_sends [simp]: "hub_later h (broadcast r t p ex h)" "hub_later h (sendTo c t p h)"
  by (auto simp: broadcast_def sendTo_def intro: hub_later_to_all hub_later_on_client split: option.splits)

lemma hub_later_then:
  "hub_later h h1 \<Longrightarrow> hub_later h (broadcast r t p ex h1)" "hub_later h h1 \<Longrightarrow> hub_later h (sendTo c t p h1)"
  "hub_later h h1 \<Longrightarrow> hub_later h (on_client c (close reason) h1)" "hub_later h h1 \<Longrightarrow> hub_later h (to_all (close reason) cs h1)"
  "hub_later h h1 \<Longrightarrow> hub_later h (to_all (enqueue b) cs h1)"
  using hub_later_sends hub_later_to_all hub_later_on_client later_close later_enqueue hub_later_trans by metis+

lemma hub_later_state [simp]:
  "hub_later h (snd (roomFor r h))" "hub_later h (recordLocation r ev h)" "hub_later h (snd (SetEmergency r u a h))"
  "hub_later h (snd (leave r c h))"
  by (rule hub_later_same; simp add: roomFor_def recordLocation_def SetEmergency_def leave_def Let_def split: option.splits)+

lemma hub_later_call: "bc_call hub_broadcaster f \<Longrightarrow> hub_later h (f h)"
  by (erule bc_call.cases) (auto simp: hub_broadcaster_def hub_broadcasts KickConnection_def BroadcastRoomEnded_def
      DisconnectUser_def close_user_def Let_def hub_later_then split: option.splits)

lemma hub_later_readPump: "hub_later h (readPump_frame ts c f h)"
proof (cases f)
  case (InFrame t loc act)
  have "hub_later h h1" if "SetEmergency r u a h = (b, h1)" for r u a b h1
    using hub_later_state(3)[of h r u a] that by simp
  with InFrame show ?thesis
    by (auto simp: Let_def hub_broadcasts hub_later_then split: option.splits prod.splits)
qed simp

lemma hub_later_close: "hub_later h (ServeHTTP_close c h)"
proof -
  let ?h1 = "on_client c (close ''read loop ended'') h"
  obtain a b h2 where l: "leave (cl_room (h_heap h c)) c ?h1 = ((a, b), h2)" by (metis surj_pair)
  have "hub_later h ?h1" by (rule hub_later_on_client) simp
  moreover have "hub_later ?h1 h2" using hub_later_state(4)[of ?h1 "cl_room (h_heap h c)" c] l by simp
  ultimately have "hub_later h h2" by (rule hub_later_trans)
  with l show ?thesis by (auto simp: ServeHTTP_close_def Let_def hub_broadcasts hub_later_then)
qed

lemma hub_later_start: "hub_later (w_rt w) (w_rt (snd (ws_start roomID userID w)))"
proof -
  obtain c h1 where al: "alloc_client userID roomID (w_rt w) = (c, h1)" by force
  obtain b h2 where j: "join roomID c h1 = (b, h2)" by force
  obtain snap w1 where sn: "Hub_snapshot roomID userID (w\<lparr>w_rt := h2\<rparr>) = (snap, w1)" by force
  have 1: "hub_later (w_rt w) h1" using al by (auto simp: alloc_client_def hub_later_def)
  have "hub_later h1 h2" using j
    by (auto simp: join_def hub_later_def roomFor_def Let_def on_client_def split: option.splits prod.splits)
  then have 2: "hub_later (w_rt w) h2" using 1 hub_later_trans by blast
  have "keeps (\<lambda>v. hub_later (w_rt w) (w_rt v)) (Hub_snapshot roomID userID)"
    unfolding Hub_snapshot_def store_methods
    by (intro keeps_intros keeps_effect) (auto intro: hub_later_trans)
  from keepsD [OF this, of "w\<lparr>w_rt := h2\<rparr>"] 2 sn have "hub_later (w_rt w) (w_rt w1)" by simp
  then show ?thesis using al j sn by (auto simp: ws_start_def Let_def hub_broadcasts hub_later_then split: sum.splits)
qed

lemma hub_later_open: "hub_later (w_rt w) (w_rt (snd (ServeHTTP_open L s now room token accepted w)))"
proof -
  obtain a w1 where a: "ws_admit L s now room token w = (a, w1)" by force
  show ?thesis
  proof (cases a)
    case (Inl answer)
    with a ws_admit_InlD [of L s now room token w answer w1] show ?thesis by (auto simp: ServeHTTP_open_def)
  next
    case (Inr p)
    then obtain roomID user where p: "a = Inr (roomID, user)" by (cases p) auto
    have "w_rt w1 = w_rt w" using ws_admit_InrD [OF a [unfolded p]] by blast
    with a p hub_later_start [of w1 roomID "UserID user"] show ?thesis
      by (auto simp: ServeHTTP_open_def split: prod.splits)
  qed
qed

interpretation streams: server_steps "\<lambda>_. True" "hub_later h"
proof unfold_locales
  have calls: "calls_keep hub_service (hub_later h)"
    using hub_later_call hub_later_trans by (auto simp: calls_keep_def hub_service_def)
  show "hub_later h (w_rt (snd (serve_rooms P sv e rq u w)))" if "hub_later h (w_rt w)" for P sv e rq u w
    by (rule serve_rooms_rt [OF calls that])
  show "hub_later h (on_client c (\<lambda>_. c') h')" if "hub_later h h'" "writePump_step ev (h_heap h' c) = Some c'" for h' ev c c'
    using that by (blast intro: hub_later_trans hub_later_on_client later_pump)
qed (auto intro: hub_later_trans hub_later_readPump hub_later_close hub_later_open)

section \<open>Frames in order\<close>

definition demo_stream :: "hub rworld" where
  "demo_stream = \<lparr>w_db = init_db 0, w_sched = (\<lambda>i. \<lparr>tk_fault = None, tk_now = 0, tk_uuid = 1\<rparr>), w_pos = 0, w_aborted = False,
     w_rt = sendTo 0 MsgRoomEnded NoPayload (sendTo 0 MsgPong NoPayload (snd (alloc_client 1 10 NewHub))),
     w_rand = (\<lambda>i. Inr i), w_rand_pos = 0\<rparr>"

lemma demo_stream_client:
  "cl_send (h_heap (w_rt demo_stream) 0) = [pack MsgPong NoPayload, pack MsgRoomEnded NoPayload]"
  "cl_written (h_heap (w_rt demo_stream) 0) = []" "cl_pump (h_heap (w_rt demo_stream) 0) = Running" "0 < h_next (w_rt demo_stream)"
  by (simp_all add: demo_stream_def sendTo_def on_client_def alloc_client_def NewHub_def newClient_def enqueue_def sendBuffer_def)

text \<open>
  C11: Over any sequence of requests, frames, pump turns and teardowns, a socket loses,
  repeats and reorders nothing: what was written stays written; while its pump runs,
  the frames written and queued so far are an initial part of those written and queued
  later; when the pump has stopped, what it had written agrees with what was queued;
  it writes nothing afterwards, and a closed client stays closed for its first reason.
\<close>
theorem frames_in_order:
  assumes "(system_step P sv E)\<^sup>*\<^sup>* w w'" "c < h_next (w_rt w)"
  shows "let x = h_heap (w_rt w) c; y = h_heap (w_rt w') c in
    prefix (cl_written x) (cl_written y) \<and>
    (if cl_pump y = Stopped
     then prefix (cl_written y) (cl_written x @ cl_send x) \<or> prefix (cl_written x @ cl_send x) (cl_written y)
     else prefix (cl_written x @ cl_send x) (cl_written y @ cl_send y)) \<and>
    (cl_pump x = Stopped \<longrightarrow> cl_pump y = Stopped \<and> cl_written y = cl_written x \<and> cl_shutdown y = cl_shutdown x) \<and>
    (cl_closed x \<longrightarrow> cl_closed y \<and> cl_reason y = cl_reason x)"
proof -
  have "hub_later (w_rt w) (w_rt w')" using streams.steps_both [OF assms(1), of "w_rt w"] by simp
  with assms(2) have "later (h_heap (w_rt w) c) (h_heap (w_rt w') c)" by (simp add: hub_later_def)
  then show ?thesis unfolding later_def stream_def Let_def by blast
qed

theorem frames_in_order_witness:
  "\<exists>w'. (\<forall>P sv E. system_step P sv E demo_stream w') \<and> cl_written (h_heap (w_rt w') 0) = [pack MsgPong NoPayload] \<and>
     prefix [pack MsgPong NoPayload, pack MsgRoomEnded NoPayload] (cl_written (h_heap (w_rt w') 0) @ cl_send (h_heap (w_rt w') 0))"
proof -
  note x = demo_stream_client
  obtain y where y: "writePump_step (SendReady True) (h_heap (w_rt demo_stream) 0) = Some y"
      "cl_written y = [pack MsgPong NoPayload]" "cl_pump y = Running"
    using x by (simp add: client_write_def)
  let ?w' = "on_hub (on_client 0 (\<lambda>_. y)) demo_stream"
  have s: "system_step P sv E demo_stream ?w'" for P sv E by (rule system_step.pump [OF y(1)])
  have y': "h_heap (w_rt ?w') 0 = y" by (simp add: on_hub_def on_client_def)
  have "prefix (cl_written (h_heap (w_rt demo_stream) 0) @ cl_send (h_heap (w_rt demo_stream) 0)) (cl_written y @ cl_send y)"
    using frames_in_order [where w = demo_stream and w' = ?w' and c = 0] r_into_rtranclp [of "system_step _ _ _", OF s] x y(3)
    by (simp add: Let_def y')
  with s x y y' show ?thesis by (intro exI [of _ ?w']) simp
qed

end
