(* ===== verification/OpenSockets.thy ===== *)
theory OpenSockets
  imports Seats
begin

text \<open>
  The agreement of sockets and memberships over whole requests, and the account
  deletions that break it.
\<close>

section \<open>The room service\<close>

definition seat_inv :: "hub rworld \<Rightarrow> bool" where
  "seat_inv w \<longleftrightarrow> system_ok w \<and> sockets_seated w"

lemma seat_invD: "seat_inv w \<Longrightarrow> hub_ok (w_rt w)" "seat_inv w \<Longrightarrow> system_ok w" "seat_inv w \<Longrightarrow> sockets_seated w"
  by (simp_all add: seat_inv_def system_ok_def)

lemma seat_inv_step:
  assumes "seat_inv w" "system_ok w'" and "\<And>r u. seated (w_db w) r u \<Longrightarrow> \<not> gone r u \<Longrightarrow> seated (w_db w') r u"
    and "\<And>r u. open_socket r u (w_rt w') \<Longrightarrow> open_socket r u (w_rt w) \<and> \<not> gone r u"
  shows "seat_inv w'"
  using assms by (auto simp: seat_inv_def sockets_seated_def)

definition fewer_than :: "hub \<Rightarrow> hub \<Rightarrow> bool" where
  "fewer_than h h' \<longleftrightarrow> hub_ok h' \<and> fewer h h'"

lemma calls_keep_fewer: "calls_keep hub_service (fewer_than h)"
  using hub_bc.call_inv fewer_call fewer_trans by (auto simp: calls_keep_def fewer_than_def)

lemma keeps_seat_inv:
  fixes m :: "(hub rworld, 'e, 'a) cmd"
  assumes "keeps system_ok m" "\<And>S. keeps (\<lambda>w. holds S (w_db w)) m" "\<And>h. keeps (\<lambda>w. fewer_than h (w_rt w)) m"
  shows "keeps seat_inv m"
proof (rule keepsI)
  fix w assume w: "seat_inv w"
  let ?S = "{(r, u). open_socket r u (w_rt w)}"
  have "holds ?S (w_db w)" using seat_invD(3)[OF w] by (auto simp: holds_def sockets_seated_def)
  then have h: "holds ?S (w_db (snd (m w)))" by (rule keepsD [OF assms(2)])
  have "fewer_than (w_rt w) (w_rt w)" using seat_invD(1)[OF w] by (simp add: fewer_than_def)
  then have "fewer_than (w_rt w) (w_rt (snd (m w)))" by (rule keepsD [OF assms(3)])
  then have "open_socket r u (w_rt w)" if "open_socket r u (w_rt (snd (m w)))" for r u
    using that fewer_open by (auto simp: fewer_than_def)
  with h have "sockets_seated (snd (m w))" by (auto simp: holds_def sockets_seated_def)
  with keepsD [OF assms(1) seat_invD(2)[OF w]] show "seat_inv (snd (m w))" by (simp add: seat_inv_def)
qed

lemma keeps_service_seats [keeps_intros]:
  "keeps seat_inv (Service_Create u name)"
  "keeps seat_inv (Service_Join tab hub_service u code)"
  "keeps seat_inv (Service_Detail hub_service r u)"
  "keeps seat_inv (Service_ListActiveForUser hub_service u)"
  "keeps seat_inv (Service_SetDestination hub_service r u lat lng name' nts)"
  "keeps seat_inv (Service_UpdateDestinationMeta hub_service r u name' nts)"
  "keeps seat_inv (Service_ClearDestination hub_service r u)"
  "keeps seat_inv (Service_SetPersonalMarker r u lat lng label)"
  "keeps seat_inv (Service_ClearPersonalMarker r u)"
  "keeps seat_inv (Service_AddStop hub_service r u lat lng label)"
  "keeps seat_inv (Service_UpdateStopLabel hub_service r u st label)"
  "keeps seat_inv (Service_RemoveStop hub_service r u st)"
  "keeps seat_inv (Service_ClearStops hub_service r u)"
  "keeps seat_inv (Service_Rename hub_service r u rname)"
  "keeps seat_inv (Service_Mute hub_service r u t muted)"
  "keeps seat_inv (Service_PostMessage hub_service r u body)"
  "keeps seat_inv (Service_ListMessages r u before limit)"
  "keeps seat_inv (Service_TransferOwnership hub_service r u t)"
  by (rule keeps_seat_inv; rule keeps_service_system keeps_service_holds keeps_service_rt [OF calls_keep_fewer])+

lemma keeps_guards_seats [keeps_intros]: "keeps seat_inv (AssertMember r u)" "keeps seat_inv (requireOwner r u)"
proof -
  have read: "keeps seat_inv (Store_ActiveMembership r u)"
    unfolding Store_ActiveMembership_def
    by (rule keeps_map_err, rule keepsI) (auto simp: seat_inv_def system_ok_def sockets_seated_def stmt_def sql_row_def
        split: option.splits sum.splits)
  then show "keeps seat_inv (AssertMember r u)" "keeps seat_inv (requireOwner r u)"
    unfolding AssertMember_def requireOwner_def by (intro keeps_intros; assumption)+
qed

lemma keeps_closing:
  fixes st :: "(hub, unit) svc"
  assumes sys: "keeps system_ok (andThen st (\<lambda>_. notify hub_service f))"
    and failed: "\<And>w e w'. st w = (Inl e, w') \<Longrightarrow> same_state w w'"
    and changed: "\<And>w v. st w = (Inr (), v) \<Longrightarrow> w_rt v = w_rt w \<and> (\<forall>r u. seated (w_db w) r u \<longrightarrow> \<not> gone r u \<longrightarrow> seated (w_db v) r u)"
    and closes: "\<And>h r u. hub_ok h \<Longrightarrow> open_socket r u (f hub_broadcaster h) \<Longrightarrow> open_socket r u h \<and> \<not> gone r u"
  shows "keeps seat_inv (andThen st (\<lambda>_. notify hub_service f))"
proof (rule keepsI)
  fix w assume w: "seat_inv w"
  obtain res w' where run: "andThen st (\<lambda>_. notify hub_service f) w = (res, w')" by force
  have sys': "system_ok w'" using keepsD [OF sys seat_invD(2)[OF w]] run by simp
  from run show "seat_inv (snd (andThen st (\<lambda>_. notify hub_service f) w))"
  proof (cases rule: store_notify_unit_cases)
    case (failed e)
    with assms(2) have "same_state w w'" by blast
    with w sys' run show ?thesis by (simp add: seat_inv_def sockets_seated_def)
  next
    case (changed x v)
    with assms(3)[of w v] have v: "w_rt v = w_rt w" "\<And>r u. seated (w_db w) r u \<Longrightarrow> \<not> gone r u \<Longrightarrow> seated (w_db w') r u"
      by auto
    have rt: "w_rt w' = f hub_broadcaster (w_rt w)" using changed(3) v(1) by (simp add: told_def)
    have "seat_inv w'"
      by (rule seat_inv_step [OF w sys', of gone]) (use v(2) closes [OF seat_invD(1)[OF w]] rt in auto)
    then show ?thesis using run by simp
  qed
qed

lemma notify_notify: "andThen (notify s f) (\<lambda>_. notify s g) = notify s (\<lambda>rt h. g rt (f rt h))"
proof
  fix w show "andThen (notify s f) (\<lambda>_. notify s g) w = notify s (\<lambda>rt h. g rt (f rt h)) w"
    by (cases "svc_rt s") (simp_all add: andThen_notify notify_run told_def)
qed

lemma seated_leave:
  assumes "seated d r u" "\<not> (r = r0 \<and> u = t)"
  shows "seated (d\<lparr>t_room_members := update_where (joined r0 t) f (t_room_members d)\<rparr>) r u"
  using assms by (intro seated_members) (auto simp: active_member_def joined_def is_membership_def)

lemma keeps_closing_rt [keeps_intros]:
  "keeps (\<lambda>w :: 'h rworld. I (w_rt w)) (Store_Kick r t)" "keeps (\<lambda>w :: 'h rworld. I (w_rt w)) (Store_EndRoom r)"
  unfolding store_methods by (intro keeps_intros)+

lemma keeps_Kick_seats [keeps_intros]: "keeps seat_inv (Service_Kick hub_service r a t)"
proof -
  have "keeps seat_inv (andThen (Store_Kick r t) (\<lambda>_. notify hub_service (\<lambda>rt. bc_KickConnection rt r t a)))"
  proof (rule keeps_closing [where gone = "\<lambda>r' u. r' = r \<and> u = t"])
    show "keeps system_ok (andThen (Store_Kick r t) (\<lambda>_. notify hub_service (\<lambda>rt. bc_KickConnection rt r t a)))"
      by (rule keeps_system; intro keeps_intros keeps_db_accounts keeps_call_rt [OF hub_calls_keep])
    show "same_state w w'" if "Store_Kick r t w = (Inl e, w')" for w :: "hub rworld" and e w'
      using that unfolding Store_Kick_def by (cases rule: members_stmt_cases) auto
    show "w_rt v = w_rt w \<and> (\<forall>r' u. seated (w_db w) r' u \<longrightarrow> \<not> (r' = r \<and> u = t) \<longrightarrow> seated (w_db v) r' u)"
      if "Store_Kick r t w = (Inr (), v)" for w v :: "hub rworld"
      using that seated_leave unfolding Store_Kick_def by (cases rule: members_stmt_cases) auto
    show "open_socket r' u h \<and> \<not> (r' = r \<and> u = t)"
      if "hub_ok h" "open_socket r' u (bc_KickConnection hub_broadcaster r t a h)" for h r' u
      using that hub_bc.kick_closes hub_bc.call_open bc_call.kick by metis
  qed
  then show ?thesis unfolding Service_Kick_def by (intro keeps_andThen [OF keeps_guards_seats(2)] keeps_if keeps_fail)
qed

lemma keeps_End_seats [keeps_intros]: "keeps seat_inv (Service_End hub_service r a)"
proof -
  have "keeps seat_inv (andThen (Store_EndRoom r) (\<lambda>_. notify hub_service (\<lambda>rt. bc_RoomEnded rt r)))"
  proof (rule keeps_closing [where gone = "\<lambda>r' u. r' = r"])
    show "keeps system_ok (andThen (Store_EndRoom r) (\<lambda>_. notify hub_service (\<lambda>rt. bc_RoomEnded rt r)))"
      by (rule keeps_system; intro keeps_intros keeps_db_accounts keeps_call_rt [OF hub_calls_keep])
    show "same_state w w'" if "Store_EndRoom r w = (Inl e, w')" for w :: "hub rworld" and e w'
      using that unfolding Store_EndRoom_def by (cases rule: rooms_stmt_cases) auto
    show "w_rt v = w_rt w \<and> (\<forall>r' u. seated (w_db w) r' u \<longrightarrow> \<not> r' = r \<longrightarrow> seated (w_db v) r' u)"
      if "Store_EndRoom r w = (Inr (), v)" for w v :: "hub rworld"
      using that unfolding Store_EndRoom_def by (cases rule: rooms_stmt_cases) (auto intro: seated_rooms)
    show "open_socket r' u h \<and> \<not> r' = r"
      if "hub_ok h" "open_socket r' u (bc_RoomEnded hub_broadcaster r h)" for h r' u
      using that hub_bc.ended_closes hub_bc.call_open bc_call.ended by metis
  qed
  then show ?thesis unfolding Service_End_def by (intro keeps_andThen [OF keeps_guards_seats(2)])
qed

lemma MarkLeft_cases:
  fixes w :: "'h rworld"
  assumes "Store_MarkLeft r u w = (res, v)"
  obtains e where "res = Inl e" "same_state w v"
  | now where "res = Inr ()" "w_rt v = w_rt w"
      "w_db v = (w_db w)\<lparr>t_room_members := update_where (joined r u) (\<lambda>m. m\<lparr>rm_left_at := Some now\<rparr>) (t_room_members (w_db w))\<rparr>"
  using assms unfolding Store_MarkLeft_def
  by (auto simp: andThen_def onErr_def ok_def fail_def stmt_def update_members_def split: option.splits)

lemma keeps_Leave_seats [keeps_intros]: "keeps seat_inv (Service_Leave hub_service r u)"
  unfolding Service_Leave_def notify_notify
proof (rule keeps_closing [where gone = "\<lambda>r' v. r' = r \<and> v = u"])
  show "keeps system_ok (andThen (Store_MarkLeft r u)
      (\<lambda>_. notify hub_service (\<lambda>rt h. bc_DisconnectUser rt r u (bc_MemberLeft rt r u h))))"
    using keeps_service_system(15)[of r u] unfolding Service_Leave_def notify_notify .
  show "same_state w w'" if "Store_MarkLeft r u w = (Inl e, w')" for w :: "hub rworld" and e w'
    using that by (auto elim: MarkLeft_cases)
  show "w_rt v = w_rt w \<and> (\<forall>r' x. seated (w_db w) r' x \<longrightarrow> \<not> (r' = r \<and> x = u) \<longrightarrow> seated (w_db v) r' x)"
    if "Store_MarkLeft r u w = (Inr (), v)" for w v :: "hub rworld"
    using that seated_leave by (auto elim!: MarkLeft_cases)
  show "open_socket r' x h \<and> \<not> (r' = r \<and> x = u)"
    if h: "hub_ok h" and o: "open_socket r' x (bc_DisconnectUser hub_broadcaster r u (bc_MemberLeft hub_broadcaster r u h))" for h r' x
  proof -
    have 1: "hub_ok (bc_MemberLeft hub_broadcaster r u h)" by (rule hub_bc.call_inv [OF bc_call.left h])
    have "open_socket r' x (bc_MemberLeft hub_broadcaster r u h)" by (rule hub_bc.call_open [OF bc_call.disconnect 1 o])
    then have "open_socket r' x h" by (rule hub_bc.call_open [OF bc_call.left h])
    with o hub_bc.disconnect_closes [OF 1] show ?thesis by blast
  qed
qed

lemma serve_rooms_seats: "seat_inv w \<Longrightarrow> seat_inv (snd (serve_rooms P sv e rq u w))"
  by (cases e; simp only: serve_rooms.simps h_voiceToken_def h_listActive_def h_create_def h_join_def h_get_def h_leave_def
      h_rename_def h_mute_def h_kick_def h_transferOwner_def h_putDestination_def h_patchDestination_def
      h_deleteDestination_def h_putPersonalMarker_def h_deletePersonalMarker_def h_addStop_def h_patchStop_def
      h_removeStop_def h_clearStops_def h_postMessage_def h_listMessages_def h_end_def snd_respond;
    erule keepsD [rotated]; intro keeps_intros)

section \<open>Opening a socket\<close>

lemma snapshot_heap: "h_heap (w_rt (snd (Hub_snapshot roomID selfID w))) = h_heap (w_rt w)"
proof -
  have r: "h_heap (snd (roomFor r h)) = h_heap h" for r h by (simp add: roomFor_def split: option.splits)
  have "keeps (\<lambda>v. h_heap (w_rt v) = h_heap (w_rt w)) (Hub_snapshot roomID selfID)"
    unfolding Hub_snapshot_def store_methods
    by (intro keeps_andThen keeps_map_err keeps_onErr keeps_asks keeps_effect
        keeps_stmt_rt [of "\<lambda>h. h_heap h = h_heap (w_rt w)"] keeps_ok keeps_case_option keeps_result) (simp_all add: r)
  then show ?thesis by (rule keepsD) simp
qed

lemma ws_start_opens:
  assumes "hub_ok (w_rt w)" "ws_start roomID userID w = (c, w')" "open_socket r u (w_rt w')" "\<not> (r = roomID \<and> u = userID)"
  shows "open_socket r u (w_rt w)"
proof -
  obtain h1 where al: "alloc_client userID roomID (w_rt w) = (c, h1)"
    using assms(2) by (auto simp: ws_start_def Let_def split: prod.splits)
  note fr = alloc_frame [OF assms(1) al]
  have user: "cl_user (h_heap h1 c) = userID" by (simp add: fr(2) newClient_def)
  obtain b h2 where j: "join roomID c h1 = (b, h2)" by force
  obtain snap w1 where sn: "Hub_snapshot roomID userID (w\<lparr>w_rt := h2\<rparr>) = (snap, w1)" by force
  define h3 where "h3 = (case snap of Inl _ \<Rightarrow> w_rt w1 | Inr sp \<Rightarrow> sendTo c MsgSnapshot (PSnapshot sp) (w_rt w1))"
  have w': "w_rt w' = (if b then BroadcastMemberPresent roomID userID h3 else h3)"
    using assms(2) al j sn by (auto simp: ws_start_def h3_def Let_def)
  have "fewer (w_rt w1) (w_rt w')" by (auto simp: w' h3_def hub_broadcasts fewer_then split: sum.splits)
  then have "open_socket r u (w_rt w1)" using assms(3) by (rule fewer_open)
  moreover have "socket_of r u (w_rt w1) = socket_of r u h2" "h_heap (w_rt w1) = h_heap h2"
    using snapshot_keeps(2)[where roomID = roomID and selfID = userID and w = "w\<lparr>w_rt := h2\<rparr>"]
      snapshot_heap [of roomID userID "w\<lparr>w_rt := h2\<rparr>"] sn by simp_all
  ultimately obtain x where x: "socket_of r u h2 = Some x" "\<not> cl_closed (h_heap h2 x)"
    by (auto simp: open_socket_def split: option.splits)
  have "socket_of r u (w_rt w) = Some x" using x(1) assms(4) fr(1) join_run(2)[OF j, of r u] user by (auto split: if_splits)
  moreover from this have "x \<noteq> c" using fr(3) by blast
  moreover have "h_heap h2 x = h_heap h1 x" using x(2) join_run(3)[OF j, of x] by (auto split: if_splits)
  ultimately show ?thesis using x(2) by (simp add: open_socket_def fr(2))
qed

lemma ServeHTTP_open_seats:
  assumes "seat_inv w"
  shows "seat_inv (snd (ServeHTTP_open L s now room token accepted w))"
proof -
  have sys: "system_ok (snd (ServeHTTP_open L s now room token accepted w))"
    by (rule ServeHTTP_open_ok [OF seat_invD(2)[OF assms]])
  obtain a w1 where a: "ws_admit L s now room token w = (a, w1)" by force
  show ?thesis
  proof (cases a)
    case (Inl answer)
    then have "same_state w w1" using ws_admit_InlD a by blast
    with assms sys a Inl show ?thesis by (simp add: ServeHTTP_open_def seat_inv_def sockets_seated_def)
  next
    case (Inr p)
    then obtain roomID user where p: "a = Inr (roomID, user)" by (cases p) auto
    note ad = ws_admit_InrD [OF a [unfolded p]]
    then have w1: "seat_inv w1" and seat: "seated (w_db w1) roomID (UserID user)"
      using assms by (auto simp: seat_inv_def system_ok_def sockets_seated_def seated_def)
    obtain c w2 where st: "ws_start roomID (UserID user) w1 = (c, w2)" by force
    have "sockets_seated w2"
      using seat seat_invD(3)[OF w1] ws_start_opens [OF seat_invD(1)[OF w1] st] ws_start_run(1)[OF st]
      unfolding sockets_seated_def by metis
    then have "seat_inv w2" using ws_start_ok [OF seat_invD(2)[OF w1] st] by (simp add: seat_inv_def)
    with w1 a p st show ?thesis by (simp add: ServeHTTP_open_def)
  qed
qed

section \<open>The other requests\<close>

lemma over_seats:
  assumes "over (\<lambda>d. seats d = seats (w_db w)) (world.more w) v" "system_ok v" "seat_inv w"
  shows "seat_inv v"
proof -
  have "w_rt v = w_rt w" using overD(2)[OF assms(1)] by (cases v, cases w) simp
  with seated_cong [OF overD(1)[OF assms(1)]] assms(2,3) show ?thesis by (simp add: seat_inv_def sockets_seated_def)
qed

lemma seats_over: "over (\<lambda>d. seats d = seats (w_db w)) (world.more w) w"
  by (simp add: over_def)

lemma LoadUser_seats: "seat_inv w \<Longrightarrow> LoadUser u w = (r, v) \<Longrightarrow> seat_inv v"
  by (cases r) (auto dest!: LoadUser_InrD LoadUser_InlD simp: seat_inv_def system_ok_def sockets_seated_def)

lemma Middleware_seats:
  assumes "seat_inv w" "\<And>u w. seat_inv w \<Longrightarrow> seat_inv (snd (nxt u w))"
  shows "seat_inv (snd (Middleware L s now header nxt w))"
  using assms LoadUser_seats by (auto simp: Middleware_def split: sum.splits prod.splits)

lemma table_handler_seats:
  assumes "seat_inv w" "\<And>I z. account_statements I \<Longrightarrow> over I z w \<Longrightarrow> over I z (snd (h w))"
    and "\<And>z. over tables_ok z w \<Longrightarrow> over tables_ok z (snd (h w))"
  shows "seat_inv (snd (h w))"
proof -
  have "account_statements (\<lambda>d. seats d = seats (w_db w))" by (rule rooms.account_statements_axioms)
  then have "over (\<lambda>d. seats d = seats (w_db w)) (world.more w) (snd (h w))" by (rule assms(2)) (rule seats_over)
  moreover have "system_ok (snd (h w))"
    by (rule over_system [OF assms(3)[OF system_over] seat_invD(2)[OF assms(1)]]) (rule seat_invD(2)[OF assms(1)])
  ultimately show ?thesis using assms(1) by (rule over_seats)
qed

definition deleting :: "endpoint set" where
  "deleting = {E_user U_deleteAccount, E_admin A_userSoftDelete, E_admin A_userHardDelete}"

lemmas handlers_by_statements = account_statements.auth_handlers_over account_statements.app_handlers_over
  account_statements.admin_handlers_over account_statements.settings_over

lemmas handlers_by_tables = tables.auth_handlers_over tables.app_handlers_over tables.admin_handlers_over tables.settings_over

lemma serve_user_seats: "seat_inv w \<Longrightarrow> e \<noteq> U_deleteAccount \<Longrightarrow> seat_inv (snd (serve_user P sv now e rq w))"
  by (cases e) (simp_all add: Middleware_seats serve_rooms_seats
    table_handler_seats [of _ "HandleMe (Some u)" for u] table_handler_seats [of _ "HandlePatchMe (Some u) b" for u b]
    table_handler_seats [of _ "Feedback_Submit (Some u) b" for u b] table_handler_seats [of _ "Push_Save t (Some u) b" for t u b]
    handlers_by_statements handlers_by_tables)

lemma serve_admin_seats:
  "seat_inv w \<Longrightarrow> e \<noteq> A_userSoftDelete \<Longrightarrow> e \<noteq> A_userHardDelete \<Longrightarrow> seat_inv (snd (serve_admin P sv m e rq w))"
  by (cases e; simp; rule table_handler_seats; simp add: handlers_by_statements handlers_by_tables)

lemma serve_http_seats:
  assumes w: "seat_inv w" and e: "e \<notin> deleting"
  shows "seat_inv (snd (serve_http P sv now e rq w))"
proof -
  have "seat_inv (snd (serve_route P sv now e rq w))"
  proof (cases e)
    case (E_admin a)
    with e w show ?thesis
      by (auto simp: deleting_def requireAuth_def serve_admin_seats split: option.splits)
  qed (use e w in \<open>auto simp: deleting_def serve_user_seats ServeHTTP_open_seats
      table_handler_seats [of _ AppConfig_Handler] table_handler_seats [of _ "HandleGuest L s n b" for L s n b]
      table_handler_seats [of _ "HandleGoogle L s n b" for L s n b] table_handler_seats [of _ "HandleApple L s n b" for L s n b]
      handlers_by_statements handlers_by_tables split: option.splits\<close>)
  with w show ?thesis by (auto simp: serve_http_def corsMiddleware_def split: prod.splits)
qed

lemma fewer_seats: "seat_inv w \<Longrightarrow> fewer (w_rt w) (f (w_rt w)) \<Longrightarrow> hub_ok (f (w_rt w)) \<Longrightarrow> seat_inv (on_hub f w)"
  using fewer_open by (auto simp: seat_inv_def system_ok_def sockets_seated_def on_hub_def)

lemma system_step_seats: "system_step P sv E w w' \<Longrightarrow> E \<inter> deleting = {} \<Longrightarrow> seat_inv w \<Longrightarrow> seat_inv w'"
proof (induction rule: system_step.induct)
  case (request e w now rq)
  then show ?case by (intro serve_http_seats) auto
next
  case (frame w ts c f)
  then show ?case by (simp add: fewer_seats fewer_readPump hub_ok_readPump seat_invD)
next
  case (pump ev w c c')
  then show ?case by (simp add: fewer_seats fewer_pump hub_ok_pump seat_invD)
next
  case (closed w c)
  then show ?case by (simp add: fewer_seats fewer_close ServeHTTP_close_ok seat_invD)
qed

lemma reachable_seats: "reachable P sv E w \<Longrightarrow> E \<inter> deleting = {} \<Longrightarrow> seat_inv w"
proof (induction rule: reachable.induct)
  case (start w now)
  have "\<not> open_socket r u NewHub" for r u by (simp add: open_socket_def socket_of_def NewHub_def)
  with start show ?case by (simp add: seat_inv_def system_ok_def tables_ok_init hub_ok_NewHub sockets_seated_def)
next
  case (step w w')
  then show ?case by (blast intro: system_step_seats)
qed

end
