(* ===== verification/Accounts.thy ===== *)
theory Accounts
  imports OpenSockets
begin

text \<open>
  What the authentication and administration handlers do: session tokens, profile
  edits, OAuth sign-in, account deletion, hard deletion and settings.
\<close>

section \<open>Session tokens\<close>

text \<open>
  What the code relies on from the two libraries, as their documentation has it:
  a token signed with a key is accepted under that key, with its subject, until
  the expiry it carries and refused from then on; the text of an identifier is
  parsed back.
\<close>

definition jwt_law :: "libs \<Rightarrow> bool" where
  "jwt_law L \<longleftrightarrow> (\<forall>key sub e i tok now kf.
     jwt_SignedString L key [''sub'' \<mapsto> CStr sub, ''exp'' \<mapsto> CNum e, ''iat'' \<mapsto> CNum i] = Inr tok \<longrightarrow> kf True = Inr key \<longrightarrow> 0 \<le> e \<longrightarrow>
     (if now < e * 1000000 then \<exists>claims. jwt_Parse L now kf tok = Inr (True, claims) \<and> claims ''sub'' = Some (CStr sub)
      else \<exists>msg. jwt_Parse L now kf tok = Inl msg))"

definition uuid_law :: "libs \<Rightarrow> bool" where
  "uuid_law L \<longleftrightarrow> (\<forall>u. uuid_Parse L (uuid_String L u) = Inr u)"

lemma demo_laws: "jwt_law demo_libs" "uuid_law demo_libs"
  by (auto simp: jwt_law_def uuid_law_def demo_libs_def demo_sign_def demo_parse_def claim_str_def Let_def)

text \<open>
  C14: A token that \<open>Issue\<close> handed out names its user to \<open>Verify\<close> until the
  second its lifetime ends, and nobody from then on.
\<close>
theorem verify_issue:
  assumes "jwt_law L" "uuid_law L" "Issue L s now u = Inr tok" "0 \<le> unix (now + as_ttl s)"
  shows "Verify L s t tok = (if t < unix (now + as_ttl s) * 1000000 then Inr u else Inl (OtherError ''invalid token''))"
proof -
  let ?kf = "\<lambda>hmac. if \<not> hmac then Inl ''unexpected signing method'' else Inr (as_secret s)"
  have "jwt_SignedString L (as_secret s) [''sub'' \<mapsto> CStr (uuid_String L u), ''exp'' \<mapsto> CNum (unix (now + as_ttl s)),
      ''iat'' \<mapsto> CNum (unix now)] = Inr tok"
    using assms(3) by (simp add: Issue_def split: sum.splits)
  from assms(1)[unfolded jwt_law_def, rule_format, OF this, of ?kf t] assms(4)
  have "if t < unix (now + as_ttl s) * 1000000
      then \<exists>claims. jwt_Parse L t ?kf tok = Inr (True, claims) \<and> claims ''sub'' = Some (CStr (uuid_String L u))
      else \<exists>msg. jwt_Parse L t ?kf tok = Inl msg" by simp
  then show ?thesis using assms(2)
    by (cases "t < unix (now + as_ttl s) * 1000000") (auto simp: Verify_def claim_str_def uuid_law_def)
qed

definition demo_auth :: AuthService where
  "demo_auth = \<lparr>as_secret = ''0123456789abcdef'', as_ttl = 5000000, as_google = None, as_apple = None\<rparr>"

theorem verify_issue_witness:
  "\<exists>tok. Issue demo_libs demo_auth 0 2 = Inr tok \<and> Verify demo_libs demo_auth 4999999 tok = Inr 2 \<and>
     Verify demo_libs demo_auth 5000000 tok = Inl (OtherError ''invalid token'')"
proof -
  obtain tok where tok: "Issue demo_libs demo_auth 0 2 = Inr tok" by (simp add: Issue_def demo_libs_def demo_sign_def)
  from verify_issue [OF demo_laws tok, of 4999999] verify_issue [OF demo_laws tok, of 5000000] tok show ?thesis
    by (simp add: demo_auth_def unix_def)
qed

section \<open>Names\<close>

text \<open>
  Guest sign-in cuts a long name after 40 bytes, possibly inside a character; the
  database refuses the result, and the guest gets an internal error.
\<close>

lemma cut_after_ascii: "\<not> valid_utf8 (replicate n CHR ''a'' @ [CHR 0xC3])"
  by (induction n) (simp_all add: valid_utf8.simps is_cont_def)

lemma guest_cut_inside_character:
  "fst (HandleGuest demo_libs demo_auth 0 (Inr \<lparr>GuestDisplayName = replicate 39 CHR ''a'' @ [CHR 0xC3, CHR 0xA9],
     GuestAvatarURL = None\<rparr>) (demo_world ())) = WriteErr bad_text \<and> resp_status (WriteErr bad_text :: auth_body response) = 500"
proof -
  have "TrimSpace (replicate 39 CHR ''a'' @ [CHR 0xC3, CHR 0xA9]) = replicate 39 CHR ''a'' @ [CHR 0xC3, CHR 0xA9]" by code_simp
  moreover have "take 40 (replicate 39 CHR ''a'' @ [CHR 0xC3, CHR 0xA9]) = replicate 39 CHR ''a'' @ [CHR 0xC3]" by simp
  moreover have "\<not> pg_text (replicate 39 CHR ''a'' @ [CHR 0xC3])" using cut_after_ascii [of 39] by (simp add: pg_text_def)
  ultimately show ?thesis
    by (simp add: HandleGuest_def respond_def andThen_def onErr_def Decode_def stmt_def calm_tick insert_user_def Let_def
        result_def fail_def error_json_def)
qed

section \<open>Profile edits\<close>

text \<open>
  \<open>HandlePatchMe\<close> answers 200 exactly when it has stored, for a live account,
  a name of 2 to 40 characters: the trimmed input, cut after 40 characters and never
  inside one.  The answer carries the stored name; no other account and no other
  table changes, and on every other answer nothing does.
\<close>
theorem patch_me_effect:
  fixes w :: "'z world_scheme"
  shows "case HandlePatchMe (Some u) body w of (resp, w') \<Rightarrow>
    world.more w' = world.more w \<and>
    (if resp_status resp = 200
     then \<exists>row name. body = Inr name \<and> live_user (w_db w) (UserID u) = Some row \<and>
        2 \<le> RuneCountInString (TrimSpace name) \<and>
        (\<exists>stored. runes stored = take 40 (runes (TrimSpace name)) \<and> resp = JSON 200 (BUser (scan_user (row\<lparr>u_display_name := stored\<rparr>))) \<and>
           w_db w' = (w_db w)\<lparr>t_users := update_where (\<lambda>r. u_id r = UserID u \<and> u_deleted_at r = None)
             (\<lambda>r. r\<lparr>u_display_name := stored\<rparr>) (t_users (w_db w))\<rparr>)
     else w_db w' = w_db w)"
proof (cases "\<exists>name. body = Inr name \<and> 2 \<le> RuneCountInString (TrimSpace name)")
  case False
  then show ?thesis
    by (auto simp: HandlePatchMe_def respond_def andThen_def onErr_def result_def Decode_def fail_def Let_def http_errors
        name_required_def name_too_short_def error_json_def split: sum.splits)
next
  case True
  then obtain name where name: "body = Inr name" "2 \<le> RuneCountInString (TrimSpace name)" by blast
  define stored where "stored = (if RuneCountInString (TrimSpace name) > 40
    then string_of_runes (take 40 (runes (TrimSpace name))) else TrimSpace name)"
  have st: "runes stored = take 40 (runes (TrimSpace name))"
    by (auto simp: stored_def RuneCountInString_def runes_string_of_runes list_all_take runes_valid)
  have ne: "TrimSpace name \<noteq> []" using name(2) by (auto simp: RuneCountInString_def)
  obtain res w' where run: "stmt (update_display_name stored (UserID u)) w = (res, w')" by force
  have h: "HandlePatchMe (Some u) body w = (case res of Inl e \<Rightarrow> WriteErr (no_rows_as ErrUnauthorized e)
      | Inr row \<Rightarrow> JSON 200 (BUser (scan_user row)), w')"
    using name ne run by (auto simp: HandlePatchMe_def respond_def andThen_def onErr_def result_def Decode_def fail_def Let_def
        map_err_def ok_def stored_def [symmetric] split: sum.splits)
  have more: "world.more w' = world.more w" using stmt_frame(2)[of "update_display_name stored (UserID u)" w] run by simp
  show ?thesis
  proof (cases res)
    case (Inl e)
    have "resp_status (WriteErr (no_rows_as ErrUnauthorized e) :: auth_body response) \<noteq> 200" if "\<And>st c m. e = APIError st c m \<Longrightarrow> False"
      using that by (cases e) (auto simp: no_rows_as_def http_errors error_json_def)
    moreover have "e \<noteq> APIError st c m" for st c m
      using run Inl by (auto simp: stmt_def update_display_name_def split: option.splits if_splits sum.splits)
    ultimately show ?thesis using h Inl more stmt_InlD [of "update_display_name stored (UserID u)" w e w'] run by simp
  next
    case (Inr row)
    with stmt_InrD [of "update_display_name stored (UserID u)" w row w'] run show ?thesis
      using h more name st by (auto simp: update_display_name_def JSON_def split: if_splits option.splits)
  qed
qed

end
