(* ===== verification/Deletion.thy ===== *)
theory Deletion
  imports Accounts CreateJoin
begin

text \<open>
  Account deletion by the user and by the administrator, repeated OAuth sign-in, and
  the settings page.
\<close>

section \<open>Deleting one's account\<close>

interpretation any: account_deletions "\<lambda>_. True"
  by unfold_locales simp_all

definition account_closed :: "uuid \<Rightarrow> timestamp \<Rightarrow> db \<Rightarrow> db" where
  "account_closed u now d = d\<lparr>
     t_users := update_where (\<lambda>r. u_id r = u \<and> u_deleted_at r = None) (\<lambda>r. r\<lparr>u_deleted_at := Some now\<rparr>) (t_users d),
     t_rooms := update_where (\<lambda>r. r_owner_id r = u \<and> r_ended_at r = None) (\<lambda>r. r\<lparr>r_ended_at := Some now\<rparr>) (t_rooms d),
     t_room_members := update_where (\<lambda>m. rm_user_id m = u \<and> rm_left_at m = None)
       (\<lambda>m. m\<lparr>rm_kicked := True, rm_left_at := Some now\<rparr>) (t_room_members d)\<rparr>"

lemma closed_no_user: "live_user (account_closed u now d) u = None"
proof -
  have "\<forall>r \<in> set (t_users (account_closed u now d)). \<not> (u_id r = u \<and> u_deleted_at r = None)"
    by (simp add: account_closed_def ball_update_where)
  then show ?thesis by (auto simp: live_user_def find_None_iff)
qed

lemma closed_no_member: "\<not> is_member (account_closed u now d) r u"
  by (simp add: account_closed_def is_member_def bex_update_where active_member_def joined_def is_membership_def)

lemma closed_no_room: "\<forall>row \<in> set (t_rooms (account_closed u now d)). r_owner_id row = u \<longrightarrow> \<not> room_active row"
  by (simp add: account_closed_def ball_update_where room_active_def)

lemma delete_account_run:
  fixes w :: "'z world_scheme"
  assumes "HandleDeleteAccount (Some u) w = (resp :: 'b response, w')"
  shows "if resp = NoContent then \<exists>now. w_db w' = account_closed (UserID u) now (w_db w) else w_db w' = w_db w"
proof -
  let ?body = "\<lambda>now. andThen (tx_stmt now (stamp_deleted (UserID u))) (\<lambda>_.
         andThen (tx_stmt now (end_owned_rooms (UserID u))) (\<lambda>_. tx_stmt now (kick_memberships (UserID u))))"
  obtain res v where run: "tx ?body w = (res, v)" by force
  then have h: "v = w'" "resp = (case res of Inl e \<Rightarrow> WriteErr e | Inr x \<Rightarrow> (NoContent :: 'b response))"
    using assms by (cases res; simp add: HandleDeleteAccount_def respond_def andThen_Inl andThen_Inr ok_def)+
  show ?thesis
  proof (cases res)
    case (Inl e)
    have "WriteErr e \<noteq> (NoContent :: 'b response)" by (cases e) (simp_all add: NoContent_def error_json_def)
    then show ?thesis using h tx_atomic [of ?body w e v] run Inl by simp
  next
    case (Inr x)
    with run obtain now v' where b: "?body now ((advance w)\<lparr>w_aborted := False\<rparr>) = (Inr x, v')" "w_db v = w_db v'"
      by (auto dest!: tx_InrD)
    from b(1) have "w_db v' = account_closed (UserID u) now (w_db w)"
      by (auto elim!: andThen_InrE dest!: tx_stmt_InrD
          simp: stamp_deleted_def end_owned_rooms_def kick_memberships_def account_closed_def dest!: flip_db)
    with h b(2) Inr show ?thesis by auto
  qed
qed



text \<open>
  The sockets of a deleted account stay open: neither the handler nor the
  administrator's soft deletion tells the hub.
\<close>

lemma deletion_leaves_sockets:
  "fst (HandleDeleteAccount (Some \<lparr>UserID = 2, UserDisplayName = ''Bob'', UserAvatarURL = None, UserEmail = None,
     UserEntitlements = []\<rparr>) (demo_world demo_hub)) = (NoContent :: unit response) \<and>
   (case HandleDeleteAccount (Some \<lparr>UserID = 2, UserDisplayName = ''Bob'', UserAvatarURL = None, UserEmail = None,
     UserEntitlements = []\<rparr>) (demo_world demo_hub) :: unit response \<times> hub rworld of
      (r, w') \<Rightarrow> \<not> is_member (w_db w') 10 2 \<and> open_socket 10 2 (w_rt w'))"
  by code_simp

section \<open>Signing in again\<close>

definition linked :: "db \<Rightarrow> Identity \<Rightarrow> uuid \<Rightarrow> bool" where
  "linked d i u \<longleftrightarrow> map_option ui_user_id (identity_of d (IdProvider i) (IdSubject i)) = Some u \<and> live_user d u \<noteq> None"

lemma identity_of_users [simp]: "identity_of (d\<lparr>t_users := us\<rparr>) p s = identity_of d p s"
  by (simp add: identity_of_def)

lemma live_user_identities [simp]: "live_user (d\<lparr>t_user_identities := is'\<rparr>) u = live_user d u"
  by (simp add: live_user_def)

lemma insert_identity_links:
  "insert_identity u p s e now uid d = Inr (x, d') \<Longrightarrow>
     map_option ui_user_id (identity_of d' p s) = Some u \<and> t_users d' = t_users d"
  by (auto simp: insert_identity_def identity_of_def find_append split: if_splits option.splits)

lemma live_user_id: "live_user d u = Some r \<Longrightarrow> u_id r = u"
  by (auto simp: live_user_def dest: find_SomeD)

lemma resolve_links:
  assumes "resolve_identity now i w = (Inr uid, v)"
  shows "map_option ui_user_id (identity_of (w_db v) (IdProvider i) (IdSubject i)) = Some uid"
proof (cases "tx_stmt now (select_identity (IdProvider i) (IdSubject i)) w")
  case (Pair r v2)
  show ?thesis
  proof (cases r)
    case (Inl e)
    with assms Pair show ?thesis
      by (auto simp: resolve_identity_def onErr_Inl fail_def ok_def elim!: andThen_InrE
          dest!: tx_stmt_InrD insert_identity_links split: if_splits)
  next
    case (Inr x)
    with Pair have x: "map_option ui_user_id (identity_of (w_db v2) (IdProvider i) (IdSubject i)) = Some x"
      by (auto dest!: tx_stmt_InrD simp: select_identity_def sql_row_def split: if_splits option.splits)
    have "uid = x" "t_user_identities (w_db v) = t_user_identities (w_db v2)"
      using assms Pair Inr by (auto simp: resolve_identity_def onErr_Inr ok_def onErr_def tx_stmt_def update_email_def
          split: if_splits option.splits)
    with x show ?thesis by (simp add: identity_of_def)
  qed
qed

lemma upsert_links:
  assumes "upsertOAuthUser i w = (Inr usr, w')"
  shows "linked (w_db w') i (UserID usr)"
proof -
  obtain now v uid v1 where b: "resolve_identity now i ((advance w)\<lparr>w_aborted := False\<rparr>) = (Inr uid, v1)"
      "tx_stmt now (sql_row (\<lambda>d. map_option scan_user (live_user d uid))) v1 = (Inr usr, v)" "w_db w' = w_db v"
    using assms unfolding upsertOAuthUser_def by (auto dest!: tx_InrD elim!: andThen_InrE)
  have v: "w_db v = w_db v1" "map_option scan_user (live_user (w_db v1) uid) = Some usr"
    using b(2) by (auto dest!: tx_stmt_InrD simp: sql_row_def split: option.splits)
  then have "UserID usr = uid" by (auto simp: scan_user_def dest: live_user_id)
  with b(3) v resolve_links [OF b(1)] show ?thesis by (auto simp: linked_def)
qed

lemma tx_calm:
  assumes "calm w" "body (tk_now (tick_of w)) ((advance w)\<lparr>w_aborted := False\<rparr>) = (Inr x, v)" "calm v" "\<not> w_aborted v"
  shows "tx body w = (Inr x, advance v)"
  using assms by (simp add: tx_def calm_tick)

lemma keeps_calm_stmts [keeps_intros]: "keeps calm (stmt q)" "keeps calm (tx_stmt now q)"
  by (rule keepsI, simp add: calm_def)+

lemma keeps_calm_tx:
  fixes body :: "timestamp \<Rightarrow> ('z, 'a) dbcmd"
  assumes "\<And>now. keeps calm (body now)"
  shows "keeps calm (tx body)"
proof (rule keepsI)
  fix w :: "'z world_scheme" assume w: "calm w"
  obtain r v where b: "body (tk_now (tick_of w)) ((advance w)\<lparr>w_aborted := False\<rparr>) = (r, v)" by force
  from keepsD [OF assms, of "(advance w)\<lparr>w_aborted := False\<rparr>" "tk_now (tick_of w)"] w b have "calm v" by simp
  with w b show "calm (snd (tx body w))" by (auto simp: tx_def split: option.splits sum.splits)
qed

lemma live_user_email:
  "map_option u_id (live_user (d\<lparr>t_users := update_where p (\<lambda>r. r\<lparr>u_email := e\<rparr>) (t_users d)\<rparr>) u) = map_option u_id (live_user d u)"
proof -
  have "map_option u_id (List.find (\<lambda>r. u_id r = u \<and> u_deleted_at r = None) (update_where p (\<lambda>r. r\<lparr>u_email := e\<rparr>) rs)) =
      map_option u_id (List.find (\<lambda>r. u_id r = u \<and> u_deleted_at r = None) rs)" for rs
    by (induction rs) (auto simp: update_where_def)
  then show ?thesis by (simp add: live_user_def)
qed


definition demo_identity :: Identity where
  "demo_identity = \<lparr>IdProvider = ''google'', IdSubject = ''s1'', IdEmail = ''a@b.c'', IdDisplayName = ''Ann'', IdAvatarURL = []\<rparr>"


text \<open>
  After the account was deleted the identity still leads to it, so that signing in with
  the provider again neither succeeds nor creates a new account.
\<close>

lemma deleted_account_sign_in:
  "(case upsertOAuthUser demo_identity (demo_world ()) of
      (Inl e, w1) \<Rightarrow> False
    | (Inr usr, w1) \<Rightarrow>
      (case HandleDeleteAccount (Some usr) w1 :: unit response \<times> unit rworld of (r, w2) \<Rightarrow>
         r = NoContent \<and>
         (case upsertOAuthUser demo_identity w2 of
            (Inl e, w3) \<Rightarrow> e = ErrNoRows \<and> resp_status (WriteErr e :: unit response) = 500
          | (Inr usr', w3) \<Rightarrow> False)))"
  by code_simp

section \<open>Hard deletion\<close>

text \<open>Some row names the user.\<close>

definition named :: "uuid \<Rightarrow> db \<Rightarrow> bool" where
  "named u d \<longleftrightarrow> user_exists d u \<or> (\<exists>r \<in> set (t_rooms d). r_owner_id r = u \<or> r_dest_set_by r = Some u) \<or>
     (\<exists>m \<in> set (t_room_members d). rm_user_id m = u) \<or> (\<exists>p \<in> set (t_personal_markers d). pm_user_id p = u) \<or>
     (\<exists>s \<in> set (t_room_stops d). st_created_by s = Some u) \<or> (\<exists>m \<in> set (t_messages d). ms_user_id m = u) \<or>
     (\<exists>i \<in> set (t_user_identities d). ui_user_id i = u) \<or> (\<exists>t \<in> set (t_push_tokens d). pt_user_id t = u) \<or>
     (\<exists>f \<in> set (t_feedback d). fb_user_id f = Some u)"

lemma named_exists: "tables_ok d \<Longrightarrow> named u d \<Longrightarrow> user_exists d u"
  unfolding named_def tables_ok_def db_ok_def refs_ok_def accounts_ok_def identities_ok_def feedback_ok_def tokens_ok_def
  by (elim disjE bexE conjE) auto

text \<open>
  C16: Hard deletion erases the account: unless it answers with the error of the
  database, and then no table has changed, no row of any table names the user any
  more, and the tables are still consistent.
\<close>
theorem hard_delete_erases:
  assumes "tables_ok (w_db w)" "uuid_Parse L s = Inr u"
  shows "case userHardDelete L r s w of (answer, w') \<Rightarrow>
    (case answer of ServerError e \<Rightarrow> w_db w' = w_db w | _ \<Rightarrow> \<not> named u (w_db w') \<and> tables_ok (w_db w'))"
proof -
  obtain res w' where run: "stmt (delete_user u) w = (res, w')" by force
  have h: "userHardDelete L r s w = (case res of Inl e \<Rightarrow> ServerError e
      | Inr x \<Rightarrow> (if isHTMX r then HxRedirect 200 ''/admin/users'' else Redirect ''/admin/users''), w')"
    using run assms(2) by (cases res) (simp_all add: userHardDelete_def admin_respond_def admin_id_def or_500_def andThen_def
      onErr_def ok_def fail_def)
  show ?thesis
  proof (cases res)
    case (Inl e)
    with h run show ?thesis by (auto dest: stmt_InlD)
  next
    case (Inr x)
    with run obtain now uid where d: "delete_user u now uid (w_db w) = Inr (x, w_db w')" by (auto dest: stmt_InrD)
    have ok: "tables_ok (w_db w')" by (rule delete_user_tables_ok [OF assms(1) d])
    have "\<not> user_exists (w_db w') u" using d by (auto simp: delete_user_def split: if_splits) (metis cascade_exists(1))
    with ok named_exists have "\<not> named u (w_db w')" by blast
    with h ok Inr show ?thesis by simp
  qed
qed

lemma demo_tables_ok: "tables_ok demo_db"
proof -
  have "semver ''0.0.0''" by code_simp
  then show ?thesis
    by (simp add: tables_ok_def demo_db_ok accounts_ok_def identities_ok_def feedback_ok_def tokens_ok_def settings_ok_def
        config_value_def KeyMinClientVersion_def) (simp add: demo_defs)
qed

definition demo_admin_request :: admin_request where
  "demo_admin_request = \<lparr>rq_Cookie = None, rq_TLS = False, rq_ForwardedProto = [], rq_HXRequest = []\<rparr>"

theorem hard_delete_erases_witness:
  "fst (userHardDelete demo_libs demo_admin_request ''u'' (demo_world ())) = Redirect ''/admin/users'' \<and>
   \<not> named 1 (w_db (snd (userHardDelete demo_libs demo_admin_request ''u'' (demo_world ()))))"
proof -
  have f: "fst (userHardDelete demo_libs demo_admin_request ''u'' (demo_world ())) = Redirect ''/admin/users''" by code_simp
  have u: "uuid_Parse demo_libs ''u'' = Inr 1" by (simp add: demo_libs_def)
  from hard_delete_erases [OF _ u, of "demo_world ()" demo_admin_request] f show ?thesis
    by (auto simp: demo_tables_ok split: prod.splits)
qed

text \<open>
  A former owner who placed a stop cannot be deleted: the stop of the handed-over
  room still names its creator, a reference without an action.
\<close>

lemma hard_delete_blocked:
  "(case Service_TransferOwnership silent 10 1 2 (demo_world ()) of (res, w) \<Rightarrow>
     res = Inr () \<and> fst (userHardDelete demo_libs demo_admin_request ''u'' w) = ServerError foreign_key_violation)"
  by code_simp

section \<open>Settings\<close>

text \<open>
  C17: What the settings page saves is what clients are told: after a submission that
  was answered as saved, the public endpoint reports exactly the submitted version,
  trimmed, and that version has the form of three numbers.
\<close>
theorem settings_reach_clients:
  assumes "settingsSubmit m (Inr form) w = (Redirect ''/admin/settings?flash=saved'', w1)" "calm w1"
  shows "semver (TrimSpace (form ''min_client_version'')) \<and>
    fst (AppConfig_Handler w1) = JSON 200 \<lparr>PubMinClientVersion = TrimSpace (form ''min_client_version''), PubEntitlements = []\<rparr>"
proof -
  let ?v = "TrimSpace (form ''min_client_version'')"
  have sv: "semver ?v" and run: "stmt (upsert_config KeyMinClientVersion ?v) w = (Inr (), w1)"
    using assms(1) by (auto simp: settingsSubmit_def admin_respond_def AppConfig_Set_def Let_def ok_def onErr_def
        split: if_splits sum.splits prod.splits)
  from run have c: "config_value (w_db w1) KeyMinClientVersion = Some ?v" by (auto dest!: stmt_InrD dest: config_value_upsert [of KeyMinClientVersion _ _ _ _ _ _ KeyMinClientVersion])
  have key: "pg_text KeyMinClientVersion" by code_simp
  have ne: "?v \<noteq> []" using sv by (auto simp: semver_def)
  have "AppConfig_Get KeyMinClientVersion w1 = (Inr ?v, advance w1)"
    using c key assms(2) by (simp add: AppConfig_Get_def stmt_calm calm_tick sql_row_def advance_def)
  with sv ne show ?thesis
    by (simp add: AppConfig_Handler_def MinClientVersion_def respond_def andThen_def onErr_def ok_def TrimSpace_idem)
qed

definition demo_admin :: AdminConfig where
  "demo_admin = \<lparr>ad_Password = ''pw'', ad_CookieSecret = ''0123456789abcdef'', ad_PoolSet = True, ad_AppCfgSet = True\<rparr>"

theorem settings_reach_clients_witness:
  "fst (AppConfig_Handler (snd (settingsSubmit demo_admin (Inr (\<lambda>_. '' 1.2.3 '')) (demo_world ())))) =
     JSON 200 \<lparr>PubMinClientVersion = ''1.2.3'', PubEntitlements = []\<rparr>"
proof -
  have t: "TrimSpace '' 1.2.3 '' = ''1.2.3''" and sv: "semver ''1.2.3''" by code_simp+
  have "fst (AppConfig_Set KeyMinClientVersion ''1.2.3'' (demo_world ())) = Inr ()" by code_simp
  then have f: "fst (settingsSubmit demo_admin (Inr (\<lambda>_. '' 1.2.3 '')) (demo_world ())) = Redirect ''/admin/settings?flash=saved''"
    by (auto simp: settingsSubmit_def admin_respond_def Let_def t sv demo_admin_def onErr_def ok_def split: prod.splits sum.splits)
  have "calm (snd (settingsSubmit demo_admin (Inr (\<lambda>_. '' 1.2.3 '')) (demo_world ())))"
    unfolding settingsSubmit_def snd_admin_respond Let_def AppConfig_Set_def
    by (rule keepsD [where I = calm]) (intro keeps_intros, rule demo_calm)
  moreover obtain w1 where "settingsSubmit demo_admin (Inr (\<lambda>_. '' 1.2.3 '')) (demo_world ()) = (Redirect ''/admin/settings?flash=saved'', w1)"
    using f by (cases "settingsSubmit demo_admin (Inr (\<lambda>_. '' 1.2.3 '')) (demo_world ())") simp
  ultimately show ?thesis using settings_reach_clients [of demo_admin "\<lambda>_. '' 1.2.3 ''" "demo_world ()" w1] t by simp
qed

end
