(* ===== verification/DemoServer.thy ===== *)
theory DemoServer
  imports Deletion
begin

text \<open>
  A running server on an empty database, used to show that the theorems about
  reachable states apply: a guest signs in, creates a convoy and opens a socket.
\<close>

definition demo_server :: server where
  "demo_server = \<lparr>sv_auth = demo_auth, sv_livekit = \<lparr>lk_URL = [], lk_APIKey = [], lk_APISecret = []\<rparr>,
     sv_expo = \<lparr>ec_accessToken = []\<rparr>, sv_origins = [''*''], sv_admin = Some demo_admin, sv_policy = None\<rparr>"

definition demo_platform :: platform where
  "demo_platform = \<lparr>pf_libs = demo_libs, pf_case = id, pf_ToJWT = (\<lambda>_. Inl []), pf_mac = (\<lambda>k p. k @ p), pf_pgts = (\<lambda>_. None),
     pf_ilike = (\<lambda>_ _. False), pf_expo = demo_expo\<rparr>"

definition demo_request :: http_request where
  "demo_request = \<lparr>rq_Method = ''POST'', rq_Origin = [], rq_Authorization = [], rq_URLParam = (\<lambda>_. []), rq_Query = (\<lambda>_. []),
     rq_Admin = demo_admin_request, rq_guest = Inr \<lparr>GuestDisplayName = ''Ann'', GuestAvatarURL = None\<rparr>, rq_oauth = Inl [],
     rq_text = Inl [], rq_name = None, rq_muted = Inl [], rq_destination = Inl [], rq_destinationMeta = Inl [], rq_point = Inl [],
     rq_label = Inl [], rq_register = Inl [], rq_form = Inl [], rq_upgraded = True\<rparr>"

definition start_world :: "hub rworld" where
  "start_world = \<lparr>w_db = init_db 0, w_sched = (\<lambda>i. \<lparr>tk_fault = None, tk_now = int i, tk_uuid = of_nat (Suc i)\<rparr>), w_pos = 0,
     w_aborted = False, w_rt = NewHub, w_rand = (\<lambda>i. Inr i), w_rand_pos = 0\<rparr>"

text \<open>The token of user 1, as the demo library signs it.\<close>

definition demo_token :: string where
  "demo_token = (case Issue demo_libs demo_auth 0 1 of Inl _ \<Rightarrow> [] | Inr t \<Rightarrow> t)"

definition world1 :: "hub rworld" where
  "world1 = snd (serve_http demo_platform demo_server 0 E_guest demo_request start_world)"

definition world2 :: "hub rworld" where
  "world2 = snd (serve_http demo_platform demo_server 0 (E_user (U_rooms R_create))
     (demo_request\<lparr>rq_Authorization := ''Bearer '' @ demo_token\<rparr>) world1)"

text \<open>The room got identifier 4.\<close>

definition world3 :: "hub rworld" where
  "world3 = snd (serve_http demo_platform demo_server 0 E_ws
     (demo_request\<lparr>rq_Query := \<lambda>k. if k = ''room'' then uuid_String demo_libs 4 else demo_token\<rparr>) world2)"

lemma reachable_worlds:
  assumes "{E_guest, E_user (U_rooms R_create), E_ws} \<subseteq> E"
  shows "reachable demo_platform demo_server E world1" "reachable demo_platform demo_server E world2"
    "reachable demo_platform demo_server E world3"
proof -
  have step: "reachable demo_platform demo_server E (snd (serve_http demo_platform demo_server now e rq w))"
    if "reachable demo_platform demo_server E w" "e \<in> E" for now e rq w
    using that by (blast intro: reachable.step system_step.request)
  have "reachable demo_platform demo_server E start_world" by (rule reachable.start) (simp_all add: start_world_def)
  then show 1: "reachable demo_platform demo_server E world1" unfolding world1_def by (rule step) (use assms in simp)
  then show 2: "reachable demo_platform demo_server E world2" unfolding world2_def by (rule step) (use assms in simp)
  then show "reachable demo_platform demo_server E world3" unfolding world3_def by (rule step) (use assms in simp)
qed

lemma world2_tables:
  "map u_id (t_users (w_db world2)) = [1]" "map (\<lambda>r. (r_id r, r_owner_id r)) (t_rooms (w_db world2)) = [(4, 1)]"
  by code_simp+

lemma world3_socket: "open_socket 4 1 (w_rt world3)"
  by code_simp

end
