(* ===== verification/Spec2Isabelle.thy ===== *)
theory Spec2Isabelle
  imports CreateJoin Membership Route Chat Authorization Sockets Pumps PresenceSpec HubRace Entitlements Startup TableTypes StoreRace Streams DemoServer
begin

text \<open>
  The Convoy backend: a Go server for groups of people who drive together.  Clients
  sign in, create or join a room by a six-digit code, agree on a destination and stops,
  chat, and see each other live over a WebSocket.  This library models the server from
  its SQL statements to its HTTP routes and proves what the parts promise each other.

  \<^bold>\<open>The parts and how they interact.\<close>  \<open>cmd/server/main.go\<close> reads the configuration
  (\<open>internal/config\<close>), migrates the database (\<open>internal/db\<close>) and mounts the
  routes.  Requests behind \<open>auth.Middleware\<close> reach the handlers of \<open>internal/rooms\<close>;
  they call the room service, which checks the caller, runs statements of the room store
  and announces the outcome through a \<open>Broadcaster\<close>.  That is the hub of
  \<open>internal/realtime\<close>, which holds the sockets of every room in memory.  The socket
  endpoint admits members of active rooms, and each socket has a read loop and a write
  pump.  \<open>internal/auth\<close> owns accounts, \<open>internal/feedback\<close> and
  \<open>internal/push\<close> are small stores, \<open>internal/admin\<close> are pages behind a cookie
  session, \<open>internal/livekit\<close> issues voice tokens, \<open>internal/policy\<close> serves two
  legal pages.

  \<^bold>\<open>Conventions.\<close>  A handler is a function on a world: tables, the schedule of the
  database, and the hub.  The schedule gives every statement its time, the identifier
  \<open>gen_random_uuid\<close> would draw and possibly a fault; all theorems hold for every
  schedule.  Code that can fail returns \<open>go_error + 'a\<close>, with the state it leaves.
  Strings are lists of bytes, as in Go; rune operations decode UTF-8.  Identifiers are
  128-bit words; durations are integers with the 64-bit wrap-around written out.  Names follow the
  source: \<open>Store_X\<close>, \<open>Service_X\<close> and \<open>h_X\<close> are the method \<open>X\<close> of the store, the
  service and the handlers of \<open>internal/rooms\<close>.

  \<^bold>\<open>Theories, in the order of the layers.\<close>
  \<^item> \<open>Prelude\<close>: commands with state and errors, the triples and the \<open>keeps\<close> rules that
    carry the invariant proofs, generic lemmas.  \<open>GoText\<close>, \<open>GoStd\<close>: what the source
    uses of the packages \<open>strings\<close>, \<open>unicode\<close>, \<open>utf8\<close>, \<open>strconv\<close> and \<open>time\<close>.
    \<open>Httpx\<close>: \<open>internal/httpx\<close>.
  \<^item> \<open>Database\<close>: the tables of the migrations, statements, transactions with rollback
    and PostgreSQL's aborted state.
  \<^item> \<open>RoomStore\<close>, \<open>RoomService\<close>, \<open>RoomHandlers\<close>: \<open>store.go\<close>, \<open>service.go\<close>,
    \<open>handlers.go\<close> of \<open>internal/rooms\<close>.  \<open>RoomInvariant\<close> is the invariant of the
    room tables and \<open>RoomSafety\<close> that every method keeps it; \<open>RoomGuards\<close> says what
    the guards of the service establish.  \<open>CreateJoin\<close>, \<open>Membership\<close>, \<open>Route\<close>,
    \<open>Chat\<close>, \<open>Authorization\<close> hold the properties of the methods.
  \<^item> \<open>Messages\<close>, \<open>Hub\<close>, \<open>Realtime\<close>: \<open>messages.go\<close>; \<open>client.go\<close> and
    \<open>hub.go\<close>; \<open>handler.go\<close> of \<open>internal/realtime\<close>.  \<open>HubInvariant\<close> is the
    invariant of the hub, \<open>Presence\<close> and \<open>Pumps\<close> the behaviour of sockets and of the
    write pump, \<open>PresenceSpec\<close> an abstract specification of presence with the proof
    that the hub refines it, \<open>HubRace\<close> the same methods cut at their locks and run by
    interleaved threads.
  \<^item> \<open>BroadcasterSpec\<close>: the interface between service and hub as a locale (the laws the
    service needs, its lemmas proved once); \<open>HubBroadcaster\<close> interprets it on the hub,
    and \<open>Sockets\<close> draws the consequences.
  \<^item> \<open>Auth\<close>, \<open>Livekit\<close>: \<open>internal/auth\<close> with its providers, \<open>internal/livekit\<close>.
    \<open>Entitlements\<close>: the column of that name between database and client.
    \<open>Accounts\<close>: tokens and profile; \<open>Deletion\<close>: closing an account, OAuth sign-in,
    erasure, settings.
  \<^item> \<open>AppConfig\<close>, \<open>Feedback\<close>, \<open>Push\<close>, \<open>AdminSession\<close>, \<open>Admin\<close>: the packages
    \<open>config\<close>, \<open>feedback\<close>, \<open>push\<close> and \<open>admin\<close>.  \<open>AccountInvariant\<close> extends the
    invariant to all tables, \<open>AccountSafety\<close> has the locales for handlers that only
    work on tables, interpreted for the invariant and for what they leave alone.
  \<^item> \<open>Server\<close>: \<open>main.go\<close> and \<open>internal/policy\<close>.  \<open>Startup\<close>: \<open>db.go\<close> with the
    migration files as statements on a schema, the templates of the pages, and \<open>main\<close>
    up to serving.  \<open>System\<close>: the server as a transition system (requests, frames,
    pump turns, teardowns in any order) and a locale for the properties that all its
    steps keep, interpreted there for the invariant, in \<open>TableTypes\<close> for the types of
    the stored values and in \<open>Streams\<close> for the frames of a socket over time.
    \<open>Seats\<close> and \<open>OpenSockets\<close>: memberships and sockets together.
    \<open>StoreRace\<close>: store calls of concurrent requests in any interleaving, simulated by
    tables that satisfy the invariant.  \<open>Demo\<close> and
    \<open>DemoServer\<close> are the concrete states of the witnesses.
  \<^item> This theory: the properties of the whole server.

  \<^bold>\<open>What is shown.\<close>  Every reachable state satisfies all constraints of the tables and
  of the hub, a room has exactly one owner, and an open socket belongs to an active
  member as long as nobody deletes an account.  Stored values are of their types, and
  concurrent requests break none of this except that overlapping transfers of ownership
  leave stale owner roles.  Requests of the wrong people change
  nothing, at every gate (token, membership, ownership, administrator).  Each operation
  of the room service has its full effect stated on every branch, failures included.
  A broadcast reaches exactly the sockets of its room, a closed socket still gets the
  frames queued before, and its pump stops; over any run a socket loses, repeats and
  reorders nothing.  Presence refines its specification, and no
  interleaving of the sections between the locks leaves a stale entry or a room behind.
  Start-up ends in the full schema or does not serve, and a restart at any reachable
  state loses no row.  Round trips hold for codes, destinations, tokens and sessions; scrolling through the
  chat yields every message once.

  \<^bold>\<open>Bounds and fuel.\<close>  There is no fuel.  The loops of the source end by themselves: code
  generation after \<open>maxCodeAttempts\<close> = 8 draws, the batches of the push client by the
  remaining tokens, the pump of a closed socket by its queue.  \<open>writePump\<close> and
  \<open>readPump\<close> run as long as the connection does and appear as steps.  The buffer of a
  socket is the 32 frames of the source.

  \<^bold>\<open>Code outside the repository\<close> is a parameter: parsing of identifiers and JWTs (record
  \<open>libs\<close>), the LiveKit token, HMAC, ILIKE, timestamp input and the Expo service
  (record \<open>platform\<close>), the connection pool and the template engine.  What a theorem needs of it is a named hypothesis
  (\<open>jwt_law\<close>, \<open>uuid_law\<close>), and a witness satisfies it with concrete functions.

  \<^bold>\<open>Not modelled.\<close>  The JSON codec (bodies arrive decoded or as a decoding error); the
  matching of paths by the chi router; key sets and signatures; the WebSocket handshake
  and framing; the HTML of the templates; listening, logging, timeouts and the shutdown
  of the process, which are input and output only.  In \<open>System\<close> each
  request runs to its end before the next; \<open>StoreRace\<close> interleaves the store calls of
  different requests and \<open>HubRace\<close> the sections of the hub between its locks.  A
  statement and a transaction are atomic in both: what two of them could see of each
  other while they run (two concurrent \<open>AddStop\<close> may compute the same position) is
  outside.
\<close>

section \<open>Definitions\<close>

text \<open>The status line of an answer of the JSON endpoints.\<close>

fun answer_status :: "answer \<Rightarrow> nat option" where
  "answer_status (Ans_auth r) = Some (resp_status r)"
| "answer_status (Ans_rooms r) = Some (resp_status r)"
| "answer_status (Ans_feedback r) = Some (resp_status r)"
| "answer_status (Ans_push r) = Some (resp_status r)"
| "answer_status (Ans_config r) = Some (resp_status r)"
| "answer_status _ = None"

text \<open>The user a request speaks for: the bearer token is valid and its account is live.\<close>

definition bearer :: "platform \<Rightarrow> server \<Rightarrow> timestamp \<Rightarrow> http_request \<Rightarrow> db \<Rightarrow> uuid \<Rightarrow> bool" where
  "bearer P sv now rq d u \<longleftrightarrow> HasPrefix (rq_Authorization rq) ''Bearer '' \<and>
     Verify (pf_libs P) (sv_auth sv) now (TrimPrefix (rq_Authorization rq) ''Bearer '') = Inr u \<and> live_user d u \<noteq> None"

text \<open>An environment with the required variables only, and a database that answers.\<close>

definition demo_env :: env where
  "demo_env k = (if k = ''DATABASE_URL'' then ''db'' else if k = ''JWT_SECRET'' then ''0123456789abcdef'' else [])"
definition demo_pool :: "unit pgxpool" where
  "demo_pool = \<lparr>px_ParseConfig = (\<lambda>url. Inr \<lparr>pl_MaxConns = 4, pl_MinConns = 0, pl_MaxConnLifetime = 0, pl_ConnString = url\<rparr>),
     px_NewWithConfig = (\<lambda>_. Inr ()), px_Ping = (\<lambda>_. None)\<rparr>"

section \<open>Reachable states\<close>

text \<open>
  C1: Whatever requests arrive, whatever the sockets send and however they end, and for
  every schedule of faults, times and identifiers: the tables satisfy all declared
  constraints and the agreements only the code keeps (\<open>tables_ok\<close>: keys, unique
  active codes, foreign keys, the owner column against the owner role, kicked members
  have left, destinations set as a whole, distinct stop positions, one account per
  provider identity, a well-formed minimum version), and the hub is consistent
  (\<open>hub_ok\<close>: one socket per user and room, registered under its own user and room,
  no buffer above its capacity, only closed clients drain).
\<close>
theorem system_invariant:
  assumes "reachable P sv E w"
  shows "tables_ok (w_db w) \<and> hub_ok (w_rt w)"
  using reachable_ok [OF assms] by (simp add: system_ok_def)

theorem system_invariant_witness:
  "reachable demo_platform demo_server UNIV world3 \<and> open_socket 4 1 (w_rt world3) \<and>
   tables_ok (w_db world3) \<and> hub_ok (w_rt world3)"
  using system_invariant [OF reachable_worlds(3)[of UNIV]] reachable_worlds(3)[of UNIV] world3_socket by simp

text \<open>
  C2: In every reachable state each room has exactly one membership with the owner
  role, and it is that of the user in the owner column; two active rooms never share
  a code.
\<close>
theorem rooms_have_one_owner:
  assumes "reachable P sv E w" "room \<in> set (t_rooms (w_db w))"
  shows "(\<exists>!m. m \<in> set (t_room_members (w_db w)) \<and> rm_room_id m = r_id room \<and> rm_role m = RoleOwner) \<and>
    (\<forall>m \<in> set (t_room_members (w_db w)). rm_room_id m = r_id room \<longrightarrow> (rm_role m = RoleOwner \<longleftrightarrow> rm_user_id m = r_owner_id room)) \<and>
    (\<forall>other \<in> set (t_rooms (w_db w)). room_active room \<longrightarrow> room_active other \<longrightarrow> r_code other = r_code room \<longrightarrow> other = room)"
proof -
  note ok = tables_okD(1)[OF conjunct1 [OF reachable_ok [OF assms(1), unfolded system_ok_def]]]
  let ?ms = "set (t_room_members (w_db w))"
  have own: "(\<lambda>r. (r_id r, r_owner_id r)) ` set (t_rooms (w_db w)) = member_key ` {m \<in> ?ms. rm_role m = RoleOwner}"
    using db_okD(4)[OF ok] by (simp add: owners_ok_def)
  have room: "r = room" if "r \<in> set (t_rooms (w_db w))" "r_id r = r_id room" for r
    using that distinct_map_unique [OF keys_okD(2)[OF ok]] assms(2) by metis
  have key: "m = m'" if "m \<in> ?ms" "m' \<in> ?ms" "member_key m = member_key m'" for m m'
    using that distinct_map_unique [OF keys_okD(3)[OF ok]] by metis
  have owner: "rm_user_id m = r_owner_id room" if "m \<in> ?ms" "rm_room_id m = r_id room" "rm_role m = RoleOwner" for m
  proof -
    have "member_key m \<in> (\<lambda>r. (r_id r, r_owner_id r)) ` set (t_rooms (w_db w))" using that own by blast
    then show ?thesis using room that(2) by auto
  qed
  have "(r_id room, r_owner_id room) \<in> member_key ` {m \<in> ?ms. rm_role m = RoleOwner}" using own assms(2) by blast
  then obtain m0 where m0: "m0 \<in> ?ms" "rm_room_id m0 = r_id room" "rm_user_id m0 = r_owner_id room" "rm_role m0 = RoleOwner"
    by auto
  have "\<exists>!m. m \<in> ?ms \<and> rm_room_id m = r_id room \<and> rm_role m = RoleOwner"
    using m0 key owner by (intro ex1I [of _ m0]) auto
  moreover have "\<forall>m \<in> ?ms. rm_room_id m = r_id room \<longrightarrow> (rm_role m = RoleOwner \<longleftrightarrow> rm_user_id m = r_owner_id room)"
    using m0 key owner by (metis (mono_tags))
  moreover have "\<forall>other \<in> set (t_rooms (w_db w)). room_active room \<longrightarrow> room_active other \<longrightarrow> r_code other = r_code room \<longrightarrow> other = room"
    using db_okD(2)[OF ok] assms(2) by (auto simp: codes_ok_def inj_on_def)
  ultimately show ?thesis by blast
qed

theorem rooms_have_one_owner_witness:
  "\<exists>room. room \<in> set (t_rooms (w_db world2)) \<and> r_owner_id room = 1 \<and>
     (\<exists>!m. m \<in> set (t_room_members (w_db world2)) \<and> rm_room_id m = r_id room \<and> rm_role m = RoleOwner)"
proof -
  obtain room where "room \<in> set (t_rooms (w_db world2))" "r_owner_id room = 1" using world2_tables(2) by auto
  with rooms_have_one_owner [OF reachable_worlds(2)[of UNIV], of room] show ?thesis by blast
qed

text \<open>
  C3: In every reachable state every stored value is of its type (\<open>rows_typed\<close>),
  although the schema does not say so: room codes are six digits; destinations, stops
  and markers lie on the globe; labels have 1 to 120, notes 1 to 500, messages 1 to
  2000 and display names 1 to 40 characters, messages are trimmed; feedback and
  broadcasts keep their limits in bytes; push tokens have the format of Expo; and every
  text column holds valid UTF-8 without zero bytes.
\<close>
theorem stored_values_typed:
  assumes "reachable P sv E w"
  shows "rows_typed (w_db w)"
  using rows.reachable_both [OF assms] by simp

theorem stored_values_typed_witness:
  "reachable demo_platform demo_server UNIV world3 \<and> t_rooms (w_db world2) \<noteq> [] \<and> rows_typed (w_db world2) \<and> rows_typed (w_db world3)"
  using stored_values_typed [OF reachable_worlds(3)[of UNIV]] stored_values_typed [OF reachable_worlds(2)[of UNIV]]
    reachable_worlds(3)[of UNIV] world2_tables(2) by auto



section \<open>Gates\<close>

lemma Middleware_refuses:
  fixes w :: "hub rworld" and nxt :: "User \<Rightarrow> (hub rworld, 'b) handler"
  assumes "\<nexists>u. bearer P sv now rq (w_db w) u"
  shows "case Middleware (pf_libs P) (sv_auth sv) now (rq_Authorization rq) nxt w of (resp, w') \<Rightarrow>
    resp_status resp \<in> {401, 500} \<and> (calm w \<longrightarrow> resp_status resp = 401) \<and> same_state w w'"
proof (cases "HasPrefix (rq_Authorization rq) ''Bearer ''")
  case False
  then show ?thesis by (simp add: Middleware_def http_errors error_json_def)
next
  case pre: True
  show ?thesis
  proof (cases "Verify (pf_libs P) (sv_auth sv) now (TrimPrefix (rq_Authorization rq) ''Bearer '')")
    case (Inl e)
    with pre show ?thesis by (simp add: Middleware_def http_errors error_json_def)
  next
    case (Inr u)
    with pre assms have dead: "live_user (w_db w) u = None" by (auto simp: bearer_def)
    obtain r v where l: "LoadUser u w = (r, v)" by force
    with dead obtain e where e: "r = Inl e" by (cases r) (auto dest: LoadUser_InrD)
    have same: "same_state w v" using LoadUser_InlD l e by blast
    have st: "resp_status (WriteErr e :: 'b response) \<in> {401, 500}" "calm w \<Longrightarrow> resp_status (WriteErr e :: 'b response) = 401"
      using l e dead by (auto simp: LoadUser_def map_err_def onErr_def fail_def ok_def stmt_def sql_row_def no_rows_as_def
          http_errors error_json_def calm_tick split: option.splits if_splits)
    with pre Inr l e same show ?thesis by (simp add: Middleware_def)
  qed
qed

lemma serve_user_refuses:
  assumes "\<nexists>u. bearer P sv now rq (w_db w) u"
  shows "case serve_user P sv now e rq w of (answer, w') \<Rightarrow>
    answer_status answer \<in> {Some 401, Some 500} \<and> (calm w \<longrightarrow> answer_status answer = Some 401) \<and> same_state w w'"
  by (cases e) (use Middleware_refuses [OF assms] in \<open>simp_all add: split_beta\<close>)

text \<open>
  C6: Nothing behind the authentication middleware runs for a request without a valid
  bearer token of a live account: whatever the endpoint, the answer is 401 (500 when
  the database fails meanwhile), and neither the tables nor the sockets change.
\<close>
theorem user_routes_gated:
  assumes "\<nexists>u. bearer P sv now rq (w_db w) u"
  shows "case serve_route P sv now (E_user e) rq w of (answer, w') \<Rightarrow>
    answer_status answer \<in> {Some 401, Some 500} \<and> (calm w \<longrightarrow> answer_status answer = Some 401) \<and> same_state w w'"
  using serve_user_refuses [OF assms, of e] by (simp add: split_beta)

theorem user_routes_gated_witness:
  "answer_status (fst (serve_route demo_platform demo_server 0 (E_user (U_rooms R_kick)) demo_request world3)) \<in> {Some 401, Some 500}"
proof -
  have "\<nexists>u. bearer demo_platform demo_server 0 demo_request (w_db world3) u"
    by (simp add: bearer_def demo_request_def HasPrefix_def)
  from user_routes_gated [OF this, of "U_rooms R_kick"] show ?thesis by (simp add: split_beta)
qed

lemma ws_dead_user:
  assumes "Verify L s now token = Inr u" "live_user (w_db w) u = None"
  shows "(\<exists>st msg. fst (ServeHTTP_open L s now room token accepted w) = WsError st msg) \<and>
    same_state w (snd (ServeHTTP_open L s now room token accepted w))"
proof -
  obtain a w1 where a: "ws_admit L s now room token w = (a, w1)" by force
  show ?thesis
  proof (cases a)
    case (Inl answer)
    with ws_admit_InlD [of L s now room token w answer w1] a show ?thesis by (auto simp: ServeHTTP_open_def)
  next
    case (Inr p)
    then obtain roomID user where p: "a = Inr (roomID, user)" by (cases p) auto
    from ws_admit_InrD [OF a [unfolded p]] assms show ?thesis by auto
  qed
qed



text \<open>
  C7: The administration pages run only behind a session: a request reaches a page only
  when an administrator is configured and the cookie carries the keyed hash of this
  server over its own time stamp, not older than seven days.  Every other request
  leaves the whole state as it was and is sent to the login (401 for HTMX), or gets 404
  when there is no administrator.
\<close>
theorem admin_routes_gated:
  "case serve_route P sv now (E_admin e) rq w of (answer, w') \<Rightarrow>
     (\<exists>m t issued. sv_admin sv = Some m \<and> Sscanf_d t = Some issued \<and> now - time_Unix issued \<le> sessionLifetime \<and>
        rq_Cookie (rq_Admin rq) = Some (''v1.'' @ t @ ''.'' @ RawURLEncoding (pf_mac P (ad_CookieSecret m) (''v1.'' @ t)))) \<or>
     w' = w \<and> answer \<in> {Ans_text 404 ''404 page not found'', Ans_admin (Redirect ''/admin/login''),
       Ans_admin (HxRedirect 401 ''/admin/login'')}"
  by (auto simp: requireAuth_def signed_in_def verifySession_iff split: option.splits)

section \<open>Starting and restarting\<close>





end
